(* ===== verification/Prelude.thy ===== *)
theory Prelude
  imports Main "HOL-Library.Sublist" "HOL-Library.Multiset"
begin

text \<open>
  The shared layer of the development: the part of Go's standard library the program's own
  decisions rest on (package \<^verbatim>\<open>strings\<close>, the verbs \<^verbatim>\<open>%d\<close>, \<^verbatim>\<open>%s\<close>, \<^verbatim>\<open>%v\<close> and
  \<^verbatim>\<open>%q\<close> of package \<^verbatim>\<open>fmt\<close>), Go maps with their unspecified iteration order, and the
  lemmas on lists, maps and folds that several components use.

  A Go string is its list of bytes, so \<^typ>\<open>string\<close> models it directly: \<open>length\<close> is
  \<^verbatim>\<open>len\<close>, and indexing is by byte. Functions that fold case or look for white space do so
  for ASCII, which is the alphabet of every version number, vCenter address, datastore type
  and Kubernetes name they are applied to.
\<close>

named_theorems go_simps \<open>evaluate Go library functions on concrete input\<close>

section \<open>Package strings\<close>

text \<open>\<^verbatim>\<open>strings.Split(s, sep)\<close> for a separator of one byte.\<close>

fun split_on :: "char \<Rightarrow> string \<Rightarrow> string list" where
  "split_on c [] = [[]]"
| "split_on c (x # xs) =
     (if x = c then [] # split_on c xs
      else (case split_on c xs of [] \<Rightarrow> [[x]] | p # ps \<Rightarrow> (x # p) # ps))"

text \<open>\<^verbatim>\<open>strings.SplitN(s, sep, n)\<close>: at most \<open>n\<close> parts, the last one holds the rest.\<close>

fun split_n :: "char \<Rightarrow> nat \<Rightarrow> string \<Rightarrow> string list" where
  "split_n c 0 s = []"
| "split_n c (Suc 0) s = [s]"
| "split_n c (Suc (Suc n)) s =
     (case dropWhile (\<lambda>x. x \<noteq> c) s of
        [] \<Rightarrow> [s]
      | _ # rest \<Rightarrow> takeWhile (\<lambda>x. x \<noteq> c) s # split_n c (Suc n) rest)"

text \<open>\<^verbatim>\<open>strings.Join(parts, sep)\<close>.\<close>

fun join_strings :: "string \<Rightarrow> string list \<Rightarrow> string" where
  "join_strings sep [] = []"
| "join_strings sep [x] = x"
| "join_strings sep (x # y # zs) = x @ sep @ join_strings sep (y # zs)"

text \<open>\<^verbatim>\<open>strings.Trim(s, cutset)\<close> strips bytes of the cutset from both ends.\<close>

definition trim_set :: "string \<Rightarrow> string \<Rightarrow> string" where
  "trim_set cutset s =
     rev (dropWhile (\<lambda>c. c \<in> set cutset) (rev (dropWhile (\<lambda>c. c \<in> set cutset) s)))"

text \<open>\<^verbatim>\<open>strings.TrimSpace\<close>: tab, line feed, vertical tab, form feed, return and space.\<close>

definition white_space :: string where
  "white_space = [CHR 0x09, CHR 0x0A, CHR 0x0B, CHR 0x0C, CHR 0x0D, CHR '' '']"

definition trim_space :: "string \<Rightarrow> string" where
  "trim_space s = trim_set white_space s"

definition trim_prefix :: "string \<Rightarrow> string \<Rightarrow> string" where
  "trim_prefix p s = (if prefix p s then drop (length p) s else s)"

definition lower_char :: "char \<Rightarrow> char" where
  "lower_char c =
     (if 65 \<le> (of_char c :: nat) \<and> (of_char c :: nat) \<le> 90
      then char_of ((of_char c :: nat) + 32) else c)"

definition to_lower :: "string \<Rightarrow> string" where
  "to_lower s = map lower_char s"

definition equal_fold :: "string \<Rightarrow> string \<Rightarrow> bool" where
  "equal_fold s t \<longleftrightarrow> to_lower s = to_lower t"

text \<open>\<^verbatim>\<open>strings.Contains\<close>, written as the search for the needle at each offset.\<close>

fun contains_substring :: "string \<Rightarrow> string \<Rightarrow> bool" where
  "contains_substring needle [] \<longleftrightarrow> needle = []"
| "contains_substring needle (x # xs) \<longleftrightarrow>
     prefix needle (x # xs) \<or> contains_substring needle xs"

definition contains_any :: "string \<Rightarrow> string \<Rightarrow> bool" where
  "contains_any s cs \<longleftrightarrow> list_ex (\<lambda>c. c \<in> set cs) s"

section \<open>Package fmt\<close>

definition digit_char :: "nat \<Rightarrow> char" where
  "digit_char d = char_of (48 + d)"

fun show_nat :: "nat \<Rightarrow> string" where
  "show_nat n = (if n < 10 then [digit_char n] else show_nat (n div 10) @ [digit_char (n mod 10)])"

declare show_nat.simps [simp del]
declare trim_set_def [go_simps] white_space_def [go_simps] trim_space_def [go_simps]

definition show_int :: "int \<Rightarrow> string" where
  "show_int i = (if i < 0 then CHR ''-'' # show_nat (nat (- i)) else show_nat (nat i))"

text \<open>\<^verbatim>\<open>%v\<close> of a slice of strings: \<open>[a b c]\<close>.\<close>

definition show_strings :: "string list \<Rightarrow> string" where
  "show_strings xs = ''['' @ join_strings '' '' xs @ '']''"

text \<open>\<^verbatim>\<open>%q\<close> of a string, as \<^verbatim>\<open>strconv.Quote\<close> writes ASCII.\<close>

definition hex_digit :: "nat \<Rightarrow> char" where
  "hex_digit d = (if d < 10 then char_of (48 + d) else char_of (87 + d))"

definition quote_char :: "char \<Rightarrow> string" where
  "quote_char c =
     (if c = CHR 0x22 then [CHR 0x5C, CHR 0x22]
      else if c = CHR 0x5C then [CHR 0x5C, CHR 0x5C]
      else if c = CHR 0x07 then [CHR 0x5C, CHR ''a'']
      else if c = CHR 0x08 then [CHR 0x5C, CHR ''b'']
      else if c = CHR 0x0C then [CHR 0x5C, CHR ''f'']
      else if c = CHR 0x0A then [CHR 0x5C, CHR ''n'']
      else if c = CHR 0x0D then [CHR 0x5C, CHR ''r'']
      else if c = CHR 0x09 then [CHR 0x5C, CHR ''t'']
      else if c = CHR 0x0B then [CHR 0x5C, CHR ''v'']
      else if (of_char c :: nat) < 32 \<or> (of_char c :: nat) = 127
      then [CHR 0x5C, CHR ''x'', hex_digit (of_char c div 16), hex_digit (of_char c mod 16)]
      else [c])"

definition quote :: "string \<Rightarrow> string" where
  "quote s = CHR 0x22 # concat (map quote_char s) @ [CHR 0x22]"

section \<open>Lemmas on strings\<close>

lemma split_on_not_Nil [simp]: "split_on c s \<noteq> []"
  by (induction c s rule: split_on.induct) (auto split: list.splits)

lemma split_on_Cons_other:
  "x \<noteq> c \<Longrightarrow> split_on c (x # xs) = (x # hd (split_on c xs)) # tl (split_on c xs)"
  by (cases "split_on c xs") auto

lemma join_split_on: "join_strings [c] (split_on c s) = s"
proof (induction c s rule: split_on.induct)
  case (1 c)
  show ?case by simp
next
  case (2 c x xs)
  obtain p ps where ps: "split_on c xs = p # ps" by (cases "split_on c xs") auto
  with 2 show ?case by (cases ps; cases "x = c") auto
qed

lemma split_on_no_sep: "p \<in> set (split_on c s) \<Longrightarrow> c \<notin> set p"
  by (induction c s arbitrary: p rule: split_on.induct) (force split: if_splits list.splits)+

lemma digit_chars [simp]:
  "digit_char 0 = CHR ''0''" "digit_char (Suc 0) = CHR ''1''" "digit_char 1 = CHR ''1''"
  "digit_char 2 = CHR ''2''" "digit_char 3 = CHR ''3''" "digit_char 4 = CHR ''4''"
  "digit_char 5 = CHR ''5''" "digit_char 6 = CHR ''6''" "digit_char 7 = CHR ''7''"
  "digit_char 8 = CHR ''8''" "digit_char 9 = CHR ''9''"
  by (simp_all add: digit_char_def char_of_def bit_Suc_0_iff)

lemma show_nat_small [go_simps]: "n < 10 \<Longrightarrow> show_nat n = [digit_char n]"
  by (simp add: show_nat.simps [of n])

lemma show_nat_large [go_simps]: "10 \<le> n \<Longrightarrow> show_nat n = show_nat (n div 10) @ [digit_char (n mod 10)]"
  by (simp add: show_nat.simps [of n])

lemma split_on_single: "c \<notin> set s \<Longrightarrow> split_on c s = [s]"
  by (induction s) auto

lemma split_on_append: "c \<notin> set s \<Longrightarrow> split_on c (s @ c # t) = s # split_on c t"
  by (induction s) auto

lemma split_n_append:
  "c \<notin> set s \<Longrightarrow> split_n c (Suc (Suc n)) (s @ c # t) = s # split_n c (Suc n) t"
  by (induction s) (auto simp: dropWhile_append takeWhile_append)

lemma split_n_single: "c \<notin> set s \<Longrightarrow> split_n c (Suc n) s = [s]"
proof (cases n)
  case (Suc m)
  assume "c \<notin> set s"
  then have no: "dropWhile (\<lambda>x. x \<noteq> c) s = []" by (auto simp: dropWhile_eq_Nil_conv)
  show ?thesis unfolding Suc by (simp only: split_n.simps no list.case)
qed simp

lemma trim_set_fixed:
  assumes "s \<noteq> []" "hd s \<notin> set cs" "last s \<notin> set cs"
  shows "trim_set cs s = s"
proof -
  have "dropWhile (\<lambda>c. c \<in> set cs) s = s"
    using assms by (cases s) auto
  moreover have "dropWhile (\<lambda>c. c \<in> set cs) (rev s) = rev s"
    using assms by (cases s rule: rev_cases) auto
  ultimately show ?thesis by (simp add: trim_set_def)
qed

lemma trim_space_fixed:
  "s \<noteq> [] \<Longrightarrow> hd s \<notin> set white_space \<Longrightarrow> last s \<notin> set white_space \<Longrightarrow> trim_space s = s"
  by (simp add: trim_space_def trim_set_fixed)

lemma trim_prefix_other: "\<not> prefix p s \<Longrightarrow> trim_prefix p s = s"
  by (simp add: trim_prefix_def)

lemma contains_substring_iff: "contains_substring needle s \<longleftrightarrow> sublist needle s"
  by (induction s) (auto simp: sublist_Cons_right)

lemma lower_char_idem [simp]: "lower_char (lower_char c) = lower_char c"
proof (cases "65 \<le> (of_char c :: nat) \<and> (of_char c :: nat) \<le> 90")
  case True
  then have "(of_char (lower_char c) :: nat) = of_char c + 32"
    by (simp add: lower_char_def)
  with True show ?thesis by (simp add: lower_char_def [of "lower_char c"])
next
  case False
  then have "lower_char c = c" by (auto simp: lower_char_def)
  then show ?thesis by simp
qed

lemma to_lower_idem [simp]: "to_lower (to_lower s) = to_lower s"
  by (simp add: to_lower_def)

lemma length_to_lower [simp]: "length (to_lower s) = length s"
  by (simp add: to_lower_def)

lemma join_strings_Cons:
  "xs \<noteq> [] \<Longrightarrow> join_strings sep (x # xs) = x @ sep @ join_strings sep xs"
  by (cases xs) auto

lemma join_strings_append:
  "xs \<noteq> [] \<Longrightarrow> ys \<noteq> [] \<Longrightarrow>
   join_strings sep (xs @ ys) = join_strings sep xs @ sep @ join_strings sep ys"
proof (induction xs)
  case (Cons x xs)
  then show ?case by (cases "xs = []") (auto simp: join_strings_Cons)
qed simp

lemma join_strings_member_sublist:
  "x \<in> set xs \<Longrightarrow> sublist x (join_strings sep xs)"
proof (induction xs)
  case (Cons y ys)
  show ?case
  proof (cases "ys = []")
    case True
    with Cons show ?thesis by simp
  next
    case False
    show ?thesis
    proof (cases "x = y")
      case True
      with False show ?thesis by (simp add: join_strings_Cons)
    next
      case neq: False
      with Cons have "sublist x (join_strings sep ys)" by simp
      then have "sublist x ((y @ sep) @ join_strings sep ys)"
        by (meson sublist_append_leftI sublist_order.order.trans)
      with False show ?thesis by (simp add: join_strings_Cons)
    qed
  qed
qed simp

section \<open>Go maps and their iteration order\<close>

text \<open>
  A Go map is a finite partial function. A \<^verbatim>\<open>range\<close> loop over it visits its keys once
  each, in an order the runtime chooses: the loop of the model takes that order as an
  argument, and what is proved of it holds for every order the runtime may choose, which
  \<open>iteration_of\<close> describes.
\<close>

definition iteration_of :: "('k \<rightharpoonup> 'v) \<Rightarrow> 'k list \<Rightarrow> bool" where
  "iteration_of m ks \<longleftrightarrow> distinct ks \<and> set ks = dom m"

definition range_map :: "('k \<rightharpoonup> 'v) \<Rightarrow> 'k list \<Rightarrow> ('k \<times> 'v) list" where
  "range_map m ks = map (\<lambda>k. (k, the (m k))) ks"

lemma iteration_of_empty [simp]: "iteration_of Map.empty ks \<longleftrightarrow> ks = []"
  by (auto simp: iteration_of_def)

lemma iteration_of_distinct: "iteration_of m ks \<Longrightarrow> distinct ks"
  by (simp add: iteration_of_def)

lemma iteration_of_mem: "iteration_of m ks \<Longrightarrow> k \<in> set ks \<longleftrightarrow> (\<exists>v. m k = Some v)"
  by (auto simp: iteration_of_def)

lemma iteration_of_mset: "iteration_of m ks \<Longrightarrow> iteration_of m ks' \<Longrightarrow> mset ks = mset ks'"
  by (metis iteration_of_def set_eq_iff_mset_eq_distinct)

lemma iteration_of_finite: "finite (dom m) \<Longrightarrow> \<exists>ks. iteration_of m ks"
  using finite_distinct_list [of "dom m"] by (auto simp: iteration_of_def)

lemma length_range_map [simp]: "length (range_map m ks) = length ks"
  by (simp add: range_map_def)

lemma set_range_map:
  "iteration_of m ks \<Longrightarrow> set (range_map m ks) = {(k, v). m k = Some v}"
  by (fastforce simp: range_map_def iteration_of_def)

text \<open>\<^verbatim>\<open>m[k]++\<close> on a map of counters: a missing key reads as 0.\<close>

definition map_incr :: "('k \<rightharpoonup> nat) \<Rightarrow> 'k \<Rightarrow> ('k \<rightharpoonup> nat)" where
  "map_incr m k = m(k \<mapsto> (case m k of None \<Rightarrow> 1 | Some n \<Rightarrow> Suc n))"

definition map_count :: "('k \<rightharpoonup> nat) \<Rightarrow> 'k \<Rightarrow> nat" where
  "map_count m k = (case m k of None \<Rightarrow> 0 | Some n \<Rightarrow> n)"

lemma map_count_empty [simp]: "map_count Map.empty k = 0"
  by (simp add: map_count_def)

lemma map_count_incr [simp]:
  "map_count (map_incr m k) j = map_count m j + (if j = k then 1 else 0)"
  by (auto simp: map_count_def map_incr_def split: option.splits)

lemma dom_map_incr [simp]: "dom (map_incr m k) = insert k (dom m)"
  by (simp add: map_incr_def)

lemma map_incr_commute: "map_incr (map_incr m k) j = map_incr (map_incr m j) k"
  by (rule ext) (auto simp: map_incr_def split: option.splits)

lemma fold_map_incr_count:
  "map_count (fold (\<lambda>k m. map_incr m k) ks m) j = map_count m j + count_list ks j"
  by (induction ks arbitrary: m) auto

lemma dom_fold_map_incr: "dom (fold (\<lambda>k m. map_incr m k) ks m) = dom m \<union> set ks"
  by (induction ks arbitrary: m) auto

section \<open>Folds in any order\<close>

text \<open>
  Operations that take a lock for their whole body run in some serial order. Where they
  commute, the state they leave does not depend on that order.
\<close>

locale locked_updates =
  fixes upd :: "'x \<Rightarrow> 's \<Rightarrow> 's"
  assumes upd_commute: "upd x (upd y s) = upd y (upd x s)"
begin

lemma fold_order_irrelevant:
  assumes "mset xs = mset ys"
  shows "fold upd xs s = fold upd ys s"
proof -
  have "fold upd xs = fold upd ys"
    using assms by (intro fold_multiset_equiv) (auto simp: fun_eq_iff upd_commute)
  then show ?thesis by simp
qed

end

lemma count_list_mset: "count_list xs x = count (mset xs) x"
  by (induction xs) auto

lemma list_all_in_set: "list_all P xs \<longleftrightarrow> (\<forall>x \<in> set xs. P x)"
  by (simp add: list_all_iff)

end
