(* ===== verification/StrConv.thy ===== *)
theory StrConv
  imports Prelude
begin

text \<open>
  \<^verbatim>\<open>strconv.ParseUint(s, 10, 64)\<close> and \<^verbatim>\<open>strconv.ParseInt(s, 0, 64)\<close> of Go's standard
  library: the first reads the numbers of a version, the second the hardware version of a VM.
  With base 0 the base comes from the literal's prefix, as in Go source: a leading \<open>0\<close> selects
  base 8, and underscores may separate digits.
\<close>

datatype num_error = ErrSyntax | ErrRange

definition max_uint64 :: nat where "max_uint64 = 2 ^ 64 - 1"

definition byte :: "char \<Rightarrow> nat" where "byte c = of_char c"

definition is_digit :: "char \<Rightarrow> bool" where
  "is_digit c \<longleftrightarrow> 48 \<le> byte c \<and> byte c \<le> 57"

text \<open>The value of a digit or letter, \<open>None\<close> for any other byte.\<close>

definition digit_value :: "char \<Rightarrow> nat option" where
  "digit_value c =
     (if is_digit c then Some (byte c - 48)
      else if 97 \<le> byte (lower_char c) \<and> byte (lower_char c) \<le> 122
      then Some (byte (lower_char c) - 97 + 10)
      else None)"

text \<open>
  The digit loop of \<^verbatim>\<open>ParseUint\<close>: the number so far and whether an underscore was seen. The
  first range test is the cutoff \<^verbatim>\<open>maxUint64/base + 1\<close>, the second the wrapped sum.
\<close>

fun parse_digits :: "nat \<Rightarrow> bool \<Rightarrow> string \<Rightarrow> nat \<Rightarrow> bool \<Rightarrow> num_error + (nat \<times> bool)" where
  "parse_digits base base0 [] n u = Inr (n, u)"
| "parse_digits base base0 (c # cs) n u =
     (if c = CHR ''_'' \<and> base0 then parse_digits base base0 cs n True
      else case digit_value c of
        None \<Rightarrow> Inl ErrSyntax
      | Some d \<Rightarrow>
          if base \<le> d then Inl ErrSyntax
          else if max_uint64 div base + 1 \<le> n then Inl ErrRange
          else if max_uint64 < n * base + d then Inl ErrRange
          else parse_digits base base0 cs (n * base + d) u)"

text \<open>The loop of \<^verbatim>\<open>underscoreOK\<close>, with the last byte's class as its state.\<close>

datatype saw = SawStart | SawDigit | SawUnderscore | SawOther

fun underscore_loop :: "bool \<Rightarrow> string \<Rightarrow> saw \<Rightarrow> bool" where
  "underscore_loop hex [] s \<longleftrightarrow> s \<noteq> SawUnderscore"
| "underscore_loop hex (c # cs) s \<longleftrightarrow>
     (if is_digit c \<or> hex \<and> 97 \<le> byte (lower_char c) \<and> byte (lower_char c) \<le> 102
      then underscore_loop hex cs SawDigit
      else if c = CHR ''_'' then s = SawDigit \<and> underscore_loop hex cs SawUnderscore
      else s \<noteq> SawUnderscore \<and> underscore_loop hex cs SawOther)"

definition strip_sign :: "string \<Rightarrow> string" where
  "strip_sign s = (case s of [] \<Rightarrow> [] | c # cs \<Rightarrow> if c = CHR ''-'' \<or> c = CHR ''+'' then cs else s)"

definition base_letter :: "string \<Rightarrow> char option" where
  "base_letter s = (case s of z # b # _ \<Rightarrow> if z = CHR ''0'' then Some (lower_char b) else None
                            | _ \<Rightarrow> None)"

definition underscoreOK :: "string \<Rightarrow> bool" where
  "underscoreOK s0 =
     (let s = strip_sign s0 in
      if base_letter s \<in> {Some (CHR ''b''), Some (CHR ''o''), Some (CHR ''x'')}
      then underscore_loop (base_letter s = Some (CHR ''x'')) (drop 2 s) SawDigit
      else underscore_loop False s SawStart)"

definition ParseUint10 :: "string \<Rightarrow> num_error + nat" where
  "ParseUint10 s =
     (if s = [] then Inl ErrSyntax
      else case parse_digits 10 False s 0 False of Inl e \<Rightarrow> Inl e | Inr (n, _) \<Rightarrow> Inr n)"

text \<open>The prefix decides the base and how much of the string is digits.\<close>

definition base_prefix :: "string \<Rightarrow> nat \<times> string" where
  "base_prefix s =
     (if hd s = CHR ''0'' then
        (if 3 \<le> length s \<and> base_letter s = Some (CHR ''b'') then (2, drop 2 s)
         else if 3 \<le> length s \<and> base_letter s = Some (CHR ''o'') then (8, drop 2 s)
         else if 3 \<le> length s \<and> base_letter s = Some (CHR ''x'') then (16, drop 2 s)
         else (8, drop 1 s))
      else (10, s))"

definition ParseUint0 :: "string \<Rightarrow> num_error + nat" where
  "ParseUint0 s =
     (if s = [] then Inl ErrSyntax
      else let (base, digits) = base_prefix s in
        case parse_digits base True digits 0 False of
          Inl e \<Rightarrow> Inl e
        | Inr (n, underscores) \<Rightarrow>
            if underscores \<and> \<not> underscoreOK s then Inl ErrSyntax else Inr n)"

definition ParseInt0 :: "string \<Rightarrow> num_error + int" where
  "ParseInt0 s =
     (if s = [] then Inl ErrSyntax
      else let neg = (hd s = CHR ''-'');
               t = (if hd s = CHR ''+'' \<or> neg then tl s else s)
        in case ParseUint0 t of
          Inl ErrSyntax \<Rightarrow> Inl ErrSyntax
        | Inl ErrRange \<Rightarrow> Inl ErrRange
        | Inr un \<Rightarrow>
            if \<not> neg \<and> 2 ^ 63 \<le> un then Inl ErrRange
            else if neg \<and> 2 ^ 63 < un then Inl ErrRange
            else Inr (if neg then - int un else int un))"

section \<open>Decimal numerals parse to their value\<close>

lemma byte_digit_char [simp]: "d < 10 \<Longrightarrow> byte (digit_char d) = 48 + d"
  by (simp add: byte_def digit_char_def)

lemma is_digit_digit_char [simp]: "d < 10 \<Longrightarrow> is_digit (digit_char d)"
  by (simp add: is_digit_def)

lemma digit_value_digit_char [simp]: "d < 10 \<Longrightarrow> digit_value (digit_char d) = Some d"
  by (simp add: digit_value_def)

lemma digit_char_neq:
  "d < 10 \<Longrightarrow> \<not> is_digit c \<Longrightarrow> digit_char d \<noteq> c"
  using is_digit_digit_char by blast

lemma special_not_digit [simp]:
  "\<not> is_digit (CHR ''_'')" "\<not> is_digit (CHR ''-'')" "\<not> is_digit (CHR ''+'')"
  "\<not> is_digit (CHR ''.'')" "\<not> is_digit (CHR ''v'')" "\<not> is_digit (CHR ''x'')"
  "\<not> is_digit (CHR ''m'')" "\<not> is_digit (CHR '' '')"
  by (simp_all add: is_digit_def byte_def)

lemma show_nat_digits: "c \<in> set (show_nat n) \<Longrightarrow> is_digit c"
proof (induction n rule: show_nat.induct)
  case (1 n)
  show ?case
  proof (cases "n < 10")
    case True
    with "1.prems" show ?thesis by (simp add: show_nat.simps [of n])
  next
    case False
    have "c \<in> set (show_nat (n div 10)) \<or> c = digit_char (n mod 10)"
      using "1.prems" False by (auto simp: show_nat.simps [of n])
    with "1.IH" [OF False] show ?thesis by auto
  qed
qed

lemma show_nat_not_Nil [simp]: "show_nat n \<noteq> []"
  by (subst show_nat.simps) simp

lemma hd_show_nat: "0 < n \<Longrightarrow> hd (show_nat n) \<noteq> CHR ''0''"
proof (induction n rule: show_nat.induct)
  case (1 n)
  show ?case
  proof (cases "n < 10")
    case True
    have "byte (digit_char n) \<noteq> byte (CHR ''0'')"
      using True "1.prems" by (simp add: byte_digit_char [OF True])
        (simp add: byte_def)
    then have "digit_char n \<noteq> CHR ''0''" by metis
    with True show ?thesis by (simp add: show_nat.simps [of n])
  next
    case False
    with "1.IH" have "hd (show_nat (n div 10)) \<noteq> CHR ''0''" by simp
    with False show ?thesis by (simp add: show_nat.simps [of n] hd_append)
  qed
qed

lemma parse_digits_append:
  "parse_digits b b0 (s @ t) n u =
    (case parse_digits b b0 s n u of Inl e \<Rightarrow> Inl e | Inr (m, v) \<Rightarrow> parse_digits b b0 t m v)"
  by (induction b b0 s n u rule: parse_digits.induct) (auto split: option.splits)

lemma parse_digits_one:
  assumes "d < 10" "n * 10 + d \<le> max_uint64"
  shows "parse_digits 10 b0 [digit_char d] n u = Inr (n * 10 + d, u)"
proof -
  have "n \<le> max_uint64 div 10" using assms(2) by (simp add: less_eq_div_iff_mult_less_eq)
  then show ?thesis
    using assms digit_char_neq [OF assms(1), of "CHR ''_''"]
    by simp
qed

lemma parse_digits_show_nat:
  "n \<le> max_uint64 \<Longrightarrow> parse_digits 10 b0 (show_nat n) 0 u = Inr (n, u)"
proof (induction n rule: show_nat.induct)
  case (1 n)
  show ?case
  proof (cases "n < 10")
    case True
    with "1.prems" show ?thesis
      using parse_digits_one [of n 0 b0 u] by (simp add: show_nat.simps [of n] del: parse_digits.simps)
  next
    case False
    then have "parse_digits 10 b0 (show_nat (n div 10)) 0 u = Inr (n div 10, u)"
      using "1.IH" "1.prems" by simp
    moreover have "parse_digits 10 b0 [digit_char (n mod 10)] (n div 10) u = Inr (n, u)"
      using parse_digits_one [of "n mod 10" "n div 10" b0 u] "1.prems" by simp
    ultimately show ?thesis
      using False by (simp add: show_nat.simps [of n] parse_digits_append del: parse_digits.simps)
  qed
qed

lemma ParseUint10_show_nat: "n \<le> max_uint64 \<Longrightarrow> ParseUint10 (show_nat n) = Inr n"
  by (simp add: ParseUint10_def parse_digits_show_nat)

lemma ParseInt0_show_nat:
  assumes "n < 2 ^ 63"
  shows "ParseInt0 (show_nat n) = Inr (int n)"
proof -
  have n: "n \<le> max_uint64" using assms by (simp add: max_uint64_def)
  have dig: "is_digit (hd (show_nat n))" by (rule show_nat_digits [of _ n]) simp
  then have sign: "hd (show_nat n) \<noteq> CHR ''-''" "hd (show_nat n) \<noteq> CHR ''+''"
    by (metis special_not_digit(2)) (metis dig special_not_digit(3))
  have u: "ParseUint0 (show_nat n) = Inr n"
  proof (cases "n = 0")
    case True
    have "show_nat 0 = ''0''" by (simp add: show_nat.simps [of 0])
    then show ?thesis by (simp add: True ParseUint0_def base_prefix_def base_letter_def)
  next
    case False
    then have "base_prefix (show_nat n) = (10, show_nat n)"
      using hd_show_nat [of n] by (simp add: base_prefix_def)
    then show ?thesis by (simp add: ParseUint0_def parse_digits_show_nat [OF n])
  qed
  show ?thesis using assms by (simp add: ParseInt0_def sign u)
qed

text \<open>
  A leading zero selects base 8, so the digits 8 and 9 after it are a syntax error.
\<close>

lemma ParseInt0_octal_digit:
  assumes "d = 8 \<or> d = 9"
  shows "ParseInt0 (CHR ''0'' # show_nat d) = Inl ErrSyntax"
  using assms
  by (auto simp: ParseInt0_def ParseUint0_def base_prefix_def base_letter_def show_nat_small
      digit_value_def is_digit_def byte_def lower_char_def)

end
