(* ===== verification/GoErrors.thy ===== *)
theory GoErrors
  imports Prelude
begin

text \<open>
  Error values. The first part models package \<^verbatim>\<open>errors\<close> of k8s.io/apimachinery, which is
  under src/vendor: \<^verbatim>\<open>NewAggregate\<close> and the \<^verbatim>\<open>Error()\<close> text of an aggregate. The
  second part is pkg/check/errors.go: \<^verbatim>\<open>JoinErrors\<close>, \<^verbatim>\<open>join\<close> and
  \<^verbatim>\<open>joinWithSeparator\<close>, with which every check reports its problems.

  A Go \<^verbatim>\<open>error\<close> result is \<open>go_error option\<close>: \<open>None\<close> is \<^verbatim>\<open>nil\<close>. An error made by
  \<^verbatim>\<open>errors.New\<close>, \<^verbatim>\<open>errors.Errorf\<close> or \<^verbatim>\<open>fmt.Errorf\<close> is its text. Errors the code tells
  apart by identity or by type have constructors of their own: the sentinel
  \<^verbatim>\<open>cache.ErrDatastoreNotFound\<close>, govmomi's \<^verbatim>\<open>find.NotFoundError\<close> and its FileNotFound fault.
\<close>

datatype go_error =
    Errorf string
  | ErrDatastoreNotFound
  | NotFoundError string
  | FileNotFoundFault string
  | Aggregate "go_error list"

section \<open>Aggregates\<close>

fun leaf_text :: "go_error \<Rightarrow> string" where
  "leaf_text (Errorf s) = s"
| "leaf_text ErrDatastoreNotFound = ''datastore not found''"
| "leaf_text (NotFoundError s) = s"
| "leaf_text (FileNotFoundFault s) = s"
| "leaf_text (Aggregate es) = []"

text \<open>\<^verbatim>\<open>visit\<close>: the leaves of nested aggregates, in order.\<close>

fun visit :: "go_error \<Rightarrow> go_error list" where
  "visit (Aggregate es) = concat (map visit es)"
| "visit e = [e]"

text \<open>The texts in order of first appearance, as \<^verbatim>\<open>seenerrs\<close> filters them.\<close>

definition seen_once :: "string list \<Rightarrow> string list" where
  "seen_once msgs = rev (remdups (rev msgs))"

text \<open>
  \<^verbatim>\<open>Error()\<close>. An aggregate of one error is that error's text; of several, the distinct
  texts between brackets, unless one text is left.
\<close>

fun error_text :: "go_error \<Rightarrow> string" where
  "error_text (Aggregate []) = []"
| "error_text (Aggregate [e]) = error_text e"
| "error_text (Aggregate (e # e' # es)) =
     (let msgs = seen_once (map leaf_text (visit (Aggregate (e # e' # es))))
      in if length msgs = 1 then join_strings '', '' msgs
         else ''['' @ join_strings '', '' msgs @ '']'')"
| "error_text e = leaf_text e"

definition new_aggregate :: "go_error option list \<Rightarrow> go_error option" where
  "new_aggregate errlist =
     (if length errlist = 0 then None
      else let errs = map the (filter (\<lambda>e. e \<noteq> None) errlist)
           in if length errs = 0 then None else Some (Aggregate errs))"

lemma new_aggregate_None: "new_aggregate errlist = None \<longleftrightarrow> (\<forall>e \<in> set errlist. e = None)"
  by (auto simp: new_aggregate_def Let_def filter_empty_conv)

lemma new_aggregate_Some [simp]:
  "new_aggregate (map Some errs) = (if errs = [] then None else Some (Aggregate errs))"
  by (simp add: new_aggregate_def filter_map comp_def)

lemma set_seen_once [simp]: "set (seen_once msgs) = set msgs"
  by (simp add: seen_once_def)

lemma distinct_seen_once [simp]: "distinct (seen_once msgs)"
  by (simp add: seen_once_def)

lemma sublist_if_bracketed: "sublist s (if c then s else ''['' @ s @ '']'')"
  by (cases c) (simp_all only: if_True if_False sublist_appendI sublist_order.order_refl)

text \<open>No leaf's text is lost from an aggregate's text.\<close>

lemma aggregate_text_covers:
  assumes "l \<in> set (visit (Aggregate es))" "2 \<le> length es"
  shows "sublist (leaf_text l) (error_text (Aggregate es))"
proof -
  obtain e e' rest where es: "es = e # e' # rest"
    using assms(2) by (metis Suc_le_length_iff numeral_2_eq_2)
  let ?msgs = "seen_once (map leaf_text (visit (Aggregate es)))"
  have "leaf_text l \<in> set ?msgs" using assms(1) by simp
  then have "sublist (leaf_text l) (join_strings '', '' ?msgs)"
    by (rule join_strings_member_sublist)
  moreover have "sublist (join_strings '', '' ?msgs) (error_text (Aggregate es))"
    unfolding es error_text.simps(3) Let_def by (rule sublist_if_bracketed)
  ultimately show ?thesis by (rule sublist_order.order.trans)
qed

section \<open>pkg/check/errors.go\<close>

definition line_separator :: string where
  "line_separator = [CHR '';'', CHR 0x0A]"

definition joinWithSeparator :: "go_error list \<Rightarrow> string \<Rightarrow> go_error" where
  "joinWithSeparator errs separator = Errorf (join_strings separator (map error_text errs))"

definition join :: "go_error list \<Rightarrow> go_error" where
  "join errs = Errorf (join_strings line_separator (map error_text errs))"

definition JoinErrors :: "go_error list \<Rightarrow> go_error option" where
  "JoinErrors errs =
     (if length errs = 0 then None
      else if length errs < 5 then Some (join errs)
      else Some (Errorf (show_nat (length errs) @ '' errors found, listing first 5:'' @ [CHR 0x0A]
                         @ error_text (join (take 4 errs)))))"

lemma JoinErrors_None [simp]: "JoinErrors errs = None \<longleftrightarrow> errs = []"
  by (simp add: JoinErrors_def)

lemma join_text_covers: "e \<in> set errs \<Longrightarrow> sublist (error_text e) (error_text (join errs))"
  by (simp add: join_def join_strings_member_sublist)

lemma joinWithSeparator_text_covers:
  "e \<in> set errs \<Longrightarrow> sublist (error_text e) (error_text (joinWithSeparator errs sep))"
  by (simp add: joinWithSeparator_def join_strings_member_sublist)

lemma JoinErrors_small_covers:
  assumes "e \<in> set errs" "length errs < 5"
  shows "\<exists>r. JoinErrors errs = Some r \<and> sublist (error_text e) (error_text r)"
  using assms by (auto simp: JoinErrors_def join_text_covers)

lemma JoinErrors_first_four:
  assumes "i < 4" "i < length errs"
  shows "\<exists>r. JoinErrors errs = Some r \<and> sublist (error_text (errs ! i)) (error_text r)"
proof (cases "length errs < 5")
  case True
  with assms show ?thesis by (auto simp: JoinErrors_def join_text_covers)
next
  case False
  have "errs ! i \<in> set (take 4 errs)"
    using assms by (auto simp: in_set_conv_nth intro!: exI [of _ i])
  then have "sublist (error_text (errs ! i)) (error_text (join (take 4 errs)))"
    by (rule join_text_covers)
  moreover have "sublist (error_text (join (take 4 errs)))
      ((show_nat (length errs) @ '' errors found, listing first 5:'' @ [CHR 0x0A])
       @ error_text (join (take 4 errs)))"
    by (rule sublist_append_leftI)
  ultimately have "sublist (error_text (errs ! i))
      ((show_nat (length errs) @ '' errors found, listing first 5:'' @ [CHR 0x0A])
       @ error_text (join (take 4 errs)))"
    by (rule sublist_order.order.trans)
  with False assms(2) show ?thesis by (auto simp: JoinErrors_def)
qed

text \<open>
  From five errors on the report says \<open>listing first 5\<close>, but its body ends with the fourth:
  the text depends on the number of errors and on the first four of them only.
\<close>

lemma JoinErrors_fifth_dropped:
  assumes "length first = 4" "rest \<noteq> []" "length rest = length rest'"
  shows "JoinErrors (first @ rest) = JoinErrors (first @ rest')"
  using assms by (cases rest; cases rest') (auto simp: JoinErrors_def)

section \<open>Properties\<close>

text \<open>
  \<^verbatim>\<open>JoinErrors\<close> reports an error exactly when there is one, and the text of each of the
  first four errors is part of its report.
\<close>

theorem JoinErrors_reports:
  "(JoinErrors errs = None \<longleftrightarrow> errs = []) \<and>
   (\<forall>e \<in> set (take 4 errs). \<exists>r. JoinErrors errs = Some r \<and> sublist (error_text e) (error_text r))"
proof (intro conjI ballI)
  show "JoinErrors errs = None \<longleftrightarrow> errs = []" by simp
next
  fix e assume "e \<in> set (take 4 errs)"
  then obtain i where "i < 4" "i < length errs" "e = errs ! i"
    by (auto simp: in_set_conv_nth)
  then show "\<exists>r. JoinErrors errs = Some r \<and> sublist (error_text e) (error_text r)"
    using JoinErrors_first_four [of i errs] by simp
qed

theorem JoinErrors_reports_witness:
  "\<exists>r. JoinErrors [Errorf ''a'', Errorf ''b''] = Some r \<and> sublist ''b'' (error_text r)"
  using JoinErrors_reports [of "[Errorf ''a'', Errorf ''b'']"] by (simp add: numeral_eq_Suc)

text \<open>
  From five errors on, \<^verbatim>\<open>JoinErrors\<close> announces the first five but reports four: two lists
  of the same length that agree on the first four errors get the same report, whatever the
  fifth error is.
\<close>

theorem JoinErrors_drops_fifth:
  assumes "length first = 4"
  shows "JoinErrors (first @ fifth # rest) = JoinErrors (first @ fifth' # rest)
    \<and> (\<exists>n body. JoinErrors (first @ fifth # rest)
         = Some (Errorf (n @ '' errors found, listing first 5:'' @ body)))"
  using assms JoinErrors_fifth_dropped [OF assms, of "fifth # rest" "fifth' # rest"]
  by (auto simp: JoinErrors_def)

theorem JoinErrors_drops_fifth_witness:
  "JoinErrors (map Errorf [''a'', ''b'', ''c'', ''d'', ''fifth''])
   = JoinErrors (map Errorf [''a'', ''b'', ''c'', ''d'', ''other''])"
  using JoinErrors_drops_fifth [of "map Errorf [''a'', ''b'', ''c'', ''d'']" "Errorf ''fifth''" "[]" "Errorf ''other''"]
  by simp

end
