(* ===== verification/Semver.thy ===== *)
theory Semver
  imports StrConv GoErrors "HOL-Library.Char_ord" "HOL-Library.List_Lexorder"
begin

text \<open>
  The version library the controller compares versions with: github.com/blang/semver, under
  src/vendor. \<^verbatim>\<open>Parse\<close>, \<^verbatim>\<open>ParseTolerant\<close>, \<^verbatim>\<open>NewPRVersion\<close> and the two
  \<^verbatim>\<open>Compare\<close> methods are translated branch by branch. The lemmas show that a dotted numeral
  parses to its numbers, and that \<^verbatim>\<open>Compare\<close> is a total order on precedence: the locale
  \<open>comparator\<close> states what a three-way comparison promises, and it is interpreted for the
  prerelease and for the whole version.
\<close>

record PRVersion =
  VersionStr :: string
  VersionNum :: nat
  IsNum :: bool

record semver =
  Major :: nat
  Minor :: nat
  Patch :: nat
  Pre :: "PRVersion list"
  Build :: "string list"

definition numbers :: string where "numbers = ''0123456789''"

definition alphanum :: string where
  "alphanum = ''abcdefghijklmnopqrstuvwxyzABCDEFGHIJKLMNOPQRSTUVWXYZ-'' @ numbers"

definition containsOnly :: "string \<Rightarrow> string \<Rightarrow> bool" where
  "containsOnly s cs \<longleftrightarrow> list_all (\<lambda>c. c \<in> set cs) s"

definition hasLeadingZeroes :: "string \<Rightarrow> bool" where
  "hasLeadingZeroes s \<longleftrightarrow> length s > 1 \<and> s ! 0 = CHR ''0''"

definition num_error_text :: "string \<Rightarrow> num_error \<Rightarrow> go_error" where
  "num_error_text s e = Errorf (''strconv.ParseUint: parsing '' @ quote s @
     (case e of ErrSyntax \<Rightarrow> '': invalid syntax'' | ErrRange \<Rightarrow> '': value out of range''))"

text \<open>One of the three numbers: the checks \<^verbatim>\<open>Parse\<close> makes of each part, in its order.\<close>

definition parse_number :: "string \<Rightarrow> string \<Rightarrow> string \<Rightarrow> go_error + nat" where
  "parse_number low cap s =
     (if \<not> containsOnly s numbers
      then Inl (Errorf (''Invalid character(s) found in '' @ low @ '' number '' @ quote s))
      else if hasLeadingZeroes s
      then Inl (Errorf (cap @ '' number must not contain leading zeroes '' @ quote s))
      else case ParseUint10 s of Inl e \<Rightarrow> Inl (num_error_text s e) | Inr n \<Rightarrow> Inr n)"

definition NewPRVersion :: "string \<Rightarrow> go_error + PRVersion" where
  "NewPRVersion s =
     (if length s = 0 then Inl (Errorf ''Prerelease is empty'')
      else if containsOnly s numbers then
        (if hasLeadingZeroes s
         then Inl (Errorf (''Numeric PreRelease version must not contain leading zeroes '' @ quote s))
         else case ParseUint10 s of
             Inl e \<Rightarrow> Inl (num_error_text s e)
           | Inr num \<Rightarrow> Inr \<lparr>VersionStr = [], VersionNum = num, IsNum = True\<rparr>)
      else if containsOnly s alphanum
      then Inr \<lparr>VersionStr = s, VersionNum = 0, IsNum = False\<rparr>
      else Inl (Errorf (''Invalid character(s) found in prerelease '' @ quote s)))"

fun parse_prerelease :: "string list \<Rightarrow> go_error + PRVersion list" where
  "parse_prerelease [] = Inr []"
| "parse_prerelease (s # ss) =
     (case NewPRVersion s of
        Inl e \<Rightarrow> Inl e
      | Inr p \<Rightarrow> (case parse_prerelease ss of Inl e \<Rightarrow> Inl e | Inr ps \<Rightarrow> Inr (p # ps)))"

fun parse_build :: "string list \<Rightarrow> go_error + string list" where
  "parse_build [] = Inr []"
| "parse_build (s # ss) =
     (if length s = 0 then Inl (Errorf ''Build meta data is empty'')
      else if \<not> containsOnly s alphanum
      then Inl (Errorf (''Invalid character(s) found in build meta data '' @ quote s))
      else case parse_build ss of Inl e \<Rightarrow> Inl e | Inr bs \<Rightarrow> Inr (s # bs))"

text \<open>\<^verbatim>\<open>IndexRune\<close> and the two slices around the index: \<open>None\<close> when the byte is absent.\<close>

definition cut_at :: "char \<Rightarrow> string \<Rightarrow> (string \<times> string) option" where
  "cut_at c s = (if c \<in> set s
     then Some (takeWhile (\<lambda>x. x \<noteq> c) s, tl (dropWhile (\<lambda>x. x \<noteq> c) s)) else None)"

definition Parse :: "string \<Rightarrow> go_error + semver" where
  "Parse s =
     (if length s = 0 then Inl (Errorf ''Version string empty'')
      else case split_n CHR ''.'' 3 s of
        [part0, part1, part2] \<Rightarrow>
          (case parse_number ''major'' ''Major'' part0 of
             Inl e \<Rightarrow> Inl e
           | Inr major \<Rightarrow>
          (case parse_number ''minor'' ''Minor'' part1 of
             Inl e \<Rightarrow> Inl e
           | Inr minor \<Rightarrow>
             let (patchStr, build) = (case cut_at CHR ''+'' part2 of
                   None \<Rightarrow> (part2, []) | Some (p, b) \<Rightarrow> (p, split_on CHR ''.'' b));
                 (patchStr, prerelease) = (case cut_at CHR ''-'' patchStr of
                   None \<Rightarrow> (patchStr, []) | Some (p, r) \<Rightarrow> (p, split_on CHR ''.'' r))
             in case parse_number ''patch'' ''Patch'' patchStr of
               Inl e \<Rightarrow> Inl e
             | Inr patch \<Rightarrow>
               (case parse_prerelease prerelease of
                  Inl e \<Rightarrow> Inl e
                | Inr pre \<Rightarrow>
               (case parse_build build of
                  Inl e \<Rightarrow> Inl e
                | Inr bld \<Rightarrow>
                    Inr \<lparr>Major = major, Minor = minor, Patch = patch, Pre = pre, Build = bld\<rparr>))))
      | _ \<Rightarrow> Inl (Errorf ''No Major.Minor.Patch elements found''))"

definition ParseTolerant :: "string \<Rightarrow> go_error + semver" where
  "ParseTolerant s0 =
     (let s = trim_prefix ''v'' (trim_space s0);
          parts = split_n CHR ''.'' 3 s
      in if length parts < 3 then
           (if contains_any (last parts) ''+-''
            then Inl (Errorf ''Short version cannot contain PreRelease/Build meta data'')
            else Parse (join_strings ''.'' (parts @ replicate (3 - length parts) ''0'')))
         else Parse s)"

section \<open>Comparison\<close>

definition PR_Compare :: "PRVersion \<Rightarrow> PRVersion \<Rightarrow> int" where
  "PR_Compare v o' =
     (if IsNum v \<and> \<not> IsNum o' then - 1
      else if \<not> IsNum v \<and> IsNum o' then 1
      else if IsNum v \<and> IsNum o' then
        (if VersionNum v = VersionNum o' then 0 else if VersionNum v > VersionNum o' then 1 else - 1)
      else
        (if VersionStr v = VersionStr o' then 0 else if VersionStr v > VersionStr o' then 1 else - 1))"

text \<open>The loop over the two prerelease slices and the length test behind it.\<close>

fun compare_pre :: "PRVersion list \<Rightarrow> PRVersion list \<Rightarrow> int" where
  "compare_pre [] [] = 0"
| "compare_pre [] (_ # _) = - 1"
| "compare_pre (_ # _) [] = 1"
| "compare_pre (x # xs) (y # ys) =
     (let comp = PR_Compare x y in
      if comp = 0 then compare_pre xs ys else if comp = 1 then 1 else - 1)"

definition Compare :: "semver \<Rightarrow> semver \<Rightarrow> int" where
  "Compare v o' =
     (if Major v \<noteq> Major o' then (if Major v > Major o' then 1 else - 1)
      else if Minor v \<noteq> Minor o' then (if Minor v > Minor o' then 1 else - 1)
      else if Patch v \<noteq> Patch o' then (if Patch v > Patch o' then 1 else - 1)
      else if length (Pre v) = 0 \<and> length (Pre o') = 0 then 0
      else if length (Pre v) = 0 \<and> length (Pre o') > 0 then 1
      else if length (Pre v) > 0 \<and> length (Pre o') = 0 then - 1
      else compare_pre (Pre v) (Pre o'))"

text \<open>What a three-way comparison promises.\<close>

locale comparator =
  fixes cmp :: "'a \<Rightarrow> 'a \<Rightarrow> int"
  assumes cmp_range: "cmp x y \<in> {- 1, 0, 1}"
    and cmp_swap: "cmp y x = - cmp x y"
    and cmp_trans: "0 \<le> cmp x y \<Longrightarrow> 0 \<le> cmp y z \<Longrightarrow> 0 \<le> cmp x z"
begin

lemma cmp_refl: "cmp x x = 0"
  using cmp_swap [of x x] by simp

lemma cmp_total: "0 \<le> cmp x y \<or> 0 \<le> cmp y x"
  using cmp_swap [of x y] by linarith

lemma cmp_eq_trans: "cmp x y = 0 \<Longrightarrow> cmp y z = 0 \<Longrightarrow> cmp x z = 0"
  using cmp_trans [of x y z] cmp_trans [of z y x] cmp_swap [of x y] cmp_swap [of y z] cmp_swap [of x z]
  by linarith

lemma cmp_gt_trans: "cmp x y = 1 \<Longrightarrow> 0 \<le> cmp y z \<Longrightarrow> cmp x z = 1"
proof -
  assume xy: "cmp x y = 1" and yz: "0 \<le> cmp y z"
  have "0 \<le> cmp x z" using cmp_trans [of x y z] xy yz by simp
  moreover have "cmp x z \<noteq> 0"
  proof
    assume "cmp x z = 0"
    then have "0 \<le> cmp z x" using cmp_swap [of x z] by simp
    then have "0 \<le> cmp y x" using cmp_trans [of y z x] yz by simp
    then show False using cmp_swap [of x y] xy by simp
  qed
  ultimately show ?thesis using cmp_range [of x z] by auto
qed

lemma cmp_ge_gt_trans: "0 \<le> cmp x y \<Longrightarrow> cmp y z = 1 \<Longrightarrow> cmp x z = 1"
proof -
  assume xy: "0 \<le> cmp x y" and yz: "cmp y z = 1"
  have "0 \<le> cmp x z" using cmp_trans [of x y z] xy yz by simp
  moreover have "cmp x z \<noteq> 0"
  proof
    assume "cmp x z = 0"
    then have "0 \<le> cmp z x" using cmp_swap [of x z] by simp
    then have "0 \<le> cmp z y" using cmp_trans [of z x y] xy by simp
    then show False using cmp_swap [of y z] yz by simp
  qed
  ultimately show ?thesis using cmp_range [of x z] by auto
qed

end

interpretation pr: comparator PR_Compare
proof (unfold_locales, goal_cases)
  case (1 x y)
  show ?case by (simp add: PR_Compare_def)
next
  case (2 y x)
  show ?case by (auto simp: PR_Compare_def)
next
  case (3 x y z)
  then show ?case by (auto simp: PR_Compare_def split: if_splits)
qed

lemma compare_pre_range: "compare_pre xs ys \<in> {- 1, 0, 1}"
  by (induction xs ys rule: compare_pre.induct) (simp_all add: Let_def)

lemma compare_pre_swap: "compare_pre ys xs = - compare_pre xs ys"
proof (induction xs ys rule: compare_pre.induct)
  case (4 x xs y ys)
  then show ?case using pr.cmp_swap [of x y] pr.cmp_range [of x y] by (auto simp: Let_def)
qed auto

lemma compare_pre_trans:
  "0 \<le> compare_pre xs ys \<Longrightarrow> 0 \<le> compare_pre ys zs \<Longrightarrow> 0 \<le> compare_pre xs zs"
proof (induction xs ys arbitrary: zs rule: compare_pre.induct)
  case (4 x xs y ys)
  show ?case
  proof (cases zs)
    case Nil
    then show ?thesis by simp
  next
    case (Cons z zs')
    consider "PR_Compare x y = 1" "0 \<le> PR_Compare y z"
      | "0 \<le> PR_Compare x y" "PR_Compare y z = 1"
      | "PR_Compare x y = 0" "PR_Compare y z = 0"
      using "4.prems" Cons pr.cmp_range [of x y] pr.cmp_range [of y z]
      by (auto simp: Let_def split: if_splits)
    then show ?thesis
    proof cases
      case 1
      then have "PR_Compare x z = 1" by (rule pr.cmp_gt_trans)
      then show ?thesis by (simp add: Cons)
    next
      case 2
      then have "PR_Compare x z = 1" by (rule pr.cmp_ge_gt_trans)
      then show ?thesis by (simp add: Cons)
    next
      case 3
      then have "PR_Compare x z = 0" by (rule pr.cmp_eq_trans)
      then show ?thesis using 3 "4.IH" [of _ zs'] "4.prems" by (simp add: Cons)
    qed
  qed
next
  case (2 v va)
  then show ?case by simp
next
  case (3 v va)
  then show ?case by (cases zs) auto
qed auto

text \<open>
  The whole comparison is lexicographic in the numbers, with the prerelease last and the
  empty prerelease above all others.
\<close>

definition cmp_nat :: "nat \<Rightarrow> nat \<Rightarrow> int" where
  "cmp_nat m n = (if m = n then 0 else if m > n then 1 else - 1)"

definition cmp_pre :: "PRVersion list \<Rightarrow> PRVersion list \<Rightarrow> int" where
  "cmp_pre xs ys = (if xs = [] then (if ys = [] then 0 else 1)
     else if ys = [] then - 1 else compare_pre xs ys)"

lemma Compare_lex:
  "Compare v w =
    (if cmp_nat (Major v) (Major w) \<noteq> 0 then cmp_nat (Major v) (Major w)
     else if cmp_nat (Minor v) (Minor w) \<noteq> 0 then cmp_nat (Minor v) (Minor w)
     else if cmp_nat (Patch v) (Patch w) \<noteq> 0 then cmp_nat (Patch v) (Patch w)
     else cmp_pre (Pre v) (Pre w))"
  by (auto simp: Compare_def cmp_nat_def cmp_pre_def)

lemma cmp_pre_swap: "cmp_pre ys xs = - cmp_pre xs ys"
  by (auto simp: cmp_pre_def compare_pre_swap [of xs ys])

lemma cmp_pre_trans: "0 \<le> cmp_pre xs ys \<Longrightarrow> 0 \<le> cmp_pre ys zs \<Longrightarrow> 0 \<le> cmp_pre xs zs"
  using compare_pre_trans [of xs ys zs] by (auto simp: cmp_pre_def split: if_splits)

lemma cmp_nat_swap: "cmp_nat n m = - cmp_nat m n"
  by (auto simp: cmp_nat_def)

interpretation version: comparator Compare
proof (unfold_locales, goal_cases)
  case (1 x y)
  show ?case
    using compare_pre_range [of "Pre x" "Pre y"] by (auto simp: Compare_lex cmp_nat_def cmp_pre_def)
next
  case (2 y x)
  show ?case by (simp add: Compare_lex cmp_nat_swap [of "Major y"] cmp_nat_swap [of "Minor y"]
        cmp_nat_swap [of "Patch y"] cmp_pre_swap [of "Pre y"])
next
  case (3 x y z)
  then show ?case
    using cmp_pre_trans [of "Pre x" "Pre y" "Pre z"]
    by (auto simp: Compare_lex cmp_nat_def split: if_splits)
qed

text \<open>
  Versions as a preorder of the library: \<open>v \<le> w\<close> when \<^verbatim>\<open>w.Compare(v) >= 0\<close>. It is no order,
  because versions that differ in their build metadata only are equivalent.
\<close>

instantiation semver_ext :: (type) preorder
begin

definition less_eq_semver_ext :: "'a semver_scheme \<Rightarrow> 'a semver_scheme \<Rightarrow> bool" where
  "v \<le> w \<longleftrightarrow> 0 \<le> Compare (semver.truncate w) (semver.truncate v)"

definition less_semver_ext :: "'a semver_scheme \<Rightarrow> 'a semver_scheme \<Rightarrow> bool" where
  "v < w \<longleftrightarrow> 0 < Compare (semver.truncate w) (semver.truncate v)"

instance
proof
  fix u v w :: "'a semver_scheme"
  let ?u = "semver.truncate u" and ?v = "semver.truncate v" and ?w = "semver.truncate w"
  show "v < w \<longleftrightarrow> v \<le> w \<and> \<not> w \<le> v"
    using version.cmp_swap [of ?v ?w] by (auto simp: less_eq_semver_ext_def less_semver_ext_def)
  show "v \<le> v" by (simp add: less_eq_semver_ext_def version.cmp_refl)
  show "u \<le> w" if "u \<le> v" "v \<le> w"
    using that version.cmp_trans [of ?w ?v ?u] by (simp add: less_eq_semver_ext_def)
qed

end

lemma Compare_le: "0 \<le> Compare w v \<longleftrightarrow> v \<le> (w :: semver)"
proof -
  have "semver.truncate x = x" for x :: semver
    by (rule semver.equality) (simp_all add: semver.truncate_def)
  then show ?thesis by (simp add: less_eq_semver_ext_def)
qed

lemma Compare_release:
  assumes "Pre v = []" "Pre w = []"
  shows "0 \<le> Compare v w \<longleftrightarrow>
    Major w < Major v \<or> Major w = Major v \<and>
      (Minor w < Minor v \<or> Minor w = Minor v \<and> Patch w \<le> Patch v)"
  using assms by (auto simp: Compare_def)

section \<open>Parsing dotted numerals\<close>

lemma set_numbers: "c \<in> set numbers \<longleftrightarrow> is_digit c"
proof
  assume "is_digit c"
  then obtain d where "byte c = 48 + d" "d < 10"
    using le_Suc_ex by (fastforce simp: is_digit_def)
  then have "c = digit_char d" by (metis byte_digit_char byte_def of_char_eq_iff)
  moreover have "d \<in> {0, 1, 2, 3, 4, 5, 6, 7, 8, 9}" using \<open>d < 10\<close> by auto
  ultimately show "c \<in> set numbers" by (auto simp: numbers_def)
qed (auto simp: numbers_def is_digit_def byte_def)

lemma containsOnly_show_nat [simp]: "containsOnly (show_nat n) numbers"
  using show_nat_digits by (auto simp: containsOnly_def list_all_iff set_numbers)

lemma hasLeadingZeroes_show_nat [simp]: "\<not> hasLeadingZeroes (show_nat n)"
proof (cases "n = 0")
  case True
  then show ?thesis by (simp add: hasLeadingZeroes_def go_simps)
next
  case False
  then show ?thesis using hd_show_nat [of n] by (simp add: hasLeadingZeroes_def hd_conv_nth)
qed

lemma parse_number_show_nat [simp]:
  "n \<le> max_uint64 \<Longrightarrow> parse_number low cap (show_nat n) = Inr n"
  by (simp add: parse_number_def ParseUint10_show_nat)

lemma show_nat_no_special [simp]:
  "CHR ''.'' \<notin> set (show_nat n)" "CHR ''+'' \<notin> set (show_nat n)" "CHR ''-'' \<notin> set (show_nat n)"
  using show_nat_digits special_not_digit by blast+

definition release :: "nat \<Rightarrow> nat \<Rightarrow> nat \<Rightarrow> semver" where
  "release a b c = \<lparr>Major = a, Minor = b, Patch = c, Pre = [], Build = []\<rparr>"

definition dotted :: "nat \<Rightarrow> nat \<Rightarrow> nat \<Rightarrow> string" where
  "dotted a b c = show_nat a @ ''.'' @ show_nat b @ ''.'' @ show_nat c"

lemma split_dotted: "split_n CHR ''.'' 3 (dotted a b c) = [show_nat a, show_nat b, show_nat c]"
  using split_n_append [of "CHR ''.''" "show_nat a" 1 "show_nat b @ ''.'' @ show_nat c"]
    split_n_append [of "CHR ''.''" "show_nat b" 0 "show_nat c"]
  by (simp add: dotted_def numeral_3_eq_3)

lemma Parse_dotted:
  assumes "a \<le> max_uint64" "b \<le> max_uint64" "c \<le> max_uint64"
  shows "Parse (dotted a b c) = Inr (release a b c)"
proof -
  have "dotted a b c \<noteq> []" by (simp add: dotted_def)
  with assms show ?thesis
    by (simp add: Parse_def split_dotted cut_at_def release_def)
qed

lemma hd_dotted: "is_digit (hd (dotted a b c))"
  using show_nat_digits [of "hd (show_nat a)" a] by (simp add: dotted_def)

lemma last_dotted: "is_digit (last (dotted a b c))"
  using show_nat_digits [of "last (show_nat c)" c] by (simp add: dotted_def)

lemma digit_not_white: "is_digit c \<Longrightarrow> c \<notin> set white_space"
  by (auto simp: white_space_def is_digit_def byte_def)

lemma trim_digits:
  assumes "s \<noteq> []" "is_digit (hd s)" "is_digit (last s)"
  shows "trim_prefix ''v'' (trim_space s) = s"
proof -
  have "hd s \<noteq> CHR ''v''" using assms(2) special_not_digit(5) by metis
  then have "\<not> prefix ''v'' s" using assms(1) by (cases s) auto
  then show ?thesis
    using assms by (simp add: trim_space_fixed digit_not_white trim_prefix_other)
qed

lemma ParseTolerant_dotted:
  assumes "a \<le> max_uint64" "b \<le> max_uint64" "c \<le> max_uint64"
  shows "ParseTolerant (dotted a b c) = Inr (release a b c)"
proof -
  have "trim_prefix ''v'' (trim_space (dotted a b c)) = dotted a b c"
    by (rule trim_digits) (simp_all add: hd_dotted last_dotted, simp add: dotted_def)
  then show ?thesis by (simp add: ParseTolerant_def split_dotted Parse_dotted [OF assms])
qed

lemma ParseTolerant_short:
  assumes "a \<le> max_uint64" "b \<le> max_uint64"
  shows "ParseTolerant (show_nat a @ ''.'' @ show_nat b) = Inr (release a b 0)"
proof -
  let ?s = "show_nat a @ ''.'' @ show_nat b"
  have "trim_prefix ''v'' (trim_space ?s) = ?s"
    by (rule trim_digits) (simp_all add: show_nat_digits [of _ a] show_nat_digits [of _ b])
  moreover have "split_n CHR ''.'' 3 ?s = [show_nat a, show_nat b]"
    using split_n_append [of "CHR ''.''" "show_nat a" 1 "show_nat b"]
      split_n_single [of "CHR ''.''" "show_nat b" 1]
    by (simp add: numeral_3_eq_3)
  moreover have "\<not> contains_any (show_nat b) ''+-''"
    by (auto simp: contains_any_def list_ex_iff)
  moreover have "join_strings ''.'' [show_nat a, show_nat b, ''0''] = dotted a b 0"
    by (simp add: dotted_def go_simps)
  ultimately show ?thesis
    using Parse_dotted [of a b 0] assms by (simp add: ParseTolerant_def)
qed

section \<open>Properties\<close>

text \<open>
  \<^verbatim>\<open>Compare\<close> is a total preorder on versions: its value is -1, 0 or 1, swapping the
  arguments negates it, and "not less than" is transitive. Two versions compare equal exactly
  when their numbers and their prereleases do; build metadata has no influence.
\<close>

theorem version_compare_total_preorder:
  "Compare x y \<in> {- 1, 0, 1} \<and> Compare y x = - Compare x y \<and>
   (0 \<le> Compare x y \<and> 0 \<le> Compare y z \<longrightarrow> 0 \<le> Compare x z) \<and>
   Compare (x\<lparr>Build := b\<rparr>) y = Compare x y"
  using version.cmp_range [of x y] version.cmp_swap [of y x] version.cmp_trans [of x y z]
  by (simp add: Compare_def)

theorem version_compare_total_preorder_witness:
  "0 \<le> Compare (release 7 0 3) (release 6 7 3)"
  using version_compare_total_preorder [of "release 7 0 3" "release 7 0 0" "release 6 7 3" "[]"]
  by (simp add: Compare_def release_def)

end
