(* ===== verification/ClusterInfo.thy ===== *)
theory ClusterInfo
  imports Prelude
begin

text \<open>
  \<^verbatim>\<open>ClusterInfo\<close> of pkg/util/cluster_info.go: what one round of checks learns about the
  cluster (ESXi hosts and their versions, hardware versions and CBT settings of the VMs, the
  vCenters and their versions). Every method takes the lock for its whole body, so each is one
  atomic operation on the record. The getters return copies, which in HOL is the value itself.
\<close>

record ESXiVersionInfo =
  Version :: string
  APIVersion :: string

record cluster_info =
  esxiVersions :: "string \<rightharpoonup> ESXiVersionInfo"
  hwVersions :: "string \<rightharpoonup> nat"
  cbtEnabled :: "string \<rightharpoonup> nat"
  vcenterHostnames :: "string list"
  vcenterVersion :: "string \<rightharpoonup> string"
  vcenterAPIVersion :: "string \<rightharpoonup> string"

definition NewClusterInfo :: cluster_info where
  "NewClusterInfo = \<lparr>esxiVersions = Map.empty, hwVersions = Map.empty, cbtEnabled = Map.empty,
     vcenterHostnames = [], vcenterVersion = Map.empty, vcenterAPIVersion = Map.empty\<rparr>"

text \<open>A missing key of a Go map of strings reads as the empty string.\<close>

definition str_at :: "(string \<rightharpoonup> string) \<Rightarrow> string \<Rightarrow> string" where
  "str_at d k = (case d k of None \<Rightarrow> [] | Some v \<Rightarrow> v)"

definition MakeClusterInfo :: "(string \<rightharpoonup> string) \<Rightarrow> cluster_info" where
  "MakeClusterInfo d = NewClusterInfo\<lparr>
     esxiVersions := [str_at d ''host_name'' \<mapsto>
       \<lparr>Version = str_at d ''host_version'', APIVersion = str_at d ''host_api_version''\<rparr>],
     hwVersions := [str_at d ''hw_version'' \<mapsto> 1],
     vcenterAPIVersion := [str_at d ''host_name'' \<mapsto> str_at d ''vcenter_api_version''],
     vcenterVersion := [str_at d ''host_name'' \<mapsto> str_at d ''vcenter_version''],
     vcenterHostnames := [str_at d ''host_name'']\<rparr>"

definition SetHostVersion :: "string \<Rightarrow> string \<Rightarrow> string \<Rightarrow> cluster_info \<Rightarrow> cluster_info" where
  "SetHostVersion hostname version apiVersion c =
     c\<lparr>esxiVersions := (esxiVersions c)(hostname \<mapsto> \<lparr>Version = version, APIVersion = apiVersion\<rparr>)\<rparr>"

definition SetHardwareVersion :: "string \<Rightarrow> cluster_info \<Rightarrow> cluster_info" where
  "SetHardwareVersion version c = c\<lparr>hwVersions := map_incr (hwVersions c) version\<rparr>"

definition GetHardwareVersion :: "cluster_info \<Rightarrow> (string \<rightharpoonup> nat)" where
  "GetHardwareVersion c = hwVersions c"

definition SetVCenterVersion :: "string \<Rightarrow> string \<Rightarrow> string \<Rightarrow> cluster_info \<Rightarrow> cluster_info" where
  "SetVCenterVersion hostname version apiVersion c =
     (let c' = (if vcenterVersion c hostname = None
                then c\<lparr>vcenterHostnames := vcenterHostnames c @ [hostname]\<rparr> else c)
      in c'\<lparr>vcenterVersion := (vcenterVersion c')(hostname \<mapsto> version),
            vcenterAPIVersion := (vcenterAPIVersion c')(hostname \<mapsto> apiVersion)\<rparr>)"

definition GetHostVersions :: "cluster_info \<Rightarrow> (string \<rightharpoonup> ESXiVersionInfo)" where
  "GetHostVersions c = esxiVersions c"

definition GetVCenterHostnames :: "cluster_info \<Rightarrow> string list" where
  "GetVCenterHostnames c = vcenterHostnames c"

definition GetVCenterVersion :: "cluster_info \<Rightarrow> string \<Rightarrow> string \<times> string" where
  "GetVCenterVersion c hostname =
     (str_at (vcenterVersion c) hostname, str_at (vcenterAPIVersion c) hostname)"

text \<open>\<^verbatim>\<open>Reset\<close> leaves the CBT counters as they are.\<close>

definition Reset_info :: "cluster_info \<Rightarrow> cluster_info" where
  "Reset_info c = c\<lparr>esxiVersions := Map.empty, hwVersions := Map.empty,
     vcenterVersion := Map.empty, vcenterAPIVersion := Map.empty, vcenterHostnames := []\<rparr>"

definition MarkHostForProcessing ::
  "string \<Rightarrow> cluster_info \<Rightarrow> (string \<times> bool) \<times> cluster_info" where
  "MarkHostForProcessing hostname c =
     (let ver = (case esxiVersions c hostname of
                   None \<Rightarrow> \<lparr>Version = [], APIVersion = []\<rparr> | Some v \<Rightarrow> v);
          found = (esxiVersions c hostname \<noteq> None);
          esxiVersion = (if Version ver = [] then ''<in progress>'' else [])
      in if found then ((Version ver, True), c)
         else ((esxiVersion, False),
               c\<lparr>esxiVersions := (esxiVersions c)(hostname \<mapsto> \<lparr>Version = [], APIVersion = []\<rparr>)\<rparr>))"

definition SetCbtData :: "string \<Rightarrow> cluster_info \<Rightarrow> cluster_info" where
  "SetCbtData enabled c = c\<lparr>cbtEnabled := map_incr (cbtEnabled c) enabled\<rparr>"

definition GetCbtData :: "cluster_info \<Rightarrow> (string \<rightharpoonup> nat)" where
  "GetCbtData c = cbtEnabled c"

section \<open>The operations as one step function\<close>

datatype info_op =
    OpSetHost string string string
  | OpMarkHost string
  | OpSetHW string
  | OpSetVCenter string string string
  | OpSetCbt string
  | OpReset

fun info_step :: "info_op \<Rightarrow> cluster_info \<Rightarrow> cluster_info" where
  "info_step (OpSetHost h v a) c = SetHostVersion h v a c"
| "info_step (OpMarkHost h) c = snd (MarkHostForProcessing h c)"
| "info_step (OpSetHW v) c = SetHardwareVersion v c"
| "info_step (OpSetVCenter h v a) c = SetVCenterVersion h v a c"
| "info_step (OpSetCbt e) c = SetCbtData e c"
| "info_step OpReset c = Reset_info c"

definition info_run :: "info_op list \<Rightarrow> cluster_info \<Rightarrow> cluster_info" where
  "info_run ops c = fold info_step ops c"

lemma info_run_simps [simp]:
  "info_run [] c = c"
  "info_run (x # ops) c = info_run ops (info_step x c)"
  "info_run (ops @ ops') c = info_run ops' (info_run ops c)"
  by (simp_all add: info_run_def)

lemmas info_ops = SetHostVersion_def SetHardwareVersion_def SetVCenterVersion_def
  MarkHostForProcessing_def SetCbtData_def Reset_info_def Let_def

section \<open>Well-formedness\<close>

text \<open>
  The list of vCenter host names has no duplicates and holds exactly the keys of the two
  version maps, and every map is finite, so that ranging over it ends.
\<close>

definition wf_info :: "cluster_info \<Rightarrow> bool" where
  "wf_info c \<longleftrightarrow>
     distinct (vcenterHostnames c) \<and>
     set (vcenterHostnames c) = dom (vcenterVersion c) \<and>
     dom (vcenterAPIVersion c) = dom (vcenterVersion c) \<and>
     finite (dom (esxiVersions c)) \<and> finite (dom (hwVersions c)) \<and> finite (dom (cbtEnabled c))"

lemma wf_info_New [simp]: "wf_info NewClusterInfo"
  by (simp add: wf_info_def NewClusterInfo_def)

lemma wf_info_Make [simp]: "wf_info (MakeClusterInfo d)"
  by (simp add: wf_info_def MakeClusterInfo_def NewClusterInfo_def)

lemma wf_info_step: "wf_info c \<Longrightarrow> wf_info (info_step x c)"
  by (cases x) (auto simp: wf_info_def info_ops domIff split: if_splits option.splits)

lemma wf_info_run: "wf_info c \<Longrightarrow> wf_info (info_run ops c)"
  by (induction ops arbitrary: c) (auto simp: wf_info_step)

lemma wf_info_orders:
  assumes "wf_info c"
  shows "\<exists>ks. iteration_of (esxiVersions c) ks" "\<exists>ks. iteration_of (hwVersions c) ks"
    "\<exists>ks. iteration_of (cbtEnabled c) ks"
  using assms by (auto simp: wf_info_def intro: iteration_of_finite)

section \<open>Each ESXi host is claimed once\<close>

text \<open>
  The answers of the \<^verbatim>\<open>MarkHostForProcessing\<close> calls on one host in a run, oldest first:
  \<open>False\<close> is the answer that makes the caller load the host.
\<close>

fun mark_answers :: "string \<Rightarrow> info_op list \<Rightarrow> cluster_info \<Rightarrow> bool list" where
  "mark_answers h [] c = []"
| "mark_answers h (OpMarkHost h' # ops) c =
     (if h' = h then [snd (fst (MarkHostForProcessing h c))] else [])
     @ mark_answers h ops (info_step (OpMarkHost h') c)"
| "mark_answers h (x # ops) c = mark_answers h ops (info_step x c)"

definition host_known :: "string \<Rightarrow> cluster_info \<Rightarrow> bool" where
  "host_known h c \<longleftrightarrow> esxiVersions c h \<noteq> None"

lemma mark_answer: "snd (fst (MarkHostForProcessing h c)) = host_known h c"
  by (simp add: MarkHostForProcessing_def host_known_def Let_def)

lemma host_known_step:
  "x \<noteq> OpReset \<Longrightarrow> host_known h c \<Longrightarrow> host_known h (info_step x c)"
  by (cases x) (auto simp: host_known_def info_ops split: option.splits)

lemma host_known_mark: "host_known h (info_step (OpMarkHost h) c)"
  by (auto simp: host_known_def info_ops)

lemma mark_answers_known:
  "host_known h c \<Longrightarrow> OpReset \<notin> set ops \<Longrightarrow>
   mark_answers h ops c = replicate (count_list ops (OpMarkHost h)) True"
  by (induction h ops c rule: mark_answers.induct)
     (auto simp: mark_answer host_known_step simp del: info_step.simps)

lemma host_known_step_other:
  "\<not> host_known h c \<Longrightarrow> x \<noteq> OpMarkHost h \<Longrightarrow> (\<forall>v a. x \<noteq> OpSetHost h v a) \<Longrightarrow>
   \<not> host_known h (info_step x c)"
  by (cases x) (auto simp: host_known_def info_ops)

section \<open>Counters\<close>

lemma info_step_hw:
  "map_count (hwVersions (info_step x c)) v =
    (if x = OpReset then 0 else map_count (hwVersions c) v + (if x = OpSetHW v then 1 else 0))"
  by (cases x) (auto simp: info_ops)

lemma info_step_cbt:
  "map_count (cbtEnabled (info_step x c)) e =
    map_count (cbtEnabled c) e + (if x = OpSetCbt e then 1 else 0)"
  by (cases x) (auto simp: info_ops)

lemma info_run_hw:
  "OpReset \<notin> set ops \<Longrightarrow>
   map_count (hwVersions (info_run ops c)) v = map_count (hwVersions c) v + count_list ops (OpSetHW v)"
  by (induction ops arbitrary: c) (auto simp: info_step_hw)

lemma info_run_cbt:
  "map_count (cbtEnabled (info_run ops c)) e = map_count (cbtEnabled c) e + count_list ops (OpSetCbt e)"
  by (induction ops arbitrary: c) (auto simp: info_step_cbt)

interpretation hw: locked_updates SetHardwareVersion
  by unfold_locales (simp add: SetHardwareVersion_def map_incr_commute)

interpretation cbt: locked_updates SetCbtData
  by unfold_locales (simp add: SetCbtData_def map_incr_commute)

section \<open>Properties\<close>

text \<open>
  C26: Whatever the workers do in whatever order, exactly the first
  \<^verbatim>\<open>MarkHostForProcessing\<close> call on an ESXi host that is not known yet answers "not processed",
  and every later one answers "processed", before and after the version is stored: the host's
  properties are loaded by one node check only. (No check stores the version of a host it has
  not claimed, and nothing resets the record during a round.)
\<close>

theorem host_claimed_once:
  assumes "\<not> host_known h c" "OpReset \<notin> set ops"
    "\<forall>v a. OpSetHost h v a \<notin> set (takeWhile (\<lambda>x. x \<noteq> OpMarkHost h) ops)"
  shows "mark_answers h ops c =
    (if OpMarkHost h \<in> set ops
     then False # replicate (count_list ops (OpMarkHost h) - 1) True else [])"
  using assms
proof (induction ops arbitrary: c)
  case Nil
  show ?case by simp
next
  case (Cons x ops)
  show ?case
  proof (cases "x = OpMarkHost h")
    case True
    have "mark_answers h ops (info_step x c) = replicate (count_list ops (OpMarkHost h)) True"
      using Cons.prems True by (intro mark_answers_known) (auto simp: host_known_mark simp del: info_step.simps)
    then show ?thesis using True Cons.prems(1) by (simp add: mark_answer)
  next
    case False
    then have "\<not> host_known h (info_step x c)"
      using Cons.prems by (intro host_known_step_other) auto
    then have "mark_answers h ops (info_step x c) =
        (if OpMarkHost h \<in> set ops
         then False # replicate (count_list ops (OpMarkHost h) - 1) True else [])"
      using Cons.prems False by (intro Cons.IH) (auto simp del: info_step.simps)
    then show ?thesis using False by (cases x) auto
  qed
qed

theorem host_claimed_once_witness:
  "mark_answers ''h1'' [OpSetHW ''vmx-15'', OpMarkHost ''h1'', OpMarkHost ''h2'', OpMarkHost ''h1'',
     OpSetHost ''h1'' ''7.0.1'' ''7.0.1.2'', OpMarkHost ''h1''] NewClusterInfo = [False, True, True]"
proof -
  let ?ops = "[OpSetHW ''vmx-15'', OpMarkHost ''h1'', OpMarkHost ''h2'', OpMarkHost ''h1'',
     OpSetHost ''h1'' ''7.0.1'' ''7.0.1.2'', OpMarkHost ''h1'']"
  have "mark_answers ''h1'' ?ops NewClusterInfo =
      (if OpMarkHost ''h1'' \<in> set ?ops
       then False # replicate (count_list ?ops (OpMarkHost ''h1'') - 1) True else [])"
    by (rule host_claimed_once) (simp_all add: host_known_def NewClusterInfo_def)
  then show ?thesis by (simp add: numeral_2_eq_2)
qed

text \<open>
  C27: Every operation keeps the record well formed: the vCenter host names stay free of
  duplicates and are exactly the vCenters that have a version and an API version, so
  \<^verbatim>\<open>GetVCenterVersion\<close> never answers for a host name the list does not hold. And without a
  reset the counters count: each hardware version and each state of change block tracking has
  gone up by the number of calls made with it, whatever the order of the calls.
\<close>

theorem info_run_wf:
  assumes "wf_info c"
  shows "wf_info (info_run ops c) \<and>
    (\<forall>h. h \<notin> set (GetVCenterHostnames (info_run ops c)) \<longrightarrow>
         GetVCenterVersion (info_run ops c) h = ([], [])) \<and>
    (OpReset \<notin> set ops \<longrightarrow>
       (\<forall>v. map_count (hwVersions (info_run ops c)) v = map_count (hwVersions c) v + count_list ops (OpSetHW v)) \<and>
       (\<forall>e. map_count (cbtEnabled (info_run ops c)) e = map_count (cbtEnabled c) e + count_list ops (OpSetCbt e)))"
proof -
  have wf: "wf_info (info_run ops c)" by (rule wf_info_run [OF assms])
  then have "GetVCenterVersion (info_run ops c) h = ([], [])"
    if "h \<notin> set (GetVCenterHostnames (info_run ops c))" for h
    using that
    by (auto simp: wf_info_def GetVCenterHostnames_def GetVCenterVersion_def str_at_def domIff
        split: option.splits)
       (metis domIff option.distinct(1))
  with wf show ?thesis using info_run_hw info_run_cbt by blast
qed

theorem info_run_wf_witness:
  "GetVCenterHostnames (info_run [OpSetVCenter ''vc'' ''7'' ''7.0'', OpSetVCenter ''vc'' ''8'' ''8.0'']
     NewClusterInfo) = [''vc''] \<and>
   wf_info (info_run [OpSetVCenter ''vc'' ''7'' ''7.0'', OpSetVCenter ''vc'' ''8'' ''8.0''] NewClusterInfo) \<and>
   map_count (hwVersions (info_run [OpSetHW ''vmx-15'', OpSetCbt ''disabled'', OpSetHW ''vmx-15''] NewClusterInfo))
     ''vmx-15'' = 2"
  using info_run_wf [OF wf_info_New, of "[OpSetVCenter ''vc'' ''7'' ''7.0'', OpSetVCenter ''vc'' ''8'' ''8.0'']"]
    info_run_wf [OF wf_info_New, of "[OpSetHW ''vmx-15'', OpSetCbt ''disabled'', OpSetHW ''vmx-15'']"]
  by (simp add: GetVCenterHostnames_def SetVCenterVersion_def NewClusterInfo_def Let_def map_count_def)

end
