(* ===== verification/Deprecation.thy ===== *)
theory Deprecation
  imports Semver ClusterInfo
begin

text \<open>
  The deprecation decision of pkg/operator/operator.go: \<^verbatim>\<open>checkForDeprecation\<close>,
  \<^verbatim>\<open>isMinimumVersion\<close> and \<^verbatim>\<open>parseForSemver\<close>. Given what a round of checks learnt
  (\<^typ>\<open>cluster_info\<close>), it decides whether an ESXi host, the hardware version of a VM or a
  vCenter is too old. The two loops over maps take the iteration order as an argument.
\<close>

definition minHostVersion :: string where "minHostVersion = ''6.7.3''"
definition minVCenterVersion :: string where "minVCenterVersion = ''6.7.3''"
definition hardwareVersionPrefix :: string where "hardwareVersionPrefix = ''vmx-''"
definition minHardwareVersion :: int where "minHardwareVersion = 15"

definition parseForSemver :: "string \<Rightarrow> string" where
  "parseForSemver version =
     (let parts = split_on CHR ''.'' version
      in if length parts > 3 then join_strings ''.'' (take 3 parts) else version)"

definition isMinimumVersion :: "string \<Rightarrow> string \<Rightarrow> bool \<times> go_error option" where
  "isMinimumVersion minimumVersion currentVersion =
     (case Parse minimumVersion of
        Inl err \<Rightarrow> (True, Some err)
      | Inr minimumSemver \<Rightarrow>
        (case ParseTolerant (parseForSemver currentVersion) of
           Inl err \<Rightarrow> (True, Some err)
         | Inr currentSemVer \<Rightarrow>
             if Compare currentSemVer minimumSemver \<ge> 0 then (True, None) else (False, None)))"

text \<open>
  The three loops of \<^verbatim>\<open>checkForDeprecation\<close>. A version that does not parse is logged and
  passed over; the first one that is too old ends the function with its reason.
\<close>

fun check_hosts :: "(string \<times> ESXiVersionInfo) list \<Rightarrow> string option" where
  "check_hosts [] = None"
| "check_hosts ((host, esxiVersion) # rest) =
     (let (hasMinimum, err) = isMinimumVersion minHostVersion (APIVersion esxiVersion)
      in if err \<noteq> None then check_hosts rest
         else if \<not> hasMinimum
         then Some (''host '' @ host @ '' is on esxi version '' @ APIVersion esxiVersion)
         else check_hosts rest)"

fun check_hw :: "string list \<Rightarrow> string option" where
  "check_hw [] = None"
| "check_hw (hwVersion # rest) =
     (case ParseInt0 (trim_set hardwareVersionPrefix hwVersion) of
        Inl err \<Rightarrow> check_hw rest
      | Inr versionInt \<Rightarrow>
          if versionInt < minHardwareVersion
          then Some (''one or more VMs are on hardware version '' @ hwVersion)
          else check_hw rest)"

fun check_vcenters :: "cluster_info \<Rightarrow> string list \<Rightarrow> string option" where
  "check_vcenters c [] = None"
| "check_vcenters c (vCenter # rest) =
     (let vcenterAPIVersion = snd (GetVCenterVersion c vCenter);
          (hasMinimum, err) = isMinimumVersion minVCenterVersion vcenterAPIVersion
      in if \<not> hasMinimum
         then Some (''connected vcenter '' @ vCenter @ '' is on '' @ vcenterAPIVersion @ '' version'')
         else check_vcenters c rest)"

definition checkForDeprecation ::
  "cluster_info \<Rightarrow> string list \<Rightarrow> string list \<Rightarrow> bool \<times> string" where
  "checkForDeprecation c hosts hws =
     (case check_hosts (range_map (GetHostVersions c) hosts) of
        Some reason \<Rightarrow> (True, reason)
      | None \<Rightarrow>
        (case check_hw hws of
           Some reason \<Rightarrow> (True, reason)
         | None \<Rightarrow>
           (case check_vcenters c (GetVCenterHostnames c) of
              Some reason \<Rightarrow> (True, reason)
            | None \<Rightarrow> (False, []))))"

section \<open>Version tests as decisions on one entry\<close>

definition too_old :: "string \<Rightarrow> string \<Rightarrow> bool" where
  "too_old minimum current \<longleftrightarrow> \<not> fst (isMinimumVersion minimum current)"

definition hw_too_old :: "string \<Rightarrow> bool" where
  "hw_too_old hw \<longleftrightarrow> (\<exists>n. ParseInt0 (trim_set hardwareVersionPrefix hw) = Inr n \<and> n < minHardwareVersion)"

lemma isMinimumVersion_error: "snd (isMinimumVersion m c) \<noteq> None \<Longrightarrow> fst (isMinimumVersion m c)"
  by (auto simp: isMinimumVersion_def split: sum.splits if_splits)

lemma check_hosts_Cons:
  "check_hosts ((host, v) # rest) =
    (if too_old minHostVersion (APIVersion v)
     then Some (''host '' @ host @ '' is on esxi version '' @ APIVersion v) else check_hosts rest)"
  using isMinimumVersion_error [of minHostVersion "APIVersion v"]
  by (auto simp: too_old_def split: prod.splits)

lemma check_hosts_None:
  "check_hosts hs = None \<longleftrightarrow> (\<forall>(h, v) \<in> set hs. \<not> too_old minHostVersion (APIVersion v))"
  by (induction hs) (auto simp: check_hosts_Cons simp del: check_hosts.simps(2) split: if_splits)

lemma check_hw_None: "check_hw hws = None \<longleftrightarrow> (\<forall>h \<in> set hws. \<not> hw_too_old h)"
  by (induction hws) (auto simp: hw_too_old_def split: sum.splits)

lemma check_vcenters_None:
  "check_vcenters c vs = None \<longleftrightarrow>
    (\<forall>v \<in> set vs. \<not> too_old minVCenterVersion (snd (GetVCenterVersion c v)))"
  by (induction vs) (auto simp: too_old_def Let_def split: prod.splits)

lemma fst_checkForDeprecation:
  "\<not> fst (checkForDeprecation c hosts hws) \<longleftrightarrow>
     check_hosts (range_map (GetHostVersions c) hosts) = None \<and> check_hw hws = None
     \<and> check_vcenters c (GetVCenterHostnames c) = None"
  by (auto simp: checkForDeprecation_def split: option.splits)

lemma checkForDeprecation_iff:
  assumes "iteration_of (esxiVersions c) hosts" "iteration_of (hwVersions c) hws"
  shows "fst (checkForDeprecation c hosts hws) \<longleftrightarrow>
    (\<exists>h v. esxiVersions c h = Some v \<and> too_old minHostVersion (APIVersion v)) \<or>
    (\<exists>h. hwVersions c h \<noteq> None \<and> hw_too_old h) \<or>
    (\<exists>h \<in> set (vcenterHostnames c). too_old minVCenterVersion (str_at (vcenterAPIVersion c) h))"
proof -
  have "set (range_map (GetHostVersions c) hosts) = {(h, v). esxiVersions c h = Some v}"
    using assms(1) by (simp add: set_range_map GetHostVersions_def)
  moreover have "set hws = dom (hwVersions c)" using assms(2) by (simp add: iteration_of_def)
  ultimately show ?thesis
    using fst_checkForDeprecation [of c hosts hws]
    by (auto simp: check_hosts_None check_hw_None check_vcenters_None GetVCenterHostnames_def
        GetVCenterVersion_def domIff)
qed

section \<open>Dotted versions\<close>

lemma Parse_minimum: "Parse ''6.7.3'' = Inr (release 6 7 3)"
proof -
  have "dotted 6 7 3 = ''6.7.3''" by (simp add: dotted_def go_simps)
  then show ?thesis using Parse_dotted [of 6 7 3] by (simp add: max_uint64_def)
qed

lemma parseForSemver_dotted: "parseForSemver (dotted a b c) = dotted a b c"
  by (simp add: parseForSemver_def dotted_def split_on_append split_on_single)

lemma parseForSemver_longer:
  "parseForSemver (dotted a b c @ ''.'' @ rest) = dotted a b c"
  by (cases "split_on CHR ''.'' rest")
     (simp_all add: parseForSemver_def dotted_def split_on_append split_on_single)

lemma parseForSemver_short:
  "parseForSemver (show_nat a @ ''.'' @ show_nat b) = show_nat a @ ''.'' @ show_nat b"
  by (simp add: parseForSemver_def split_on_append split_on_single)

lemma isMinimumVersion_release:
  assumes "ParseTolerant (parseForSemver s) = Inr (release a b c)"
  shows "isMinimumVersion ''6.7.3'' s =
    (6 < a \<or> a = 6 \<and> (7 < b \<or> b = 7 \<and> 3 \<le> c), None)"
  using Compare_release [of "release a b c" "release 6 7 3"] assms
  by (auto simp: isMinimumVersion_def Parse_minimum) (auto simp: release_def)

lemma isMinimumVersion_dotted:
  assumes "a \<le> max_uint64" "b \<le> max_uint64" "c \<le> max_uint64"
  shows "isMinimumVersion ''6.7.3'' (dotted a b c) = (6 < a \<or> a = 6 \<and> (7 < b \<or> b = 7 \<and> 3 \<le> c), None)"
  using assms by (intro isMinimumVersion_release) (simp add: parseForSemver_dotted ParseTolerant_dotted)

lemma isMinimumVersion_longer:
  assumes "a \<le> max_uint64" "b \<le> max_uint64" "c \<le> max_uint64"
  shows "isMinimumVersion ''6.7.3'' (dotted a b c @ ''.'' @ rest) =
    (6 < a \<or> a = 6 \<and> (7 < b \<or> b = 7 \<and> 3 \<le> c), None)"
  using assms by (intro isMinimumVersion_release) (simp only: parseForSemver_longer ParseTolerant_dotted)

lemma isMinimumVersion_short:
  assumes "a \<le> max_uint64" "b \<le> max_uint64"
  shows "isMinimumVersion ''6.7.3'' (show_nat a @ ''.'' @ show_nat b) = (6 < a \<or> a = 6 \<and> 7 < b, None)"
proof -
  have "isMinimumVersion ''6.7.3'' (show_nat a @ ''.'' @ show_nat b)
      = (6 < a \<or> a = 6 \<and> (7 < b \<or> b = 7 \<and> 3 \<le> (0 :: nat)), None)"
    using assms by (intro isMinimumVersion_release) (simp only: parseForSemver_short ParseTolerant_short)
  then show ?thesis by simp
qed

section \<open>Hardware versions\<close>

lemma vmx_prefix_not_digit: "is_digit c \<Longrightarrow> c \<notin> set ''vmx-''"
  by (auto simp: is_digit_def byte_def)

lemma trim_vmx:
  assumes "s \<noteq> []" "is_digit (hd s)" "is_digit (last s)"
  shows "trim_set hardwareVersionPrefix (''vmx-'' @ s) = s"
proof -
  have "trim_set hardwareVersionPrefix (''vmx-'' @ s) = trim_set hardwareVersionPrefix s"
    by (simp add: trim_set_def hardwareVersionPrefix_def)
  also have "\<dots> = s"
    using assms vmx_prefix_not_digit by (intro trim_set_fixed) (auto simp: hardwareVersionPrefix_def)
  finally show ?thesis .
qed

lemma hw_too_old_vmx:
  assumes "n < 2 ^ 63"
  shows "hw_too_old (''vmx-'' @ show_nat n) \<longleftrightarrow> n < 15"
proof -
  have "trim_set hardwareVersionPrefix (''vmx-'' @ show_nat n) = show_nat n"
    by (rule trim_vmx) (simp_all add: show_nat_digits [of _ n])
  then show ?thesis
    by (simp add: hw_too_old_def ParseInt0_show_nat [OF assms] minHardwareVersion_def)
qed

lemma hw_octal_not_too_old:
  assumes "d = 8 \<or> d = 9"
  shows "\<not> hw_too_old (''vmx-0'' @ show_nat d)"
proof -
  have "trim_set hardwareVersionPrefix (''vmx-'' @ (CHR ''0'' # show_nat d)) = CHR ''0'' # show_nat d"
    using assms
    by (intro trim_vmx) (auto simp: go_simps is_digit_def byte_def)
  then show ?thesis
    using ParseInt0_octal_digit [OF assms] by (simp add: hw_too_old_def)
qed

section \<open>Properties\<close>

text \<open>
  C25: For a version string that starts with three numbers, however many parts follow, and for
  one of two numbers, \<^verbatim>\<open>isMinimumVersion\<close> succeeds and answers whether those numbers are at
  least 6.7.3 in lexicographic order, a missing third number counting as 0.
\<close>

theorem isMinimumVersion_numeric:
  assumes "a \<le> max_uint64" "b \<le> max_uint64" "c \<le> max_uint64"
  shows "isMinimumVersion minHostVersion (dotted a b c)
      = (6 < a \<or> a = 6 \<and> (7 < b \<or> b = 7 \<and> 3 \<le> c), None)
    \<and> isMinimumVersion minHostVersion (dotted a b c @ ''.'' @ rest)
      = (6 < a \<or> a = 6 \<and> (7 < b \<or> b = 7 \<and> 3 \<le> c), None)
    \<and> isMinimumVersion minHostVersion (show_nat a @ ''.'' @ show_nat b)
      = (6 < a \<or> a = 6 \<and> 7 < b, None)"
  using assms isMinimumVersion_dotted isMinimumVersion_longer isMinimumVersion_short by (simp add: minHostVersion_def)

theorem isMinimumVersion_numeric_witness:
  "isMinimumVersion minHostVersion ''7.0.1.2'' = (True, None)"
proof -
  have "dotted 7 0 1 @ ''.'' @ ''2'' = ''7.0.1.2''" by (simp add: dotted_def go_simps)
  then show ?thesis
    using isMinimumVersion_numeric [of 7 0 1 "''2''"] by (simp add: max_uint64_def)
qed

text \<open>
  \<^verbatim>\<open>checkForDeprecation\<close> flags the cluster exactly when some ESXi host, some hardware
  version or some vCenter it recorded is too old, so its answer does not depend on the orders in
  which the maps are iterated. (The reason text does: it names the first offender met.)
\<close>

theorem deprecation_order_independent:
  assumes "iteration_of (esxiVersions c) hosts" "iteration_of (hwVersions c) hws"
    and "iteration_of (esxiVersions c) hosts'" "iteration_of (hwVersions c) hws'"
  shows "fst (checkForDeprecation c hosts hws) = fst (checkForDeprecation c hosts' hws') \<and>
    (fst (checkForDeprecation c hosts hws) \<longleftrightarrow>
      (\<exists>h v. esxiVersions c h = Some v \<and> too_old minHostVersion (APIVersion v)) \<or>
      (\<exists>h. hwVersions c h \<noteq> None \<and> hw_too_old h) \<or>
      (\<exists>h \<in> set (vcenterHostnames c). too_old minVCenterVersion (str_at (vcenterAPIVersion c) h)))"
  using checkForDeprecation_iff [OF assms(1,2)] checkForDeprecation_iff [OF assms(3,4)] by blast

definition two_hw :: cluster_info where
  "two_hw = NewClusterInfo\<lparr>hwVersions := [''vmx-13'' \<mapsto> 2, ''vmx-19'' \<mapsto> 1]\<rparr>"

theorem deprecation_order_independent_witness:
  "fst (checkForDeprecation two_hw [] [''vmx-13'', ''vmx-19''])
   = fst (checkForDeprecation two_hw [] [''vmx-19'', ''vmx-13''])"
proof -
  have "iteration_of (hwVersions two_hw) [''vmx-13'', ''vmx-19'']"
    "iteration_of (hwVersions two_hw) [''vmx-19'', ''vmx-13'']"
    "iteration_of (esxiVersions two_hw) []"
    by (auto simp: iteration_of_def two_hw_def NewClusterInfo_def)
  then show ?thesis using deprecation_order_independent [of two_hw "[]" _ "[]"] by blast
qed

text \<open>
  A VM on hardware version \<open>vmx-N\<close>, with \<open>N\<close> written without leading zeros, makes the
  cluster deprecated exactly when \<open>N\<close> is below 15, given that everything else is recent.
\<close>

theorem hw_version_threshold:
  assumes "n < 2 ^ 63" "esxiVersions c = Map.empty" "vcenterHostnames c = []"
    and "hwVersions c = [''vmx-'' @ show_nat n \<mapsto> k]"
  shows "fst (checkForDeprecation c [] [''vmx-'' @ show_nat n]) \<longleftrightarrow> n < 15"
proof -
  have "iteration_of (hwVersions c) [''vmx-'' @ show_nat n]"
    using assms(4) by (auto simp: iteration_of_def)
  moreover have "iteration_of (esxiVersions c) []" using assms(2) by simp
  ultimately show ?thesis
    using checkForDeprecation_iff [of c "[]" "[''vmx-'' @ show_nat n]"] hw_too_old_vmx [OF assms(1)] assms
    by auto
qed

theorem hw_version_threshold_witness:
  "fst (checkForDeprecation (NewClusterInfo\<lparr>hwVersions := [''vmx-13'' \<mapsto> 2]\<rparr>) [] [''vmx-13''])"
proof -
  have s: "show_nat 13 = ''13''" by (simp add: go_simps)
  show ?thesis
    using hw_version_threshold [of 13 "NewClusterInfo\<lparr>hwVersions := [''vmx-13'' \<mapsto> 2]\<rparr>" 2]
    by (simp add: NewClusterInfo_def s)
qed

text \<open>
  Hardware versions \<open>vmx-08\<close> and \<open>vmx-09\<close>, which vSphere writes with a leading zero, are
  never found too old: with base 0 the zero selects octal, the digit is a syntax error and the
  version is passed over. A cluster whose only VMs are on them is not flagged, although one
  on \<open>vmx-10\<close> is.
\<close>

theorem hw_version_octal_missed:
  assumes "d = 8 \<or> d = 9" "esxiVersions c = Map.empty" "vcenterHostnames c = []"
    and "hwVersions c = [''vmx-0'' @ show_nat d \<mapsto> k]"
  shows "\<not> fst (checkForDeprecation c [] [''vmx-0'' @ show_nat d])
    \<and> fst (checkForDeprecation (c\<lparr>hwVersions := [''vmx-10'' \<mapsto> k]\<rparr>) [] [''vmx-10''])"
proof
  have "iteration_of (hwVersions c) [''vmx-0'' @ show_nat d]"
    using assms(4) by (auto simp: iteration_of_def)
  moreover have "iteration_of (esxiVersions c) []" using assms(2) by simp
  ultimately show "\<not> fst (checkForDeprecation c [] [''vmx-0'' @ show_nat d])"
    using checkForDeprecation_iff [of c "[]" "[''vmx-0'' @ show_nat d]"]
      hw_octal_not_too_old [OF assms(1)] assms
    by auto
  have s: "''vmx-10'' = ''vmx-'' @ show_nat 10" by (simp add: go_simps)
  have "iteration_of (hwVersions (c\<lparr>hwVersions := [''vmx-10'' \<mapsto> k]\<rparr>)) [''vmx-10'']"
    by (auto simp: iteration_of_def)
  moreover have "hw_too_old ''vmx-10''" using hw_too_old_vmx [of 10] s by simp
  ultimately show "fst (checkForDeprecation (c\<lparr>hwVersions := [''vmx-10'' \<mapsto> k]\<rparr>) [] [''vmx-10''])"
    using checkForDeprecation_iff [of "c\<lparr>hwVersions := [''vmx-10'' \<mapsto> k]\<rparr>" "[]" "[''vmx-10'']"] assms(2)
    by simp
qed

theorem hw_version_octal_missed_witness:
  "\<not> fst (checkForDeprecation (NewClusterInfo\<lparr>hwVersions := [''vmx-09'' \<mapsto> 3]\<rparr>) [] [''vmx-09''])"
  using hw_version_octal_missed [of 9 "NewClusterInfo\<lparr>hwVersions := [''vmx-09'' \<mapsto> 3]\<rparr>" 3]
  by (simp add: NewClusterInfo_def go_simps)

text \<open>
  A newer version is never refused where an older one is accepted: for every minimum, the test is
  monotone in the order of the version library.
\<close>

theorem isMinimumVersion_monotone:
  assumes "ParseTolerant (parseForSemver old) = Inr v" "ParseTolerant (parseForSemver new) = Inr w"
    and "v \<le> w" "fst (isMinimumVersion m old)"
  shows "fst (isMinimumVersion m new)"
  using assms(4) order_trans [OF _ assms(3)]
  by (auto simp: isMinimumVersion_def assms(1,2) Compare_le split: sum.splits if_splits)

theorem isMinimumVersion_monotone_witness: "fst (isMinimumVersion minHostVersion (dotted 8 0 2))"
proof -
  have old: "ParseTolerant (parseForSemver (dotted 7 0 0)) = Inr (release 7 0 0)"
    and new: "ParseTolerant (parseForSemver (dotted 8 0 2)) = Inr (release 8 0 2)"
    by (simp_all add: parseForSemver_dotted ParseTolerant_dotted max_uint64_def)
  have "release 7 0 0 \<le> release 8 0 2"
    unfolding Compare_le [symmetric] by (simp add: Compare_def release_def)
  moreover have "fst (isMinimumVersion minHostVersion (dotted 7 0 0))"
    using isMinimumVersion_release [OF old] by (simp add: minHostVersion_def)
  ultimately show ?thesis using isMinimumVersion_monotone [OF old new] by blast
qed

end
