(* ===== verification/Backoff.thy ===== *)
theory Backoff
  imports Complex_Main
begin

text \<open>
  \<^verbatim>\<open>wait.Backoff\<close> of k8s.io/apimachinery (src/vendor), which the controller steps on every
  run of its checks, and the controller's \<^verbatim>\<open>defaultBackoff\<close>.

  A \<^verbatim>\<open>time.Duration\<close> is its number of nanoseconds, an \<^typ>\<open>int\<close>: the longest one here is
  below two days. \<^verbatim>\<open>float64\<close> values are rationals. With the controller's factor 2 and
  durations below \<open>2 ^ 53\<close> nanoseconds the product is exact in \<^verbatim>\<open>float64\<close> too. The random
  draw of \<^verbatim>\<open>Jitter\<close>, a number of \<open>[0, 1)\<close>, is an argument of each step; its product with the
  jitter factor is taken exactly, where the code rounds to 53 bits.
\<close>

type_synonym duration = int

definition second :: duration where "second = 1000000000"
definition minute :: duration where "minute = 60 * second"
definition hour :: duration where "hour = 60 * minute"

record backoff =
  Duration :: duration
  Factor :: rat
  Jitter_factor :: rat
  Steps :: int
  Cap :: duration

text \<open>The conversion \<^verbatim>\<open>time.Duration(x)\<close> of a float truncates towards zero.\<close>

definition trunc_rat :: "rat \<Rightarrow> int" where
  "trunc_rat x = (if x < 0 then - \<lfloor>- x\<rfloor> else \<lfloor>x\<rfloor>)"

definition Jitter :: "rat \<Rightarrow> duration \<Rightarrow> rat \<Rightarrow> duration" where
  "Jitter draw dur maxFactor =
     (let maxFactor = (if maxFactor \<le> 0 then 1 else maxFactor)
      in dur + trunc_rat (draw * maxFactor * of_int dur))"

definition delay ::
  "rat \<Rightarrow> int \<Rightarrow> duration \<Rightarrow> duration \<Rightarrow> rat \<Rightarrow> rat \<Rightarrow> duration \<times> duration \<times> int" where
  "delay draw steps dur cap factor jitter =
     (if steps < 1 then
        (if jitter > 0 then (Jitter draw dur jitter, dur, 0) else (dur, dur, 0))
      else
        let steps = steps - 1;
            (next, steps) =
              (if factor \<noteq> 0 then
                 let next = trunc_rat (of_int dur * factor)
                 in if cap > 0 \<and> next > cap then (cap, 0) else (next, steps)
               else (dur, steps));
            dur = (if jitter > 0 then Jitter draw dur jitter else dur)
        in (dur, next, steps))"

definition Step :: "rat \<Rightarrow> backoff \<Rightarrow> duration \<times> backoff" where
  "Step draw b =
     (let (nextDuration, d, s) = delay draw (Steps b) (Duration b) (Cap b) (Factor b) (Jitter_factor b)
      in (nextDuration, b\<lparr>Duration := d, Steps := s\<rparr>))"

definition MaxInt32 :: int where "MaxInt32 = 2147483647"

definition defaultBackoff :: backoff where
  "defaultBackoff = \<lparr>Duration = minute, Factor = 2, Jitter_factor = 1 / 100, Steps = MaxInt32,
     Cap = hour\<rparr>"

section \<open>The sequence of delays\<close>

text \<open>The random source: \<^verbatim>\<open>jitterRand()\<close> is documented to be in \<open>[0, 1)\<close>.\<close>

definition draw_ok :: "rat \<Rightarrow> bool" where
  "draw_ok draw \<longleftrightarrow> 0 \<le> draw \<and> draw < 1"

lemmas durations = second_def minute_def hour_def

lemma Jitter_bounds:
  assumes "draw_ok draw" "0 \<le> dur"
  shows "dur \<le> Jitter draw dur (1 / 100)" "Jitter draw dur (1 / 100) \<le> dur + dur div 100"
proof -
  let ?x = "draw * (1 / 100) * of_int dur"
  have nn: "0 \<le> ?x" using assms by (simp add: draw_ok_def)
  have "draw * of_int dur \<le> 1 * of_int dur"
    using assms by (intro mult_right_mono) (auto simp: draw_ok_def)
  then have le: "?x \<le> of_int dur / of_int 100" by simp
  have "\<lfloor>?x\<rfloor> \<le> \<lfloor>(of_int dur :: rat) / of_int 100\<rfloor>" by (rule floor_mono [OF le])
  then have fl: "\<lfloor>?x\<rfloor> \<le> dur div 100"
    by (simp only: floor_divide_of_int_eq)
  have eq: "Jitter draw dur (1 / 100) = dur + \<lfloor>?x\<rfloor>"
    using nn by (simp add: Jitter_def trunc_rat_def not_less)
  have "0 \<le> \<lfloor>?x\<rfloor>" using nn by simp
  then show "dur \<le> Jitter draw dur (1 / 100)" "Jitter draw dur (1 / 100) \<le> dur + dur div 100"
    using fl by (simp_all add: eq)
qed

text \<open>The backoff after \<open>n\<close> steps from the default.\<close>

definition nth_backoff :: "nat \<Rightarrow> backoff" where
  "nth_backoff n = defaultBackoff\<lparr>Duration := (if n < 6 then minute * 2 ^ n else hour),
     Steps := (if n < 6 then MaxInt32 - int n else 0)\<rparr>"

lemma nth_backoff_0: "nth_backoff 0 = defaultBackoff"
  by (simp add: nth_backoff_def defaultBackoff_def)

lemma Duration_nth_backoff: "Duration (nth_backoff n) = min (minute * 2 ^ n) hour"
proof (cases "n < 6")
  case True
  then have "n \<in> {0, 1, 2, 3, 4, 5}" by auto
  then show ?thesis by (auto simp: nth_backoff_def durations)
next
  case False
  then have "(2 :: int) ^ 6 \<le> 2 ^ n" by (intro power_increasing) auto
  with False show ?thesis by (simp add: nth_backoff_def durations)
qed

lemma snd_Step_nth_backoff: "snd (Step draw (nth_backoff n)) = nth_backoff (Suc n)"
proof (cases "n < 6")
  case True
  then have "n \<in> {0, 1, 2, 3, 4, 5}" by auto
  then show ?thesis
    by (auto simp: Step_def delay_def nth_backoff_def defaultBackoff_def durations MaxInt32_def
        trunc_rat_def Let_def)
next
  case False
  then show ?thesis
    by (simp add: Step_def delay_def nth_backoff_def defaultBackoff_def durations)
qed

lemma fst_Step_nth_backoff:
  "fst (Step draw (nth_backoff n)) = Jitter draw (Duration (nth_backoff n)) (1 / 100)"
  by (simp add: Step_def delay_def nth_backoff_def defaultBackoff_def Let_def split: prod.splits)

lemma Step_nth_backoff_bounds:
  assumes "draw_ok draw"
  shows "min (minute * 2 ^ n) hour \<le> fst (Step draw (nth_backoff n))"
    "fst (Step draw (nth_backoff n)) \<le> min (minute * 2 ^ n) hour + min (minute * 2 ^ n) hour div 100"
proof -
  have "0 \<le> min (minute * 2 ^ n) hour" by (simp add: durations)
  then show "min (minute * 2 ^ n) hour \<le> fst (Step draw (nth_backoff n))"
    "fst (Step draw (nth_backoff n)) \<le> min (minute * 2 ^ n) hour + min (minute * 2 ^ n) hour div 100"
    using Jitter_bounds [OF assms, of "Duration (nth_backoff n)"]
    by (simp_all only: fst_Step_nth_backoff Duration_nth_backoff)
qed

end
