(* ===== verification/ResultCollector.thy ===== *)
theory ResultCollector
  imports GoErrors
begin

text \<open>
  \<^verbatim>\<open>ResultCollector\<close> of pkg/operator/pool.go: the results the checks of one round report,
  \<^verbatim>\<open>AddResult\<close> and \<^verbatim>\<open>Collect\<close>. Both hold the mutex for their whole body, so concurrent
  calls run in some serial order. The abstract collector keeps the multiset of errors of each
  check; the refinement lemma shows that \<^verbatim>\<open>AddResult\<close> implements it, and with the locale
  of commuting updates that the order in which the workers report is not observable in the
  success or failure of any check.
\<close>

record checkResult =
  res_Name :: string
  res_Error :: "go_error option"

record result_collector =
  results :: "string \<rightharpoonup> go_error option list"

definition NewResultsCollector :: result_collector where
  "NewResultsCollector = \<lparr>results = Map.empty\<rparr>"

definition AddResult :: "checkResult \<Rightarrow> result_collector \<Rightarrow> result_collector" where
  "AddResult res r =
     (let name = res_Name res in
      case results r name of
        None \<Rightarrow> r\<lparr>results := (results r)(name \<mapsto> [res_Error res])\<rparr>
      | Some oldRes \<Rightarrow> r\<lparr>results := (results r)(name \<mapsto> oldRes @ [res_Error res])\<rparr>)"

text \<open>The inner loop of \<^verbatim>\<open>Collect\<close>: the errors of one check that are not \<^verbatim>\<open>nil\<close>.\<close>

fun non_nil :: "go_error option list \<Rightarrow> go_error list" where
  "non_nil [] = []"
| "non_nil (None # es) = non_nil es"
| "non_nil (Some e # es) = e # non_nil es"

definition collect_one :: "string \<Rightarrow> go_error option list \<Rightarrow> checkResult" where
  "collect_one name checkErrors =
     (let errs = non_nil checkErrors in
      if length errs = 0 then \<lparr>res_Name = name, res_Error = None\<rparr>
      else \<lparr>res_Name = name, res_Error = JoinErrors errs\<rparr>)"

text \<open>
  The outer loop ranges over the map \<^verbatim>\<open>r.results\<close> in the order \<open>names\<close>, with the slices
  \<^verbatim>\<open>checkResults\<close> and \<^verbatim>\<open>allErrs\<close> as accumulators.
\<close>

fun collect_loop ::
  "(string \<rightharpoonup> go_error option list) \<Rightarrow> string list \<Rightarrow> checkResult list \<Rightarrow> go_error list
   \<Rightarrow> checkResult list \<times> go_error list" where
  "collect_loop m [] checkResults allErrs = (checkResults, allErrs)"
| "collect_loop m (name # names) checkResults allErrs =
     (case m name of
        None \<Rightarrow> collect_loop m names checkResults allErrs
      | Some checkErrors \<Rightarrow>
          collect_loop m names (checkResults @ [collect_one name checkErrors])
            (allErrs @ non_nil checkErrors))"

definition Collect_results ::
  "result_collector \<Rightarrow> string list \<Rightarrow> checkResult list \<times> go_error option" where
  "Collect_results r names =
     (let (checkResults, allErrs) = collect_loop (results r) names [] []
      in (checkResults, new_aggregate (map Some allErrs)))"

section \<open>What Collect returns\<close>

lemma non_nil_append [simp]: "non_nil (xs @ ys) = non_nil xs @ non_nil ys"
  by (induction xs rule: non_nil.induct) auto

lemma set_non_nil: "set (non_nil es) = {e. Some e \<in> set es}"
  by (induction es rule: non_nil.induct) auto

lemma non_nil_Nil [simp]: "non_nil es = [] \<longleftrightarrow> (\<forall>e \<in> set es. e = None)"
  by (induction es rule: non_nil.induct) auto

lemma res_Name_collect_one [simp]: "res_Name (collect_one n es) = n"
  by (simp add: collect_one_def Let_def)

lemma res_Error_collect_one: "res_Error (collect_one n es) = JoinErrors (non_nil es)"
  by (simp add: collect_one_def Let_def JoinErrors_def)

lemma res_Error_collect_one_None [simp]:
  "res_Error (collect_one n es) = None \<longleftrightarrow> (\<forall>e \<in> set es. e = None)"
  by (simp add: res_Error_collect_one)

lemma collect_loop_eq:
  assumes "set names \<subseteq> dom m"
  shows "collect_loop m names cs es =
    (cs @ map (\<lambda>n. collect_one n (the (m n))) names,
     es @ concat (map (\<lambda>n. non_nil (the (m n))) names))"
  using assms by (induction names arbitrary: cs es) (auto split: option.splits)

lemma Collect_results_eq:
  assumes "iteration_of (results r) names"
  shows "Collect_results r names =
    (map (\<lambda>n. collect_one n (the (results r n))) names,
     new_aggregate (map Some (concat (map (\<lambda>n. non_nil (the (results r n))) names))))"
  using assms by (simp add: Collect_results_def collect_loop_eq iteration_of_def)

section \<open>A round of AddResult calls\<close>

definition add_results :: "checkResult list \<Rightarrow> result_collector" where
  "add_results xs = fold AddResult xs NewResultsCollector"

definition errors_of :: "string \<Rightarrow> checkResult list \<Rightarrow> go_error option list" where
  "errors_of n xs = map res_Error (filter (\<lambda>x. res_Name x = n) xs)"

lemma results_AddResult:
  "results (AddResult x r) n =
    (if res_Name x = n
     then Some ((case results r n of None \<Rightarrow> [] | Some es \<Rightarrow> es) @ [res_Error x])
     else results r n)"
  by (auto simp: AddResult_def Let_def split: option.splits)

lemma results_add_results:
  "results (add_results xs) n =
    (if n \<in> res_Name ` set xs then Some (errors_of n xs) else None)"
proof (induction xs rule: rev_induct)
  case Nil
  show ?case by (simp add: add_results_def NewResultsCollector_def)
next
  case (snoc x xs)
  have "add_results (xs @ [x]) = AddResult x (add_results xs)"
    by (simp add: add_results_def)
  moreover have "n \<notin> res_Name ` set xs \<Longrightarrow> errors_of n xs = []"
    by (auto simp: errors_of_def filter_empty_conv)
  ultimately show ?case
    using snoc by (auto simp: results_AddResult errors_of_def)
qed

lemma dom_add_results: "dom (results (add_results xs)) = res_Name ` set xs"
  by (auto simp: results_add_results dom_def split: if_splits)

lemma set_errors_of: "set (errors_of n xs) = res_Error ` {x \<in> set xs. res_Name x = n}"
  by (auto simp: errors_of_def)

section \<open>The abstract collector\<close>

text \<open>What a round of checks means: for each check name, the multiset of its results.\<close>

type_synonym abs_collector = "string \<Rightarrow> go_error option multiset"

definition abs_add :: "checkResult \<Rightarrow> abs_collector \<Rightarrow> abs_collector" where
  "abs_add x a = a(res_Name x := add_mset (res_Error x) (a (res_Name x)))"

definition abs_of :: "result_collector \<Rightarrow> abs_collector" where
  "abs_of r n = (case results r n of None \<Rightarrow> {#} | Some es \<Rightarrow> mset es)"

lemma abs_of_AddResult: "abs_of (AddResult x r) = abs_add x (abs_of r)"
  by (rule ext) (auto simp: abs_of_def abs_add_def results_AddResult split: option.splits)

lemma abs_of_fold: "abs_of (fold AddResult xs r) = fold abs_add xs (abs_of r)"
  by (induction xs arbitrary: r) (auto simp: abs_of_AddResult)

interpretation sink: locked_updates abs_add
  by unfold_locales (auto simp: abs_add_def fun_eq_iff)

lemma abs_of_order_irrelevant:
  assumes "mset xs = mset ys"
  shows "abs_of (add_results xs) = abs_of (add_results ys)"
  unfolding add_results_def abs_of_fold by (rule sink.fold_order_irrelevant [OF assms])

lemma collect_summary:
  assumes "iteration_of (results (add_results xs)) names"
  defines "rs \<equiv> fst (Collect_results (add_results xs) names)"
    and "err \<equiv> snd (Collect_results (add_results xs) names)"
  shows "map res_Name rs = names" "distinct names" "set names = res_Name ` set xs"
    "\<forall>r \<in> set rs. res_Error r = None \<longleftrightarrow>
       (\<forall>x \<in> set xs. res_Name x = res_Name r \<longrightarrow> res_Error x = None)"
    "err = None \<longleftrightarrow> (\<forall>x \<in> set xs. res_Error x = None)"
proof -
  show names: "distinct names" "set names = res_Name ` set xs"
    using assms(1) by (simp_all add: iteration_of_def dom_add_results)
  have get: "the (results (add_results xs) n) = errors_of n xs" if "n \<in> set names" for n
    using that names(2) by (simp add: results_add_results)
  have rs: "rs = map (\<lambda>n. collect_one n (errors_of n xs)) names"
    and err: "err = new_aggregate (map Some (concat (map (\<lambda>n. non_nil (errors_of n xs)) names)))"
    by (auto simp: rs_def err_def Collect_results_eq [OF assms(1)] get cong: map_cong)
  show "map res_Name rs = names" by (simp add: rs comp_def)
  show "\<forall>r \<in> set rs. res_Error r = None \<longleftrightarrow>
       (\<forall>x \<in> set xs. res_Name x = res_Name r \<longrightarrow> res_Error x = None)"
    by (auto simp: rs set_errors_of)
  show "err = None \<longleftrightarrow> (\<forall>x \<in> set xs. res_Error x = None)"
    using names(2) by (auto simp: err set_errors_of)
qed

section \<open>Properties\<close>

text \<open>
  After any round of \<^verbatim>\<open>AddResult\<close> calls and for every iteration order of the map,
  \<^verbatim>\<open>Collect\<close> returns exactly one result for each check that reported, its error is \<^verbatim>\<open>nil\<close>
  exactly when every result of that check was \<^verbatim>\<open>nil\<close>, and the overall error is \<^verbatim>\<open>nil\<close> exactly
  when no result at all was an error.
\<close>

theorem collect_one_result_per_check:
  assumes "iteration_of (results (add_results xs)) names"
    and "Collect_results (add_results xs) names = (rs, err)"
  shows "map res_Name rs = names \<and> distinct names \<and> set names = res_Name ` set xs \<and>
    (\<forall>r \<in> set rs. res_Error r = None \<longleftrightarrow>
       (\<forall>x \<in> set xs. res_Name x = res_Name r \<longrightarrow> res_Error x = None)) \<and>
    (err = None \<longleftrightarrow> (\<forall>x \<in> set xs. res_Error x = None))"
  using collect_summary [OF assms(1)] assms(2) by auto

definition sample_round :: "checkResult list" where
  "sample_round = [\<lparr>res_Name = ''A'', res_Error = None\<rparr>,
     \<lparr>res_Name = ''B'', res_Error = Some (Errorf ''bad'')\<rparr>, \<lparr>res_Name = ''A'', res_Error = None\<rparr>]"

lemma sample_round_order: "iteration_of (results (add_results sample_round)) [''B'', ''A'']"
  by (auto simp: iteration_of_def dom_add_results sample_round_def)

theorem collect_one_result_per_check_witness:
  "map res_Name (fst (Collect_results (add_results sample_round) [''B'', ''A''])) = [''B'', ''A''] \<and>
   snd (Collect_results (add_results sample_round) [''B'', ''A'']) \<noteq> None"
  using collect_one_result_per_check [OF sample_round_order prod.collapse [symmetric]]
  by (auto simp: sample_round_def)

definition aggregated :: "go_error option \<Rightarrow> go_error multiset" where
  "aggregated err = (case err of Some (Aggregate es) \<Rightarrow> mset es | _ \<Rightarrow> {#})"

lemma mset_non_nil: "mset (non_nil es) = image_mset the (filter_mset (\<lambda>e. e \<noteq> None) (mset es))"
  by (induction es rule: non_nil.induct) auto

lemma mset_concat_map: "mset (concat (map f xs)) = (\<Sum>x \<in># mset xs. mset (f x))"
  by (induction xs) auto

lemma aggregated_new_aggregate: "aggregated (new_aggregate (map Some es)) = mset es"
  by (simp add: aggregated_def)

lemma mset_errors_of:
  "mset (errors_of n xs) = image_mset res_Error (filter_mset (\<lambda>x. res_Name x = n) (mset xs))"
  by (simp add: errors_of_def mset_map mset_filter)

text \<open>
  The order in which the workers report does not matter: for two interleavings of the same
  \<^verbatim>\<open>AddResult\<close> calls, and whatever iteration orders the runtime picks, \<^verbatim>\<open>Collect\<close> returns
  the same checks with the same success or failure, and aggregates the same errors.
\<close>

theorem collect_independent_of_interleaving:
  assumes perm: "mset xs = mset ys"
    and xn: "iteration_of (results (add_results xs)) ns"
    and ym: "iteration_of (results (add_results ys)) ms"
  shows "(\<lambda>r. (res_Name r, res_Error r = None)) ` set (fst (Collect_results (add_results xs) ns))
       = (\<lambda>r. (res_Name r, res_Error r = None)) ` set (fst (Collect_results (add_results ys) ms))
    \<and> aggregated (snd (Collect_results (add_results xs) ns))
       = aggregated (snd (Collect_results (add_results ys) ms))"
proof
  have sets: "set xs = set ys" using perm by (rule mset_eq_setD)
  have ns: "set ns = res_Name ` set xs" "set ms = res_Name ` set xs"
    using xn ym sets by (simp_all add: iteration_of_def dom_add_results)
  have names: "mset ns = mset ms"
    using ns xn ym by (metis iteration_of_def set_eq_iff_mset_eq_distinct)
  have x: "the (results (add_results xs) n) = errors_of n xs" if "n \<in> set ns" for n
    using that ns by (simp add: results_add_results)
  have y: "the (results (add_results ys) n) = errors_of n ys" if "n \<in> set ms" for n
    using that ns sets by (simp add: results_add_results)
  have eq: "mset (non_nil (errors_of n xs)) = mset (non_nil (errors_of n ys))" for n
    by (simp only: mset_non_nil mset_errors_of perm)
  show "(\<lambda>r. (res_Name r, res_Error r = None)) ` set (fst (Collect_results (add_results xs) ns))
      = (\<lambda>r. (res_Name r, res_Error r = None)) ` set (fst (Collect_results (add_results ys) ms))"
    using ns sets
    by (simp add: Collect_results_eq [OF xn] Collect_results_eq [OF ym] x y image_image set_errors_of
        cong: image_cong)
  show "aggregated (snd (Collect_results (add_results xs) ns))
      = aggregated (snd (Collect_results (add_results ys) ms))"
    by (simp add: Collect_results_eq [OF xn] Collect_results_eq [OF ym] x y mset_concat_map eq names
        aggregated_new_aggregate del: new_aggregate_Some cong: map_cong)
qed

theorem collect_independent_of_interleaving_witness:
  "aggregated (snd (Collect_results (add_results sample_round) [''B'', ''A'']))
   = aggregated (snd (Collect_results (add_results (rev sample_round)) [''A'', ''B'']))"
proof -
  have "iteration_of (results (add_results (rev sample_round))) [''A'', ''B'']"
    by (auto simp: iteration_of_def dom_add_results sample_round_def)
  then show ?thesis
    using collect_independent_of_interleaving [OF _ sample_round_order, of "rev sample_round"] by simp
qed

end
