(* ===== verification/CheckContext.thy ===== *)
theory CheckContext
  imports GoErrors
begin

text \<open>
  The data every check reads: the Infrastructure resource and the cloud provider
  configuration, \<^verbatim>\<open>CheckContext\<close> and \<^verbatim>\<open>VCenter\<close> of pkg/check/interface.go, and the
  functions of pkg/check/util.go that decide which vCenter serves what:
  \<^verbatim>\<open>ConvertToPlatformSpec\<close> with its helpers, and \<^verbatim>\<open>GetVCenter\<close>.

  \<^verbatim>\<open>ctx.VCenters\<close> is an association list with distinct keys: no check changes it, its order
  is the order in which a \<^verbatim>\<open>range\<close> loop visits the map, and every theorem holds for all such
  orders because it holds for every list.
\<close>

section \<open>Kubernetes and configuration data\<close>

record host_group =
  hg_VMGroup :: string
  hg_HostGroup :: string
  hg_VMHostRule :: string

record zone_affinity =
  za_Type :: string
  za_HostGroup :: "host_group option"

record topology =
  Datacenter :: string
  ComputeCluster :: string
  Datastore :: string
  Folder :: string
  ResourcePool :: string

record failure_domain =
  fd_Name :: string
  Region :: string
  Zone :: string
  RegionAffinity :: "string option"
  ZoneAffinity :: "zone_affinity option"
  Server :: string
  Topology :: topology

record vcenter_spec =
  spec_Server :: string
  spec_Datacenters :: "string list"

record platform_spec =
  spec_VCenters :: "vcenter_spec list"
  FailureDomains :: "failure_domain list"

record infrastructure =
  CloudConfig_Name :: string
  CloudConfig_Key :: string
  spec_VSphere :: "platform_spec option"
  PlatformStatus :: "string option"

record node =
  node_Name :: string
  Labels :: "string \<rightharpoonup> string"
  ProviderID :: string

text \<open>The parsed cloud configuration: the current format, and the legacy one for INI files.\<close>

record vcenter_config =
  VCenterIP :: string
  cfg_Datacenters :: string
  InsecureFlag :: bool
  cfg_User :: string

record workspace =
  ws_VCenterIP :: string
  ws_Datacenter :: string
  ws_Folder :: string
  ws_DefaultDatastore :: string
  ws_ResourcePoolPath :: string

record legacy_config =
  legacy_Datacenters :: "string \<rightharpoonup> string"
  Workspace :: workspace

record vsphere_config =
  VirtualCenter :: "(string \<times> vcenter_config) list"
  LegacyConfig :: "legacy_config option"

record vcenter =
  VCenterName :: string
  Username :: string

record check_context =
  VMConfig :: "vsphere_config option"
  VCenters :: "(string \<times> vcenter) list"
  PlatformSpec :: "platform_spec option"

definition wf_context :: "check_context \<Rightarrow> bool" where
  "wf_context ctx \<longleftrightarrow> distinct (map fst (VCenters ctx)) \<and>
     (\<forall>(name, vc) \<in> set (VCenters ctx). VCenterName vc = name)"

section \<open>ConvertToPlatformSpec\<close>

definition empty_spec :: platform_spec where
  "empty_spec = \<lparr>spec_VCenters = [], FailureDomains = []\<rparr>"

definition addFailureDomainsToPlatformSpec ::
  "legacy_config \<Rightarrow> string \<Rightarrow> platform_spec \<Rightarrow> platform_spec" where
  "addFailureDomainsToPlatformSpec legacyCfg vcenter spec =
     spec\<lparr>FailureDomains := FailureDomains spec @
       [\<lparr>fd_Name = [], Region = [], Zone = [], RegionAffinity = None, ZoneAffinity = None,
         Server = vcenter,
         Topology = \<lparr>Datacenter = ws_Datacenter (Workspace legacyCfg), ComputeCluster = [],
           Datastore = ws_DefaultDatastore (Workspace legacyCfg),
           Folder = ws_Folder (Workspace legacyCfg),
           ResourcePool = ws_ResourcePoolPath (Workspace legacyCfg)\<rparr>\<rparr>]\<rparr>"

definition convertIntreeToPlatformSpec ::
  "legacy_config \<Rightarrow> string \<Rightarrow> platform_spec \<Rightarrow> platform_spec" where
  "convertIntreeToPlatformSpec legacyCfg vcenter spec =
     (case legacy_Datacenters legacyCfg (ws_VCenterIP (Workspace legacyCfg)) of
        None \<Rightarrow> spec
      | Some dcs \<Rightarrow>
          addFailureDomainsToPlatformSpec legacyCfg vcenter
            (spec\<lparr>spec_VCenters := spec_VCenters spec @
               [\<lparr>spec_Server = vcenter, spec_Datacenters = split_on CHR '','' dcs\<rparr>]\<rparr>))"

text \<open>\<^verbatim>\<open>vCentersToMap\<close>: a later entry of the same server overwrites an earlier one.\<close>

definition vCentersToMap :: "vcenter_spec list \<Rightarrow> (string \<rightharpoonup> vcenter_spec)" where
  "vCentersToMap vcs = fold (\<lambda>v m. m(spec_Server v \<mapsto> v)) vcs Map.empty"

text \<open>The loop that adds the connected vCenters the specification does not list.\<close>

fun add_missing_vcenters ::
  "legacy_config \<Rightarrow> (string \<rightharpoonup> vcenter_spec) \<Rightarrow> vcenter list \<Rightarrow> platform_spec \<Rightarrow> platform_spec" where
  "add_missing_vcenters cfg known [] spec = spec"
| "add_missing_vcenters cfg known (vc # vcs) spec =
     add_missing_vcenters cfg known vcs
       (if known (VCenterName vc) = None
        then convertIntreeToPlatformSpec cfg (VCenterName vc) spec else spec)"

definition platform_spec_of :: "infrastructure \<Rightarrow> check_context \<Rightarrow> platform_spec" where
  "platform_spec_of infra ctx =
     (let spec = (case spec_VSphere infra of None \<Rightarrow> empty_spec | Some s \<Rightarrow> s) in
      case VMConfig ctx of
        None \<Rightarrow> spec
      | Some config \<Rightarrow>
        (case LegacyConfig config of
           None \<Rightarrow> spec
         | Some legacyCfg \<Rightarrow>
           (if length (spec_VCenters spec) \<noteq> 0 then
              let known = vCentersToMap (spec_VCenters spec);
                  spec = add_missing_vcenters legacyCfg known (map snd (VCenters ctx)) spec
              in if length (FailureDomains spec) = 0
                 then addFailureDomainsToPlatformSpec legacyCfg (ws_VCenterIP (Workspace legacyCfg)) spec
                 else spec
            else if length (VCenters ctx) = 1
            then convertIntreeToPlatformSpec legacyCfg (VCenterName (snd (hd (VCenters ctx)))) spec
            else spec)))"

definition ConvertToPlatformSpec :: "infrastructure \<Rightarrow> check_context \<Rightarrow> check_context" where
  "ConvertToPlatformSpec infra ctx = ctx\<lparr>PlatformSpec := Some (platform_spec_of infra ctx)\<rparr>"

section \<open>GetVCenter\<close>

definition LabelTopologyRegion :: string where
  "LabelTopologyRegion = ''topology.kubernetes.io/region''"
definition LabelTopologyZone :: string where
  "LabelTopologyZone = ''topology.kubernetes.io/zone''"
definition LabelFailureDomainBetaRegion :: string where
  "LabelFailureDomainBetaRegion = ''failure-domain.beta.kubernetes.io/region''"
definition LabelFailureDomainBetaZone :: string where
  "LabelFailureDomainBetaZone = ''failure-domain.beta.kubernetes.io/zone''"

definition label :: "node \<Rightarrow> string \<Rightarrow> string" where
  "label n k = (case Labels n k of None \<Rightarrow> [] | Some v \<Rightarrow> v)"

text \<open>The region and zone of a node, with the older beta labels as the fallback.\<close>

definition node_region :: "node \<Rightarrow> string" where
  "node_region n = (if length (label n LabelTopologyRegion) = 0
     then label n LabelFailureDomainBetaRegion else label n LabelTopologyRegion)"

definition node_zone :: "node \<Rightarrow> string" where
  "node_zone n = (if length (label n LabelTopologyZone) = 0
     then label n LabelFailureDomainBetaZone else label n LabelTopologyZone)"

definition vcenter_at :: "check_context \<Rightarrow> string \<Rightarrow> go_error + vcenter" where
  "vcenter_at ctx server =
     (case map_of (VCenters ctx) server of
        None \<Rightarrow> Inl (Errorf (''vCenter '' @ server @ '' not found''))
      | Some vc \<Rightarrow> Inr vc)"

text \<open>The failure domain loop: the server of the first domain with these labels, or \<open>''''\<close>.\<close>

fun fd_server :: "failure_domain list \<Rightarrow> string \<Rightarrow> string \<Rightarrow> string" where
  "fd_server [] region zone = []"
| "fd_server (fd # fds) region zone =
     (if Region fd = region \<and> Zone fd = zone then Server fd else fd_server fds region zone)"

text \<open>The fallback without failure domains: the only vCenter there is.\<close>

definition only_vcenter :: "check_context \<Rightarrow> node \<Rightarrow> go_error + vcenter" where
  "only_vcenter ctx n =
     (if 1 < length (VCenters ctx)
      then Inl (Errorf (''invalid number of configured vCenters detected: ''
             @ show_nat (length (VCenters ctx)) @ ''.  Expected only 1''))
      else case VCenters ctx of
        [] \<Rightarrow> Inl (Errorf (''unable to determine vcenter for node '' @ node_Name n))
      | (_, vc) # _ \<Rightarrow> Inr vc)"

definition first_domain :: "check_context \<Rightarrow> node \<Rightarrow> failure_domain list \<Rightarrow> go_error + vcenter" where
  "first_domain ctx n fds =
     (case fds of fd # _ \<Rightarrow> vcenter_at ctx (Server fd) | [] \<Rightarrow> only_vcenter ctx n)"

definition GetVCenter :: "check_context \<Rightarrow> node \<Rightarrow> go_error + vcenter" where
  "GetVCenter ctx n =
     (case PlatformSpec ctx of
        None \<Rightarrow> only_vcenter ctx n
      | Some spec \<Rightarrow>
        let fds = FailureDomains spec; region = node_region n; zone = node_zone n in
        if 0 < length region \<and> 0 < length zone then
          (if fd_server fds region zone \<noteq> [] then vcenter_at ctx (fd_server fds region zone)
           else if 1 < length fds
           then Inl (Errorf (''unable to determine vcenter for node '' @ node_Name n
                  @ '': no failure domain matched region='' @ region @ '' zone='' @ zone))
           else first_domain ctx n fds)
        else if 1 < length fds
        then Inl (Errorf (''failure domain labels missing from node '' @ node_Name n
               @ '' when there are more than one failure domains configured''))
        else first_domain ctx n fds)"

section \<open>Lemmas\<close>

lemma vcenter_at_Inr: "vcenter_at ctx s = Inr vc \<longleftrightarrow> map_of (VCenters ctx) s = Some vc"
  by (simp add: vcenter_at_def split: option.splits)

lemma fd_server_find:
  "fd_server fds r z = (case find (\<lambda>fd. Region fd = r \<and> Zone fd = z) fds of
     None \<Rightarrow> [] | Some fd \<Rightarrow> Server fd)"
  by (induction fds) auto

lemma fd_server_first_match:
  assumes "fd_server fds r z \<noteq> []"
  shows "\<exists>i < length fds. Region (fds ! i) = r \<and> Zone (fds ! i) = z
    \<and> Server (fds ! i) = fd_server fds r z
    \<and> (\<forall>j < i. \<not> (Region (fds ! j) = r \<and> Zone (fds ! j) = z))"
proof -
  obtain fd where fd: "find (\<lambda>fd. Region fd = r \<and> Zone fd = z) fds = Some fd"
    using assms by (auto simp: fd_server_find split: option.splits)
  then have "fd_server fds r z = Server fd" by (simp add: fd_server_find)
  with fd show ?thesis by (auto simp: find_Some_iff)
qed

lemma only_vcenter_Inr: "only_vcenter ctx n = Inr vc \<longleftrightarrow> (\<exists>name. VCenters ctx = [(name, vc)])"
  by (auto simp: only_vcenter_def split: list.splits if_splits)

lemma dom_vCentersToMap: "dom (vCentersToMap vcs) = spec_Server ` set vcs"
  unfolding vCentersToMap_def by (induction vcs rule: rev_induct) (simp_all del: fun_upd_apply)

lemma spec_VCenters_add [simp]:
  "spec_VCenters (addFailureDomainsToPlatformSpec cfg name spec) = spec_VCenters spec"
  by (simp add: addFailureDomainsToPlatformSpec_def)

text \<open>
  Where the workspace's vCenter has a section of its own, the loop adds every connected
  vCenter that was missing, and each added one comes with a failure domain.
\<close>

lemma add_missing_servers:
  assumes "legacy_Datacenters cfg (ws_VCenterIP (Workspace cfg)) = Some dcs"
  shows "map spec_Server (spec_VCenters (add_missing_vcenters cfg known vcs spec)) =
      map spec_Server (spec_VCenters spec)
      @ filter (\<lambda>s. known s = None) (map VCenterName vcs)"
    "map Server (FailureDomains (add_missing_vcenters cfg known vcs spec)) =
      map Server (FailureDomains spec)
      @ filter (\<lambda>s. known s = None) (map VCenterName vcs)"
  using assms
  by (induction vcs arbitrary: spec)
     (auto simp: convertIntreeToPlatformSpec_def addFailureDomainsToPlatformSpec_def)

lemma add_missing_no_section:
  assumes "legacy_Datacenters cfg (ws_VCenterIP (Workspace cfg)) = None"
  shows "add_missing_vcenters cfg known vcs spec = spec"
  using assms by (induction vcs arbitrary: spec) (auto simp: convertIntreeToPlatformSpec_def)

section \<open>Properties\<close>

text \<open>
  C18: With more than one failure domain, \<^verbatim>\<open>GetVCenter\<close> never guesses: the vCenter it returns
  is the connected one at the server of the first failure domain whose region and zone are the
  node's own (or its beta labels'), and a node without both labels, or with labels that no domain
  has, is an error.
\<close>

theorem GetVCenter_never_guesses:
  assumes "PlatformSpec ctx = Some spec" "fds = FailureDomains spec" "1 < length fds"
    and "GetVCenter ctx n = Inr vc"
  shows "node_region n \<noteq> [] \<and> node_zone n \<noteq> [] \<and>
    (\<exists>i < length fds. Region (fds ! i) = node_region n \<and> Zone (fds ! i) = node_zone n \<and>
       (\<forall>j < i. \<not> (Region (fds ! j) = node_region n \<and> Zone (fds ! j) = node_zone n)) \<and>
       map_of (VCenters ctx) (Server (fds ! i)) = Some vc)"
proof -
  have both: "node_region n \<noteq> []" "node_zone n \<noteq> []"
    and matched: "fd_server fds (node_region n) (node_zone n) \<noteq> []"
    and vc: "vcenter_at ctx (fd_server fds (node_region n) (node_zone n)) = Inr vc"
    using assms by (auto simp: GetVCenter_def Let_def split: if_splits)
  from fd_server_first_match [OF matched] both vc show ?thesis
    by (metis vcenter_at_Inr)
qed

definition sample_topology :: topology where
  "sample_topology = \<lparr>Datacenter = ''dc'', ComputeCluster = ''/dc/host/cl'', Datastore = ''/dc/datastore/ds'',
     Folder = ''/dc/vm/f'', ResourcePool = []\<rparr>"

definition sample_domain :: "string \<Rightarrow> string \<Rightarrow> failure_domain" where
  "sample_domain zone server = \<lparr>fd_Name = zone, Region = ''r'', Zone = zone, RegionAffinity = None,
     ZoneAffinity = None, Server = server, Topology = sample_topology\<rparr>"

definition sample_spec :: platform_spec where
  "sample_spec = \<lparr>spec_VCenters = [],
     FailureDomains = [sample_domain ''z1'' ''vc1'', sample_domain ''z2'' ''vc2'']\<rparr>"

definition sample_ctx :: check_context where
  "sample_ctx = \<lparr>VMConfig = None,
     VCenters = [(''vc1'', \<lparr>VCenterName = ''vc1'', Username = ''u''\<rparr>),
                 (''vc2'', \<lparr>VCenterName = ''vc2'', Username = ''u''\<rparr>)],
     PlatformSpec = Some sample_spec\<rparr>"

definition sample_node :: node where
  "sample_node = \<lparr>node_Name = ''n'',
     Labels = [LabelTopologyRegion \<mapsto> ''r'', LabelTopologyZone \<mapsto> ''z2''], ProviderID = []\<rparr>"

lemma sample_node_labels: "node_region sample_node = ''r''" "node_zone sample_node = ''z2''"
  by (simp_all add: node_region_def node_zone_def label_def sample_node_def LabelTopologyRegion_def
      LabelTopologyZone_def)

theorem GetVCenter_never_guesses_witness:
  "\<exists>i < length (FailureDomains sample_spec).
     Zone (FailureDomains sample_spec ! i) = node_zone sample_node"
proof -
  have "GetVCenter sample_ctx sample_node = Inr \<lparr>VCenterName = ''vc2'', Username = ''u''\<rparr>"
    by (simp add: GetVCenter_def sample_ctx_def sample_spec_def sample_node_labels sample_domain_def
        vcenter_at_def)
  moreover have "PlatformSpec sample_ctx = Some sample_spec" by (simp add: sample_ctx_def)
  moreover have "1 < length (FailureDomains sample_spec)" by (simp add: sample_spec_def)
  ultimately show ?thesis using GetVCenter_never_guesses [OF _ refl] by metis
qed

lemma GetVCenter_no_domain:
  assumes "PlatformSpec ctx = None \<or> (\<exists>spec. PlatformSpec ctx = Some spec \<and> FailureDomains spec = [])"
  shows "GetVCenter ctx n = only_vcenter ctx n"
  using assms by (auto simp: GetVCenter_def first_domain_def Let_def)

lemma GetVCenter_one_domain:
  assumes "PlatformSpec ctx = Some spec" "FailureDomains spec = [fd]"
  shows "GetVCenter ctx n = vcenter_at ctx (Server fd)"
  using assms by (auto simp: GetVCenter_def first_domain_def Let_def)

text \<open>
  With at most one failure domain the labels of a node do not matter: every node of the
  cluster resolves to the same vCenter, which is the one the domain names, or the only one there
  is when no domain is known. Whatever the number of domains, the vCenter returned is connected.
\<close>

theorem GetVCenter_single_domain_uniform:
  assumes "\<forall>spec. PlatformSpec ctx = Some spec \<longrightarrow> length (FailureDomains spec) \<le> 1"
    and "GetVCenter ctx n = Inr vc"
  shows "GetVCenter ctx n' = Inr vc \<and> vc \<in> snd ` set (VCenters ctx) \<and>
    (\<forall>spec fd. PlatformSpec ctx = Some spec \<and> FailureDomains spec = [fd]
       \<longrightarrow> map_of (VCenters ctx) (Server fd) = Some vc) \<and>
    ((\<forall>spec. PlatformSpec ctx = Some spec \<longrightarrow> FailureDomains spec = [])
       \<longrightarrow> map snd (VCenters ctx) = [vc])"
proof (cases "PlatformSpec ctx = None \<or> (\<exists>spec. PlatformSpec ctx = Some spec \<and> FailureDomains spec = [])")
  case True
  note no = GetVCenter_no_domain [OF True]
  obtain name where "VCenters ctx = [(name, vc)]"
    using assms(2) no only_vcenter_Inr by metis
  moreover from this have "GetVCenter ctx n' = Inr vc"
    using no only_vcenter_Inr by metis
  ultimately show ?thesis using True by auto
next
  case False
  then obtain spec where spec: "PlatformSpec ctx = Some spec" "FailureDomains spec \<noteq> []" by auto
  with assms(1) obtain fd where fd: "FailureDomains spec = [fd]"
    by (cases "FailureDomains spec") auto
  note one = GetVCenter_one_domain [OF spec(1) fd]
  with assms(2) have "map_of (VCenters ctx) (Server fd) = Some vc" by (simp add: vcenter_at_Inr)
  moreover from this have "vc \<in> snd ` set (VCenters ctx)"
    by (metis image_eqI map_of_SomeD snd_conv)
  ultimately show ?thesis using spec(1) fd one by (auto simp: vcenter_at_Inr)
qed

theorem GetVCenter_single_domain_uniform_witness:
  "GetVCenter \<lparr>VMConfig = None, VCenters = [(''vc1'', \<lparr>VCenterName = ''vc1'', Username = ''u''\<rparr>)],
     PlatformSpec = None\<rparr> sample_node = Inr \<lparr>VCenterName = ''vc1'', Username = ''u''\<rparr>"
  by (rule GetVCenter_single_domain_uniform [of _ "sample_node\<lparr>Labels := Map.empty\<rparr>", THEN conjunct1])
    (simp_all add: GetVCenter_no_domain only_vcenter_def)

text \<open>
  C19: A cluster installed with a legacy cloud configuration and one vCenter works without failure
  domains: after \<^verbatim>\<open>ConvertToPlatformSpec\<close> every node, labelled or not, resolves to that
  vCenter, whether or not the configuration has a section for the workspace's server.
\<close>

theorem legacy_single_vcenter_resolves:
  assumes "wf_context ctx" "VCenters ctx = [(name, vc)]"
    and "VMConfig ctx = Some config" "LegacyConfig config = Some cfg"
    and "spec_VSphere infra = None \<or> spec_VSphere infra = Some empty_spec"
  shows "GetVCenter (ConvertToPlatformSpec infra ctx) n = Inr vc"
proof -
  have spec: "(case spec_VSphere infra of None \<Rightarrow> empty_spec | Some s \<Rightarrow> s) = empty_spec"
    using assms(5) by auto
  have vc: "VCenterName vc = name" using assms(1,2) by (simp add: wf_context_def)
  let ?ctx = "ConvertToPlatformSpec infra ctx"
  have conv: "PlatformSpec ?ctx = Some (convertIntreeToPlatformSpec cfg name empty_spec)"
    "VCenters ?ctx = [(name, vc)]"
    using assms(2,3,4) vc
    by (simp_all add: ConvertToPlatformSpec_def platform_spec_of_def spec Let_def)
      (simp add: empty_spec_def)
  show ?thesis
  proof (cases "legacy_Datacenters cfg (ws_VCenterIP (Workspace cfg))")
    case None
    then have "PlatformSpec ?ctx = Some empty_spec" using conv(1)
      by (simp add: convertIntreeToPlatformSpec_def)
    then have "GetVCenter ?ctx n = only_vcenter ?ctx n"
      by (intro GetVCenter_no_domain) (simp add: empty_spec_def)
    then show ?thesis by (simp add: only_vcenter_def conv(2))
  next
    case (Some dcs)
    have "\<exists>fd. FailureDomains (convertIntreeToPlatformSpec cfg name empty_spec) = [fd] \<and> Server fd = name"
      by (simp add: convertIntreeToPlatformSpec_def Some addFailureDomainsToPlatformSpec_def empty_spec_def)
    then obtain fd where fd: "FailureDomains (convertIntreeToPlatformSpec cfg name empty_spec) = [fd]"
      "Server fd = name" by blast
    from GetVCenter_one_domain [OF conv(1) fd(1)] fd(2) show ?thesis
      by (simp add: vcenter_at_def conv(2))
  qed
qed

definition sample_legacy :: legacy_config where
  "sample_legacy = \<lparr>legacy_Datacenters = [''vc1'' \<mapsto> ''dc1,dc2''],
     Workspace = \<lparr>ws_VCenterIP = ''vc1'', ws_Datacenter = ''dc1'', ws_Folder = ''/dc1/vm/f'',
       ws_DefaultDatastore = ''ds'', ws_ResourcePoolPath = []\<rparr>\<rparr>"

definition sample_config :: vsphere_config where
  "sample_config = \<lparr>VirtualCenter = [(''vc1'', \<lparr>VCenterIP = ''vc1'', cfg_Datacenters = ''dc1,dc2'',
       InsecureFlag = True, cfg_User = ''u''\<rparr>)], LegacyConfig = Some sample_legacy\<rparr>"

definition sample_infrastructure :: infrastructure where
  "sample_infrastructure = \<lparr>CloudConfig_Name = ''c'', CloudConfig_Key = ''k'', spec_VSphere = None,
     PlatformStatus = Some ''VSphere''\<rparr>"

theorem legacy_single_vcenter_resolves_witness:
  "GetVCenter (ConvertToPlatformSpec sample_infrastructure
     \<lparr>VMConfig = Some sample_config, VCenters = [(''vc1'', \<lparr>VCenterName = ''vc1'', Username = ''u''\<rparr>)],
      PlatformSpec = None\<rparr>) (sample_node\<lparr>Labels := Map.empty\<rparr>)
   = Inr \<lparr>VCenterName = ''vc1'', Username = ''u''\<rparr>"
  by (rule legacy_single_vcenter_resolves [where cfg = sample_legacy and config = sample_config])
    (simp_all add: wf_context_def sample_config_def sample_infrastructure_def)

text \<open>
  With a legacy configuration beside a platform specification that lists vCenters, the
  conversion keeps every vCenter and failure domain of the specification, in order, always leaves
  at least one failure domain, and, when the workspace's server has a section, lists every
  connected vCenter, each added one with a failure domain of its own.
\<close>

theorem ConvertToPlatformSpec_covers:
  assumes "VMConfig ctx = Some config" "LegacyConfig config = Some cfg"
    and "spec_VSphere infra = Some spec" "spec_VCenters spec \<noteq> []"
    and "PlatformSpec (ConvertToPlatformSpec infra ctx) = Some spec'"
  shows "prefix (map spec_Server (spec_VCenters spec)) (map spec_Server (spec_VCenters spec')) \<and>
    prefix (map Server (FailureDomains spec)) (map Server (FailureDomains spec')) \<and>
    FailureDomains spec' \<noteq> [] \<and>
    (legacy_Datacenters cfg (ws_VCenterIP (Workspace cfg)) \<noteq> None \<longrightarrow>
       (\<forall>vc \<in> snd ` set (VCenters ctx).
          VCenterName vc \<in> spec_Server ` set (spec_VCenters spec') \<and>
          (VCenterName vc \<notin> spec_Server ` set (spec_VCenters spec) \<longrightarrow>
             VCenterName vc \<in> Server ` set (FailureDomains spec'))))"
proof -
  let ?known = "vCentersToMap (spec_VCenters spec)"
  let ?vcs = "map snd (VCenters ctx)"
  define s1 where "s1 = add_missing_vcenters cfg ?known ?vcs spec"
  have spec': "spec' = (if FailureDomains s1 = []
      then addFailureDomainsToPlatformSpec cfg (ws_VCenterIP (Workspace cfg)) s1 else s1)"
    using assms by (auto simp: ConvertToPlatformSpec_def platform_spec_of_def s1_def Let_def)
  have known: "?known x = None \<longleftrightarrow> x \<notin> spec_Server ` set (spec_VCenters spec)" for x
    by (metis dom_vCentersToMap domIff)
  have vcs': "spec_VCenters spec' = spec_VCenters s1" by (simp add: spec')
  have fds': "set (FailureDomains s1) \<subseteq> set (FailureDomains spec')"
    "prefix (FailureDomains s1) (FailureDomains spec')" "FailureDomains spec' \<noteq> []"
    by (auto simp: spec' addFailureDomainsToPlatformSpec_def)
  show ?thesis
  proof (cases "legacy_Datacenters cfg (ws_VCenterIP (Workspace cfg))")
    case None
    then have "s1 = spec" by (simp add: s1_def add_missing_no_section)
    with None fds' vcs' show ?thesis by (auto intro: map_mono_prefix)
  next
    case (Some dcs)
    note added = add_missing_servers [OF Some, of ?known ?vcs spec, folded s1_def]
    have domains: "prefix (map Server (FailureDomains spec)) (map Server (FailureDomains spec'))"
      using added(2) map_mono_prefix [OF fds'(2), of Server] by (metis prefix_order.trans prefixI)
    have servers: "prefix (map spec_Server (spec_VCenters spec)) (map spec_Server (spec_VCenters spec'))"
      by (simp add: vcs' added(1))
    have "spec_Server ` set (spec_VCenters spec') =
        spec_Server ` set (spec_VCenters spec) \<union> {x \<in> VCenterName ` set ?vcs. ?known x = None}"
      using arg_cong [OF added(1), of set] by (auto simp: vcs')
    moreover have "{x \<in> VCenterName ` set ?vcs. ?known x = None} \<subseteq> Server ` set (FailureDomains spec')"
      using arg_cong [OF added(2), of set] fds'(1) by auto
    ultimately have listed: "\<forall>vc \<in> snd ` set (VCenters ctx).
          VCenterName vc \<in> spec_Server ` set (spec_VCenters spec') \<and>
          (VCenterName vc \<notin> spec_Server ` set (spec_VCenters spec) \<longrightarrow>
             VCenterName vc \<in> Server ` set (FailureDomains spec'))"
      using known by (simp add: subset_iff)
    from servers domains fds'(3) listed show ?thesis by blast
  qed
qed

definition spec_listing_vc2 :: platform_spec where
  "spec_listing_vc2 = \<lparr>spec_VCenters = [\<lparr>spec_Server = ''vc2'', spec_Datacenters = [''dc'']\<rparr>],
     FailureDomains = []\<rparr>"

theorem ConvertToPlatformSpec_covers_witness:
  "\<exists>spec'. PlatformSpec (ConvertToPlatformSpec
      (sample_infrastructure\<lparr>spec_VSphere := Some spec_listing_vc2\<rparr>)
      \<lparr>VMConfig = Some sample_config, VCenters = [(''vc1'', \<lparr>VCenterName = ''vc1'', Username = ''u''\<rparr>)],
       PlatformSpec = None\<rparr>) = Some spec' \<and> ''vc1'' \<in> spec_Server ` set (spec_VCenters spec')"
proof -
  let ?infra = "sample_infrastructure\<lparr>spec_VSphere := Some spec_listing_vc2\<rparr>"
  let ?ctx = "\<lparr>VMConfig = Some sample_config, VCenters = [(''vc1'', \<lparr>VCenterName = ''vc1'', Username = ''u''\<rparr>)],
       PlatformSpec = None\<rparr>"
  obtain spec' where spec': "PlatformSpec (ConvertToPlatformSpec ?infra ?ctx) = Some spec'"
    by (simp add: ConvertToPlatformSpec_def)
  have "LegacyConfig sample_config = Some sample_legacy" "spec_VCenters spec_listing_vc2 \<noteq> []"
    by (simp_all add: sample_config_def spec_listing_vc2_def)
  from ConvertToPlatformSpec_covers [of ?ctx sample_config sample_legacy ?infra, OF _ this(1) _ this(2) spec']
  show ?thesis using spec' by (simp add: sample_legacy_def)
qed

end
