(* ===== verification/Operator.thy ===== *)
theory Operator
  imports Deprecation Backoff ResultCollector CheckContext
begin

text \<open>
  The controller of pkg/operator/operator.go: \<^verbatim>\<open>sync\<close> and everything it calls, with the
  state it keeps between calls (the controller's \<^verbatim>\<open>oldManagedState\<close>, \<^verbatim>\<open>lastCheck\<close>,
  \<^verbatim>\<open>nextCheck\<close> and \<^verbatim>\<open>backoff\<close>, and the package variable \<^verbatim>\<open>log.Silenced\<close>).

  What one call of \<^verbatim>\<open>sync\<close> reads from outside is the record \<open>sync_input\<close>: the answers of
  the API listers, the two readings of the clock, the jitter draws, the iteration orders of the
  maps it ranges over, the answer of the status update, and the vSphere checker
  (\<^verbatim>\<open>vSphereCheckerInterface\<close>), a function from \<^verbatim>\<open>log.Silenced\<close> and the empty
  \<^verbatim>\<open>ClusterInfo\<close> to its result and the \<^verbatim>\<open>ClusterInfo\<close> it filled. What it does to the
  outside is the list of effects. Times are nanoseconds since Go's zero time.
\<close>

section \<open>State, input and effects\<close>

definition Managed :: string where "Managed = ''Managed''"
definition Removed :: string where "Removed = ''Removed''"
definition VSpherePlatformType :: string where "VSpherePlatformType = ''VSphere''"
definition controllerName :: string where "controllerName = ''VSphereProblemDetectorController''"
definition silencedCap :: duration where "silencedCap = hour * 24"

record operator_state =
  oldManagedState :: string
  lastCheck :: int
  nextCheck :: int
  op_backoff :: backoff
  Silenced :: bool

record clusterCheckResult =
  checkError :: "go_error option"
  blockUpgrade :: bool
  blockUpgradeReason :: string

record condition =
  cnd_Type :: string
  cnd_Status :: string
  cnd_Message :: string
  cnd_Reason :: string

datatype effect =
    WarningEvent string string
  | NormalEvent string string
  | SyncErrorGauge nat
  | QueueAddAfter duration
  | UpdateStatus condition
  | ProcessExit

type_synonym checker = "bool \<Rightarrow> cluster_info \<Rightarrow> (go_error + result_collector) \<times> cluster_info"

record sync_input =
  in_OperatorState :: "go_error + string"
  in_Infrastructure :: "go_error + infrastructure"
  in_ClusterCSIDriver :: "go_error + string"
  in_nowSync :: int
  in_nowCheck :: int
  in_draw1 :: rat
  in_draw2 :: rat
  in_checker :: checker
  in_names :: "string list"
  in_hosts :: "string list"
  in_hws :: "string list"
  in_updateErr :: "go_error option"

datatype sync_result = Returned "go_error option" | Exited

definition NewVSphereProblemDetectorController :: operator_state where
  "NewVSphereProblemDetectorController =
     \<lparr>oldManagedState = [], lastCheck = 0, nextCheck = 0, op_backoff = defaultBackoff,
      Silenced = False\<rparr>"

section \<open>The functions sync calls\<close>

definition platformSupported :: "go_error + infrastructure \<Rightarrow> go_error + bool" where
  "platformSupported answer =
     (case answer of
        Inl err \<Rightarrow> Inl err
      | Inr infra \<Rightarrow>
        (case PlatformStatus infra of
           None \<Rightarrow> Inr False
         | Some t \<Rightarrow> if t \<noteq> VSpherePlatformType then Inr False else Inr True))"

definition checkStateChange :: "string \<Rightarrow> operator_state \<Rightarrow> bool \<times> operator_state" where
  "checkStateChange ManagedState c =
     (if oldManagedState c = [] then (False, c\<lparr>oldManagedState := ManagedState\<rparr>)
      else if (oldManagedState c = Managed \<and> ManagedState = Removed)
            \<or> (oldManagedState c = Removed \<and> ManagedState = Managed)
      then (True, c\<lparr>oldManagedState := ManagedState\<rparr>)
      else (False, c\<lparr>oldManagedState := ManagedState\<rparr>))"

definition reportResults :: "checkResult list \<Rightarrow> effect list" where
  "reportResults res =
     map (\<lambda>r. case res_Error r of
        Some e \<Rightarrow> WarningEvent (''FailedVSphere'' @ res_Name r) (error_text e)
      | None \<Rightarrow> NormalEvent (''SucceededVSphere'' @ res_Name r) ''Check succeeded'') res"

definition runChecks ::
  "sync_input \<Rightarrow> operator_state \<Rightarrow> cluster_info
   \<Rightarrow> (duration \<times> go_error option) \<times> operator_state \<times> cluster_info \<times> effect list" where
  "runChecks inp c clusterInfo =
     (let (nextErrorDelay, b) = Step (in_draw1 inp) (op_backoff c);
          c = c\<lparr>op_backoff := b, lastCheck := in_nowCheck inp\<rparr>;
          (answer, clusterInfo) = in_checker inp (Silenced c) clusterInfo
      in case answer of
           Inl err \<Rightarrow> ((nextErrorDelay, Some err), c, clusterInfo, [])
         | Inr resultCollector \<Rightarrow>
           let (res, checkErr) = Collect_results resultCollector (in_names inp);
               effs = (if \<not> Silenced c then reportResults res else [])
           in if checkErr \<noteq> None \<and> \<not> Silenced c
              then ((nextErrorDelay, checkErr), c, clusterInfo, effs)
              else ((if Silenced c then silencedCap else Cap defaultBackoff, checkErr),
                    c\<lparr>op_backoff := defaultBackoff\<rparr>, clusterInfo, effs))"

definition runSyncChecks ::
  "sync_input \<Rightarrow> operator_state \<Rightarrow> cluster_info
   \<Rightarrow> (duration \<times> clusterCheckResult \<times> bool) \<times> operator_state \<times> effect list" where
  "runSyncChecks inp c clusterInfo =
     (if \<not> nextCheck c < in_nowSync inp
      then ((0, \<lparr>checkError = None, blockUpgrade = False, blockUpgradeReason = []\<rparr>, False), c, [])
      else
        let ((dly, err), c, clusterInfo, effs) = runChecks inp c clusterInfo;
            gauge = SyncErrorGauge (if err \<noteq> None then 1 else 0);
            (block, reason) = checkForDeprecation clusterInfo (in_hosts inp) (in_hws inp);
            last = \<lparr>checkError = err, blockUpgrade = block, blockUpgradeReason = reason\<rparr>
        in if block \<and> err = None \<and> \<not> Silenced c
           then let (dly, b) = Step (in_draw2 inp) (op_backoff c)
                in ((dly, last, True), c\<lparr>op_backoff := b\<rparr>, effs @ [gauge])
           else ((dly, last, True), c, effs @ [gauge]))"

definition availableCnd :: "clusterCheckResult \<Rightarrow> condition" where
  "availableCnd lastCheckResult =
     (let cnd = \<lparr>cnd_Type = controllerName @ ''Available'', cnd_Status = ''True'',
                 cnd_Message = [], cnd_Reason = []\<rparr>
      in case checkError lastCheckResult of
           None \<Rightarrow> cnd
         | Some e \<Rightarrow> cnd\<lparr>cnd_Message := error_text e, cnd_Reason := ''SyncFailed''\<rparr>)"

definition updateConditions ::
  "sync_input \<Rightarrow> clusterCheckResult \<Rightarrow> go_error option \<times> effect list" where
  "updateConditions inp lastCheckResult =
     (in_updateErr inp, [UpdateStatus (availableCnd lastCheckResult)])"

definition sync ::
  "sync_input \<Rightarrow> operator_state \<Rightarrow> sync_result \<times> operator_state \<times> effect list" where
  "sync inp c =
     (case in_OperatorState inp of
        Inl err \<Rightarrow> (Returned (Some err), c, [])
      | Inr managementState \<Rightarrow>
        if managementState \<noteq> Managed then (Returned None, c, [])
        else case platformSupported (in_Infrastructure inp) of
          Inl err \<Rightarrow> (Returned (Some err), c, [])
        | Inr supported \<Rightarrow>
          if \<not> supported then (Returned None, c, [])
          else case in_ClusterCSIDriver inp of
            Inl err \<Rightarrow> (Returned (Some err), c, [])
          | Inr driverState \<Rightarrow>
            let c = c\<lparr>Silenced := (driverState = Removed)\<rparr>;
                (changed, c) = checkStateChange driverState c
            in if changed then (Exited, c, [ProcessExit])
               else
                 let ((dly, lastCheckResult, checkPerformed), c, effs) =
                       runSyncChecks inp c NewClusterInfo
                 in if \<not> checkPerformed then (Returned None, c, effs)
                    else
                      let c = c\<lparr>nextCheck := lastCheck c + dly\<rparr>;
                          (err, effs') = updateConditions inp lastCheckResult
                      in (Returned err, c, effs @ [QueueAddAfter dly] @ effs'))"

section \<open>The gate in front of the checks\<close>

text \<open>The state in which \<^verbatim>\<open>runSyncChecks\<close> is called, when \<^verbatim>\<open>sync\<close> gets that far.\<close>

definition sync_admits :: "sync_input \<Rightarrow> operator_state \<Rightarrow> operator_state option" where
  "sync_admits inp c =
     (case (in_OperatorState inp, platformSupported (in_Infrastructure inp), in_ClusterCSIDriver inp) of
        (Inr m, Inr True, Inr d) \<Rightarrow>
          if m = Managed \<and> \<not> fst (checkStateChange d c)
          then Some (c\<lparr>Silenced := (d = Removed), oldManagedState := d\<rparr>) else None
      | _ \<Rightarrow> None)"

text \<open>The check a call of \<^verbatim>\<open>sync\<close> performs: the state it starts from, delay and result.\<close>

definition performed_check ::
  "sync_input \<Rightarrow> operator_state \<Rightarrow> (duration \<times> clusterCheckResult) option" where
  "performed_check inp c =
     (case sync_admits inp c of
        None \<Rightarrow> None
      | Some c' \<Rightarrow>
        (case fst (runSyncChecks inp c' NewClusterInfo) of
           (dly, r, performed) \<Rightarrow> if performed then Some (dly, r) else None))"

lemma checkStateChange_Silenced:
  "checkStateChange d (c\<lparr>Silenced := b\<rparr>) =
    (fst (checkStateChange d c), c\<lparr>Silenced := b, oldManagedState := d\<rparr>)"
  by (simp add: checkStateChange_def)

lemma sync_admitted:
  assumes "sync_admits inp c = Some c'"
  shows "sync inp c =
    (case runSyncChecks inp c' NewClusterInfo of
       ((dly, r, performed), c'', effs) \<Rightarrow>
         if \<not> performed then (Returned None, c'', effs)
         else (Returned (in_updateErr inp), c''\<lparr>nextCheck := lastCheck c'' + dly\<rparr>,
               effs @ [QueueAddAfter dly, UpdateStatus (availableCnd r)]))"
  using assms
  by (auto simp: sync_def sync_admits_def checkStateChange_Silenced updateConditions_def Let_def
      split: sum.splits if_splits bool.splits prod.splits)

lemma sync_refused:
  assumes "sync_admits inp c = None"
  shows "lastCheck (fst (snd (sync inp c))) = lastCheck c"
    "nextCheck (fst (snd (sync inp c))) = nextCheck c"
    "op_backoff (fst (snd (sync inp c))) = op_backoff c"
    "set (snd (snd (sync inp c))) \<subseteq> {ProcessExit}"
  using assms
  by (auto simp: sync_def sync_admits_def checkStateChange_Silenced Let_def
      split: sum.splits if_splits bool.splits prod.splits)

end
