(* ===== verification/Startup.thy ===== *)
theory Startup
  imports Operator
begin

text \<open>
  Start-up and the code around the controller: \<^verbatim>\<open>RunOperator\<close> of pkg/operator/starter.go with
  the informers \<^verbatim>\<open>NewVSphereProblemDetectorController\<close> takes from its factories, the accessors of
  pkg/operator/operatorclient.go, the listers of pkg/operator/kubeclient.go and the level a message
  is logged at (pkg/log/log.go). The client constructors, the API machinery's conversions and the
  listers are parameters.
\<close>

section \<open>Informers\<close>

definition operatorNamespace :: string where "operatorNamespace = ''openshift-cluster-storage-operator''"
definition CloudConfigNamespace :: string where "CloudConfigNamespace = ''openshift-config''"

datatype informer_factory =
    CsiConfigInformers
  | KubeInformers
  | ConfigInformers
  | OperatorInformer
  | OperatorDynamicInformer

text \<open>
  An informer is a resource of a factory; the Kubernetes factory is one for each of the namespaces it
  was made for, and asking it for another namespace gives \<^verbatim>\<open>nil\<close>.
\<close>

record informer =
  inf_factory :: informer_factory
  inf_namespace :: "string option"
  inf_resource :: string

definition kube_namespaces :: "string list" where
  "kube_namespaces = [operatorNamespace, CloudConfigNamespace, '''']"

text \<open>The informers whose events call \<^verbatim>\<open>sync\<close>, and for whose caches the controller waits.\<close>

definition controller_informers :: "informer list" where
  "controller_informers =
     [\<lparr>inf_factory = ConfigInformers, inf_namespace = None, inf_resource = ''Infrastructures''\<rparr>,
      \<lparr>inf_factory = KubeInformers, inf_namespace = Some operatorNamespace, inf_resource = ''Secrets''\<rparr>,
      \<lparr>inf_factory = KubeInformers, inf_namespace = Some '''', inf_resource = ''Nodes''\<rparr>,
      \<lparr>inf_factory = KubeInformers, inf_namespace = Some '''', inf_resource = ''PersistentVolumes''\<rparr>,
      \<lparr>inf_factory = KubeInformers, inf_namespace = Some '''', inf_resource = ''StorageClasses''\<rparr>,
      \<lparr>inf_factory = KubeInformers, inf_namespace = Some CloudConfigNamespace, inf_resource = ''ConfigMaps''\<rparr>,
      \<lparr>inf_factory = OperatorInformer, inf_namespace = None, inf_resource = ''ClusterCSIDrivers''\<rparr>]"

section \<open>RunOperator\<close>

record start_env =
  st_kubeClient :: "go_error option"
  st_csiConfigClient :: "go_error option"
  st_operatorClient :: "go_error option"
  st_configClient :: "go_error option"

datatype start_event = StartInformer informer_factory | RunController string nat

definition RunOperator :: "start_env \<Rightarrow> go_error option \<times> start_event list" where
  "RunOperator env =
     (case st_kubeClient env of
        Some err \<Rightarrow> (Some err, [])
      | None \<Rightarrow>
        (case st_csiConfigClient env of
           Some err \<Rightarrow> (Some err, [])
         | None \<Rightarrow>
           (case st_operatorClient env of
              Some err \<Rightarrow> (Some err, [])
            | None \<Rightarrow>
              (case st_configClient env of
                 Some err \<Rightarrow> (Some err, [])
               | None \<Rightarrow>
                   (None,
                    map StartInformer [CsiConfigInformers, KubeInformers, ConfigInformers, OperatorInformer,
                      OperatorDynamicInformer]
                    @ map (\<lambda>controller. RunController controller 1) [''logLevelController'', ''operator''])))))"

text \<open>
  Everything the controller waits for is running: if \<^verbatim>\<open>RunOperator\<close> starts the controller at all,
  the factory of each informer has been started before it, and each namespace asked for is one the
  Kubernetes factory was made for. When a client cannot be made nothing is started.
\<close>

theorem informers_started_before_controller:
  assumes "RunOperator env = (err, events)"
  shows "(err \<noteq> None \<longrightarrow> events = []) \<and>
    (err = None \<longrightarrow> (\<forall>i \<in> set controller_informers.
       (\<exists>before after. events = before @ RunController ''operator'' 1 # after \<and>
          StartInformer (inf_factory i) \<in> set before) \<and>
       (\<forall>ns. inf_namespace i = Some ns \<longrightarrow> ns \<in> set kube_namespaces)))"
proof -
  let ?before = "map StartInformer [CsiConfigInformers, KubeInformers, ConfigInformers, OperatorInformer,
    OperatorDynamicInformer] @ [RunController ''logLevelController'' 1]"
  have "events = ?before @ RunController ''operator'' 1 # []" if "err = None"
    using assms that by (auto simp: RunOperator_def split: option.splits)
  moreover have "StartInformer (inf_factory i) \<in> set ?before" for i
    by (cases "inf_factory i") simp_all
  moreover have "ns \<in> set kube_namespaces"
    if "i \<in> set controller_informers" "inf_namespace i = Some ns" for i ns
    using that by (auto simp: controller_informers_def kube_namespaces_def)
  moreover have "events = []" if "err \<noteq> None"
    using assms that by (auto simp: RunOperator_def split: option.splits)
  ultimately show ?thesis by metis
qed

definition all_clients :: start_env where
  "all_clients = \<lparr>st_kubeClient = None, st_csiConfigClient = None, st_operatorClient = None, st_configClient = None\<rparr>"

theorem informers_started_before_controller_witness:
  "\<exists>before after. snd (RunOperator all_clients) = before @ RunController ''operator'' 1 # after \<and>
     StartInformer ConfigInformers \<in> set before"
proof -
  have "RunOperator all_clients = (None, snd (RunOperator all_clients))"
    by (simp add: RunOperator_def all_clients_def)
  from informers_started_before_controller [OF this] show ?thesis
    by (force simp: controller_informers_def)
qed

section \<open>The operator client\<close>

text \<open>
  \<open>from\<close> converts the unstructured object, \<open>extract\<close> the fields of one field manager; the parts
  of the result are pointers, and an absent one gives no configuration and no error.
\<close>

definition extract_part ::
  "('o \<Rightarrow> go_error + 's) \<Rightarrow> ('s \<Rightarrow> string \<Rightarrow> go_error + 'c option) \<Rightarrow> 'o \<Rightarrow> string
   \<Rightarrow> go_error + 'c option" where
  "extract_part from extract obj fieldManager =
     (case from obj of
        Inl err \<Rightarrow> Inl (Errorf (''unable to convert to Storage: '' @ error_text err))
      | Inr castObj \<Rightarrow>
        (case extract castObj fieldManager of
           Inl err \<Rightarrow> Inl (Errorf (''unable to extract fields for '' @ quote fieldManager @ '': '' @ error_text err))
         | Inr None \<Rightarrow> Inr None
         | Inr (Some part) \<Rightarrow> Inr (Some part)))"

definition extractOperatorSpec ::
  "('o \<Rightarrow> go_error + 's) \<Rightarrow> ('s \<Rightarrow> string \<Rightarrow> go_error + 'c option) \<Rightarrow> 'o \<Rightarrow> string
   \<Rightarrow> go_error + 'c option" where
  "extractOperatorSpec = extract_part"

definition extractOperatorStatus ::
  "('o \<Rightarrow> go_error + 's) \<Rightarrow> ('s \<Rightarrow> string \<Rightarrow> go_error + 'c option) \<Rightarrow> 'o \<Rightarrow> string
   \<Rightarrow> go_error + 'c option" where
  "extractOperatorStatus = extract_part"

text \<open>The client is the library's for the cluster-scoped resource, with the two accessors.\<close>

definition NewOperatorClient where
  "NewOperatorClient newClusterScopedOperatorClient from extractStorage extractStorageStatus kubeConfig =
     newClusterScopedOperatorClient kubeConfig ''storages'' ''Storage''
       (extractOperatorSpec from extractStorage) (extractOperatorStatus from extractStorageStatus)"

section \<open>The listers and the log\<close>

definition infrastructureName :: string where "infrastructureName = ''cluster''"

record ('sc, 'pv) listers =
  infraLister :: "string \<Rightarrow> go_error + infrastructure"
  nodeLister :: "go_error + node list"
  scLister :: "go_error + 'sc list"
  pvLister :: "go_error + 'pv list"

definition GetInfrastructure :: "('sc, 'pv) listers \<Rightarrow> go_error + infrastructure" where
  "GetInfrastructure c = infraLister c infrastructureName"

definition ListNodes :: "('sc, 'pv) listers \<Rightarrow> go_error + node list" where
  "ListNodes c = nodeLister c"

definition ListStorageClasses :: "('sc, 'pv) listers \<Rightarrow> go_error + 'sc list" where
  "ListStorageClasses c = scLister c"

definition ListPVs :: "('sc, 'pv) listers \<Rightarrow> go_error + 'pv list" where
  "ListPVs c = pvLister c"

datatype log_level = Info | Error

definition Logf :: "operator_state \<Rightarrow> string \<Rightarrow> log_level \<times> string" where
  "Logf c message = (if Silenced c then (Info, message) else (Error, message))"

end
