(* ===== verification/InfraChecks.thy ===== *)
theory InfraChecks
  imports CheckContext
begin

text \<open>
  The two checks that compare the Infrastructure resource with the cloud provider
  configuration: \<^verbatim>\<open>CheckInfraConfig\<close> of pkg/check/infra_config.go and
  \<^verbatim>\<open>CheckDatacenterConsistency\<close> of pkg/check/datacenter_consistency.go. The answer of
  \<^verbatim>\<open>GetInfrastructure\<close> is an argument; \<^verbatim>\<open>cfg.VirtualCenter\<close> is the association list of the
  context, in the order the runtime ranges over it.
\<close>

definition CloudConfigNamespace :: string where "CloudConfigNamespace = ''openshift-config''"

section \<open>CheckInfraConfig\<close>

fun containsString :: "string list \<Rightarrow> string \<Rightarrow> bool" where
  "containsString [] searchStr = False"
| "containsString (val # array) searchStr =
     (if val = searchStr then True else containsString array searchStr)"

definition getInfraVCenterNames :: "platform_spec \<Rightarrow> string list" where
  "getInfraVCenterNames spec = map spec_Server (spec_VCenters spec)"

definition getProviderConfigVCenterNames :: "vsphere_config \<Rightarrow> string list" where
  "getProviderConfigVCenterNames cfg = map fst (VirtualCenter cfg)"

fun missing_vcenters ::
  "infrastructure \<Rightarrow> platform_spec \<Rightarrow> vsphere_config \<Rightarrow> vcenter_spec list \<Rightarrow> go_error list" where
  "missing_vcenters infra spec cfg [] = []"
| "missing_vcenters infra spec cfg (v # vs) =
     (if map_of (VirtualCenter cfg) (spec_Server v) = None
      then [Errorf (''Infra-Config: Infrastructure instance and cloud provider ConfigMap ''
              @ CloudConfigNamespace @ ''/'' @ CloudConfig_Name infra
              @ '' do not match.  Infrastructure has '' @ show_strings (getInfraVCenterNames spec)
              @ '' and the ConfigMap has '' @ show_strings (getProviderConfigVCenterNames cfg))]
      else []) @ missing_vcenters infra spec cfg vs"

definition checkVCenters ::
  "infrastructure \<Rightarrow> platform_spec \<Rightarrow> vsphere_config \<Rightarrow> go_error list" where
  "checkVCenters infra spec cfg =
     (if length (spec_VCenters spec) \<noteq> length (VirtualCenter cfg)
      then [Errorf (''Infra-Config: Infrastructure instance and cloud provider ConfigMap ''
              @ CloudConfigNamespace @ ''/'' @ CloudConfig_Name infra
              @ '' do not match.  Infrastructure has '' @ show_nat (length (spec_VCenters spec))
              @ '' vCenters '' @ show_strings (getInfraVCenterNames spec)
              @ '' and the ConfigMap has '' @ show_nat (length (VirtualCenter cfg))
              @ '' vCenters '' @ show_strings (getProviderConfigVCenterNames cfg))]
      else missing_vcenters infra spec cfg (spec_VCenters spec))"

text \<open>The two loops of \<^verbatim>\<open>checkFailureDomains\<close>; \<open>found\<close> is the map \<^verbatim>\<open>foundVCs\<close>.\<close>

fun domain_loop ::
  "platform_spec \<Rightarrow> failure_domain list \<Rightarrow> (string \<Rightarrow> bool) \<Rightarrow> go_error list \<times> (string \<Rightarrow> bool)" where
  "domain_loop spec [] found = ([], found)"
| "domain_loop spec (fd # fds) found =
     (if \<not> containsString (getInfraVCenterNames spec) (Server fd)
      then let (errs, found') = domain_loop spec fds found
           in (Errorf (''Infra-Config: Infrastructure failure domain '' @ fd_Name fd
                 @ '' references the server '' @ Server fd
                 @ '' but is not found in the vCenter section ''
                 @ show_strings (getInfraVCenterNames spec)) # errs, found')
      else domain_loop spec fds (found(Server fd := True)))"

fun unused_loop :: "(string \<Rightarrow> bool) \<Rightarrow> vcenter_spec list \<Rightarrow> go_error list" where
  "unused_loop found [] = []"
| "unused_loop found (v # vs) =
     (if found (spec_Server v) \<noteq> True
      then [Errorf (''Infra-Config: vCenter '' @ spec_Server v
              @ '' is configured in the infrastructure instance but not used by any failure domains'')]
      else []) @ unused_loop found vs"

definition checkFailureDomains :: "platform_spec \<Rightarrow> go_error list" where
  "checkFailureDomains spec =
     (let (errs, found) = domain_loop spec (FailureDomains spec) (\<lambda>_. False)
      in errs @ unused_loop found (spec_VCenters spec))"

definition CheckInfraConfig ::
  "go_error + infrastructure \<Rightarrow> vsphere_config \<Rightarrow> go_error option" where
  "CheckInfraConfig answer cfg =
     (case answer of
        Inl err \<Rightarrow> Some err
      | Inr infra \<Rightarrow>
        (case spec_VSphere infra of
           None \<Rightarrow> None
         | Some spec \<Rightarrow>
           if length (FailureDomains spec) = 0 then None
           else let errs = checkVCenters infra spec cfg @ checkFailureDomains spec
                in if 0 < length errs then Some (join errs) else None))"

section \<open>CheckDatacenterConsistency\<close>

definition parseDatacenters :: "string \<Rightarrow> string list" where
  "parseDatacenters raw = filter (\<lambda>dc. dc \<noteq> []) (map trim_space (split_on CHR '','' raw))"

fun config_datacenters :: "vsphere_config \<Rightarrow> failure_domain list \<Rightarrow> go_error list" where
  "config_datacenters cfg [] = []"
| "config_datacenters cfg (fd # fds) =
     (case map_of (VirtualCenter cfg) (Server fd) of
        None \<Rightarrow> []
      | Some vcConfig \<Rightarrow>
          if \<not> containsString (parseDatacenters (cfg_Datacenters vcConfig)) (Datacenter (Topology fd))
          then [Errorf (''Datacenter-Consistency: failure domain '' @ quote (fd_Name fd)
                  @ '' (infrastructure.config.openshift.io/cluster) requires datacenter ''
                  @ quote (Datacenter (Topology fd)) @ '' on vCenter '' @ quote (Server fd)
                  @ '', but it is not listed in the cloud provider config (datacenters = ''
                  @ quote (cfg_Datacenters vcConfig)
                  @ '' in vsphere-csi-config-secret, namespace openshift-cluster-csi-drivers). Add ''
                  @ quote (Datacenter (Topology fd))
                  @ '' to the datacenters list in the cloud-provider-config ConfigMap in the ''
                  @ CloudConfigNamespace @ '' namespace.'')]
          else []) @ config_datacenters cfg fds"

text \<open>The inner loop stops at the first vCenter of that server.\<close>

fun spec_datacenter :: "failure_domain \<Rightarrow> vcenter_spec list \<Rightarrow> go_error list" where
  "spec_datacenter fd [] = []"
| "spec_datacenter fd (vc # vcs) =
     (if spec_Server vc = Server fd
      then (if \<not> containsString (spec_Datacenters vc) (Datacenter (Topology fd))
            then [Errorf (''Datacenter-Consistency: failure domain '' @ quote (fd_Name fd)
                    @ '' references datacenter '' @ quote (Datacenter (Topology fd))
                    @ '' on vCenter '' @ quote (Server fd)
                    @ '', but it is not listed in the vcenters section of infrastructure.config.openshift.io/cluster (datacenters = ''
                    @ show_strings (spec_Datacenters vc) @ ''). Add ''
                    @ quote (Datacenter (Topology fd))
                    @ '' to the datacenters list for vCenter '' @ quote (Server fd)
                    @ '' in the Infrastructure CR.'')]
            else [])
      else spec_datacenter fd vcs)"

definition CheckDatacenterConsistency ::
  "go_error + infrastructure \<Rightarrow> vsphere_config \<Rightarrow> go_error option" where
  "CheckDatacenterConsistency answer cfg =
     (case answer of
        Inl err \<Rightarrow> Some err
      | Inr infra \<Rightarrow>
        (case spec_VSphere infra of
           None \<Rightarrow> None
         | Some spec \<Rightarrow>
           if length (FailureDomains spec) = 0 then None
           else let errs = config_datacenters cfg (FailureDomains spec)
                      @ concat (map (\<lambda>fd. spec_datacenter fd (spec_VCenters spec)) (FailureDomains spec))
                in if 0 < length errs then Some (join errs) else None))"

section \<open>Lemmas\<close>

lemma containsString_iff [simp]: "containsString xs s \<longleftrightarrow> s \<in> set xs"
  by (induction xs) auto

lemma missing_vcenters_Nil:
  "missing_vcenters infra spec cfg vs = [] \<longleftrightarrow> spec_Server ` set vs \<subseteq> fst ` set (VirtualCenter cfg)"
  by (induction vs) (auto simp: map_of_eq_None_iff)

lemma snd_domain_loop:
  "snd (domain_loop spec fds found) s \<longleftrightarrow>
     found s \<or> (s \<in> set (getInfraVCenterNames spec) \<and> s \<in> Server ` set fds)"
  by (induction fds arbitrary: found) (auto simp: case_prod_beta)

lemma fst_domain_loop:
  "fst (domain_loop spec fds found) = [] \<longleftrightarrow> Server ` set fds \<subseteq> set (getInfraVCenterNames spec)"
  by (induction fds arbitrary: found) (simp_all add: case_prod_beta)

lemma unused_loop_Nil: "unused_loop found vs = [] \<longleftrightarrow> (\<forall>v \<in> set vs. found (spec_Server v))"
  by (induction vs) auto

lemma checkFailureDomains_Nil:
  "checkFailureDomains spec = [] \<longleftrightarrow>
     Server ` set (FailureDomains spec) = spec_Server ` set (spec_VCenters spec)"
  using fst_domain_loop [of spec "FailureDomains spec" "\<lambda>_. False"]
    snd_domain_loop [of spec "FailureDomains spec" "\<lambda>_. False"]
  by (auto simp: checkFailureDomains_def unused_loop_Nil getInfraVCenterNames_def split: prod.splits)

lemma config_datacenters_Nil:
  "config_datacenters cfg fds = [] \<longleftrightarrow>
     (\<forall>fd \<in> set fds. \<forall>c. map_of (VirtualCenter cfg) (Server fd) = Some c \<longrightarrow>
        Datacenter (Topology fd) \<in> set (parseDatacenters (cfg_Datacenters c)))"
  by (induction fds) (auto split: option.splits)

lemma spec_datacenter_Nil:
  assumes "distinct (map spec_Server vcs)"
  shows "spec_datacenter fd vcs = [] \<longleftrightarrow>
     (\<forall>v \<in> set vcs. spec_Server v = Server fd \<longrightarrow> Datacenter (Topology fd) \<in> set (spec_Datacenters v))"
  using assms by (induction vcs) force+

section \<open>When the checks pass\<close>

definition vcenters_agree :: "vsphere_config \<Rightarrow> platform_spec \<Rightarrow> bool" where
  "vcenters_agree cfg spec \<longleftrightarrow>
     spec_Server ` set (spec_VCenters spec) = fst ` set (VirtualCenter cfg) \<and>
     Server ` set (FailureDomains spec) = spec_Server ` set (spec_VCenters spec)"

lemma CheckInfraConfig_None:
  assumes "spec_VSphere infra = Some spec" "FailureDomains spec \<noteq> []"
    and "distinct (map spec_Server (spec_VCenters spec))" "distinct (map fst (VirtualCenter cfg))"
  shows "CheckInfraConfig (Inr infra) cfg = None \<longleftrightarrow> vcenters_agree cfg spec"
proof -
  have card: "length (spec_VCenters spec) = card (spec_Server ` set (spec_VCenters spec))"
    "length (VirtualCenter cfg) = card (fst ` set (VirtualCenter cfg))"
    using assms(3,4) by (metis distinct_card length_map list.set_map)+
  have "checkVCenters infra spec cfg = [] \<longleftrightarrow>
      spec_Server ` set (spec_VCenters spec) = fst ` set (VirtualCenter cfg)"
  proof (cases "length (spec_VCenters spec) = length (VirtualCenter cfg)")
    case True
    then have "spec_Server ` set (spec_VCenters spec) \<subseteq> fst ` set (VirtualCenter cfg) \<longleftrightarrow>
        spec_Server ` set (spec_VCenters spec) = fst ` set (VirtualCenter cfg)"
      using card by (metis List.finite_set card_subset_eq finite_imageI order_refl)
    then show ?thesis using True by (simp add: checkVCenters_def missing_vcenters_Nil)
  next
    case False
    then show ?thesis using card by (auto simp: checkVCenters_def)
  qed
  then show ?thesis
    using assms(1,2) by (simp add: CheckInfraConfig_def Let_def checkFailureDomains_Nil vcenters_agree_def)
qed

definition datacenters_listed :: "vsphere_config \<Rightarrow> platform_spec \<Rightarrow> bool" where
  "datacenters_listed cfg spec \<longleftrightarrow> (\<forall>fd \<in> set (FailureDomains spec).
     (\<forall>c. map_of (VirtualCenter cfg) (Server fd) = Some c \<longrightarrow>
        Datacenter (Topology fd) \<in> set (parseDatacenters (cfg_Datacenters c))) \<and>
     (\<forall>v \<in> set (spec_VCenters spec). spec_Server v = Server fd \<longrightarrow>
        Datacenter (Topology fd) \<in> set (spec_Datacenters v)))"

lemma CheckDatacenterConsistency_None:
  assumes "spec_VSphere infra = Some spec" "distinct (map spec_Server (spec_VCenters spec))"
  shows "CheckDatacenterConsistency (Inr infra) cfg = None \<longleftrightarrow> datacenters_listed cfg spec"
  using assms(1) config_datacenters_Nil [of cfg "FailureDomains spec"]
    spec_datacenter_Nil [OF assms(2)]
  by (auto simp: CheckDatacenterConsistency_def Let_def datacenters_listed_def)

section \<open>Properties\<close>

text \<open>
  C24: With failure domains configured and no server listed twice, \<^verbatim>\<open>CheckInfraConfig\<close>
  passes exactly when the Infrastructure resource, the cloud provider configuration and the
  failure domains agree on the set of vCenters: the three name the same servers.
\<close>

theorem infra_config_exact:
  assumes "spec_VSphere infra = Some spec" "FailureDomains spec \<noteq> []"
    and "distinct (map spec_Server (spec_VCenters spec))" "distinct (map fst (VirtualCenter cfg))"
  shows "CheckInfraConfig (Inr infra) cfg = None \<longleftrightarrow>
     spec_Server ` set (spec_VCenters spec) = fst ` set (VirtualCenter cfg) \<and>
     Server ` set (FailureDomains spec) = spec_Server ` set (spec_VCenters spec)"
  using CheckInfraConfig_None [OF assms] by (simp add: vcenters_agree_def)

definition agreeing_spec :: platform_spec where
  "agreeing_spec = \<lparr>spec_VCenters = [\<lparr>spec_Server = ''vc1'', spec_Datacenters = [''dc'']\<rparr>],
     FailureDomains = [sample_domain ''z1'' ''vc1'']\<rparr>"

theorem infra_config_exact_witness:
  "CheckInfraConfig (Inr (sample_infrastructure\<lparr>spec_VSphere := Some agreeing_spec\<rparr>)) sample_config = None
   \<and> CheckInfraConfig (Inr (sample_infrastructure\<lparr>spec_VSphere := Some
        (agreeing_spec\<lparr>FailureDomains := [sample_domain ''z1'' ''vc2'']\<rparr>)\<rparr>)) sample_config \<noteq> None"
  using infra_config_exact [of "sample_infrastructure\<lparr>spec_VSphere := Some agreeing_spec\<rparr>"
      agreeing_spec sample_config]
    infra_config_exact [of "sample_infrastructure\<lparr>spec_VSphere := Some
        (agreeing_spec\<lparr>FailureDomains := [sample_domain ''z1'' ''vc2'']\<rparr>)\<rparr>"
      "agreeing_spec\<lparr>FailureDomains := [sample_domain ''z1'' ''vc2'']\<rparr>" sample_config]
  by (simp add: agreeing_spec_def sample_config_def sample_domain_def)

text \<open>
  \<^verbatim>\<open>CheckDatacenterConsistency\<close> passes exactly when each failure domain's datacenter is
  in the comma separated list of its vCenter in the cloud provider configuration and in the list
  of its vCenter in the Infrastructure resource; vCenters missing from either are left to
  \<^verbatim>\<open>CheckInfraConfig\<close>.
\<close>

theorem datacenter_consistency_exact:
  assumes "spec_VSphere infra = Some spec" "distinct (map spec_Server (spec_VCenters spec))"
  shows "CheckDatacenterConsistency (Inr infra) cfg = None \<longleftrightarrow>
     (\<forall>fd \<in> set (FailureDomains spec).
        (\<forall>c. map_of (VirtualCenter cfg) (Server fd) = Some c \<longrightarrow>
           Datacenter (Topology fd) \<in> set (parseDatacenters (cfg_Datacenters c))) \<and>
        (\<forall>v \<in> set (spec_VCenters spec). spec_Server v = Server fd \<longrightarrow>
           Datacenter (Topology fd) \<in> set (spec_Datacenters v)))"
  using CheckDatacenterConsistency_None [OF assms] by (simp add: datacenters_listed_def)

theorem datacenter_consistency_exact_witness:
  "CheckDatacenterConsistency (Inr (sample_infrastructure\<lparr>spec_VSphere := Some agreeing_spec\<rparr>))
     (sample_config\<lparr>VirtualCenter := [(''vc1'', \<lparr>VCenterIP = ''vc1'', cfg_Datacenters = ''dc1, dc'',
       InsecureFlag = True, cfg_User = []\<rparr>)]\<rparr>) = None"
proof -
  have "parseDatacenters ''dc1, dc'' = [''dc1'', ''dc'']"
    by (simp add: parseDatacenters_def go_simps)
  then show ?thesis
    by (subst datacenter_consistency_exact)
      (auto simp: agreeing_spec_def sample_domain_def sample_topology_def)
qed

end
