(* ===== verification/Connect.thy ===== *)
theory Connect
  imports CheckContext "HOL-Library.AList"
begin

text \<open>
  How a round gets its connections: \<^verbatim>\<open>getVSphereConfig\<close>, \<^verbatim>\<open>parseConfig\<close> with
  \<^verbatim>\<open>LoadConfig\<close> of pkg/util/config.go, \<^verbatim>\<open>getCredentials\<close>, \<^verbatim>\<open>newClient\<close> and
  \<^verbatim>\<open>connect\<close> of pkg/operator/vsphere_check.go.

  The record \<open>connect_env\<close> holds what the code asks the outside: the API listers, the two
  configuration parsers, and the govmomi calls, each of which may fail. What it does to the
  outside is a list of sessions opened and closed and a list of gauges of
  \<^verbatim>\<open>vsphere_sync_errors\<close> set.
\<close>

section \<open>The outside\<close>

record connect_env =
  env_Infrastructure :: "go_error + infrastructure"
  env_ConfigMap :: "string \<Rightarrow> go_error + (string \<rightharpoonup> string)"
  env_Secret :: "go_error + (string \<rightharpoonup> string)"
  env_ReadConfig :: "string \<Rightarrow> go_error + (string \<times> vcenter_config) list"
  env_ReadLegacy :: "string \<Rightarrow> go_error + legacy_config"
  env_ParseURL :: "string \<Rightarrow> go_error option"
  env_NewClient :: "string \<Rightarrow> bool \<Rightarrow> go_error option"
  env_Login :: "string \<Rightarrow> string \<Rightarrow> string \<Rightarrow> go_error option"
  env_RestLogin :: "string \<Rightarrow> string \<Rightarrow> string \<Rightarrow> go_error option"
  env_Logout :: "string \<Rightarrow> go_error option"

text \<open>A connection has two sessions: that of the SOAP client and that of the REST client.\<close>

datatype session = Soap string | Rest string

datatype session_op = OpenSession session | CloseSession session

type_synonym sync_gauge = "string \<times> nat"

section \<open>Configuration and credentials\<close>

definition getVSphereConfig :: "connect_env \<Rightarrow> go_error + string" where
  "getVSphereConfig env =
     (case env_Infrastructure env of
        Inl err \<Rightarrow> Inl err
      | Inr infra \<Rightarrow>
        (case PlatformStatus infra of
           None \<Rightarrow> Inl (Errorf ''unknown platform: infrastructure status.platformStatus is nil'')
         | Some ptype \<Rightarrow>
           if ptype \<noteq> ''VSphere'' then Inl (Errorf (''unsupported platform: '' @ ptype))
           else case env_ConfigMap env (CloudConfig_Name infra) of
             Inl err \<Rightarrow> Inl (Errorf (''failed to get cluster config: '' @ error_text err))
           | Inr data \<Rightarrow>
             (case data (CloudConfig_Key infra) of
                None \<Rightarrow> Inl (Errorf (''cluster config openshift-config/'' @ CloudConfig_Name infra
                          @ '' does not contain key '' @ quote (CloudConfig_Key infra)))
              | Some cfgString \<Rightarrow> Inr cfgString)))"

definition LoadConfig :: "connect_env \<Rightarrow> string \<Rightarrow> go_error + vsphere_config" where
  "LoadConfig env data =
     (case env_ReadConfig env data of
        Inl err \<Rightarrow> Inl (Errorf (''unable to load config: '' @ error_text err))
      | Inr vcs \<Rightarrow>
        (case env_ReadLegacy env data of
           Inl err \<Rightarrow> Inr \<lparr>VirtualCenter = vcs, LegacyConfig = None\<rparr>
         | Inr lCfg \<Rightarrow> Inr \<lparr>VirtualCenter = vcs, LegacyConfig = Some lCfg\<rparr>))"

definition parseConfig :: "connect_env \<Rightarrow> string \<Rightarrow> go_error + vsphere_config" where
  "parseConfig env data = LoadConfig env data"

definition cloudCredentialsSecretName :: string where
  "cloudCredentialsSecretName = ''vsphere-cloud-credentials''"

definition getCredentials :: "connect_env \<Rightarrow> string \<Rightarrow> go_error + (string \<times> string)" where
  "getCredentials env vCenterAddress =
     (case env_Secret env of
        Inl err \<Rightarrow> Inl err
      | Inr data \<Rightarrow>
        (case data (vCenterAddress @ ''.'' @ ''username'') of
           None \<Rightarrow> Inl (Errorf (''error parsing secret '' @ quote cloudCredentialsSecretName @ '': key ''
                     @ quote (vCenterAddress @ ''.'' @ ''username'') @ '' not found''))
         | Some username \<Rightarrow>
           (case data (vCenterAddress @ ''.'' @ ''password'') of
              None \<Rightarrow> Inl (Errorf (''error parsing secret '' @ quote cloudCredentialsSecretName @ '': key ''
                        @ quote (vCenterAddress @ ''.'' @ ''password'') @ '' not found''))
            | Some password \<Rightarrow> Inr (username, password))))"

text \<open>
  The user name pattern of the CSI driver: \<^verbatim>\<open>domain\user\<close> or \<^verbatim>\<open>user@domain\<close>, both parts
  not empty. The separators are in neither class, so the match splits at the first one.
\<close>

definition alnum :: "char \<Rightarrow> bool" where
  "alnum c \<longleftrightarrow> (let n = of_char c :: nat in
     97 \<le> n \<and> n \<le> 122 \<or> 65 \<le> n \<and> n \<le> 90 \<or> 48 \<le> n \<and> n \<le> 57)"

definition domain_char :: "char \<Rightarrow> bool" where
  "domain_char c \<longleftrightarrow> alnum c \<or> c \<in> set ''.-''"

definition user_char :: "char \<Rightarrow> bool" where
  "user_char c \<longleftrightarrow> alnum c \<or> c \<in> set ''._-''"

definition two_parts :: "char \<Rightarrow> (char \<Rightarrow> bool) \<Rightarrow> (char \<Rightarrow> bool) \<Rightarrow> string \<Rightarrow> bool" where
  "two_parts sep P Q s =
     (let a = takeWhile (\<lambda>c. c \<noteq> sep) s; b = dropWhile (\<lambda>c. c \<noteq> sep) s in
      a \<noteq> [] \<and> list_all P a \<and> b \<noteq> [] \<and> tl b \<noteq> [] \<and> list_all Q (tl b))"

definition isValidvCenterUsernameWithDomain :: "string \<Rightarrow> bool" where
  "isValidvCenterUsernameWithDomain username =
     (two_parts (CHR 0x5C) domain_char user_char username
      \<or> two_parts (CHR ''@'') user_char domain_char username)"

section \<open>Connections\<close>

text \<open>A SOAP session is closed when its logout succeeds.\<close>

definition Logout :: "go_error option \<Rightarrow> string \<Rightarrow> session_op list" where
  "Logout err server = (case err of None \<Rightarrow> [CloseSession (Soap server)] | Some _ \<Rightarrow> [])"

definition newClient ::
  "connect_env \<Rightarrow> vcenter_config \<Rightarrow> string \<Rightarrow> string \<Rightarrow> go_error option \<times> session_op list" where
  "newClient env cfg username password =
     (let serverAddress = VCenterIP cfg in
      case env_ParseURL env serverAddress of
        Some err \<Rightarrow> (Some (Errorf (''failed to parse config file: '' @ error_text err)), [])
      | None \<Rightarrow>
        (case env_NewClient env serverAddress (InsecureFlag cfg) of
           Some err \<Rightarrow> (Some err, [])
         | None \<Rightarrow>
           (case env_Login env serverAddress username password of
              Some err \<Rightarrow> (Some (Errorf (''unable to login to vCenter: '' @ error_text err)), [])
            | None \<Rightarrow>
              (case env_RestLogin env serverAddress username password of
                 Some err \<Rightarrow> (Some (Errorf (''unable to login to vCenter REST API: '' @ error_text err)),
                             OpenSession (Soap serverAddress) # Logout (env_Logout env serverAddress) serverAddress)
               | None \<Rightarrow>
                   (None, [OpenSession (Soap serverAddress), OpenSession (Rest serverAddress)])))))"

definition opened :: "vcenter_config \<Rightarrow> session_op list" where
  "opened v = [OpenSession (Soap (VCenterIP v)), OpenSession (Rest (VCenterIP v))]"

definition newline :: char where "newline = CHR 0x0A"

text \<open>
  One turn of the loop: the error to return, or the user name; the sessions; the gauges.
\<close>

definition connect_one ::
  "connect_env \<Rightarrow> vcenter_config \<Rightarrow> (go_error + string) \<times> session_op list \<times> sync_gauge list" where
  "connect_one env vCenter =
     (case getCredentials env (VCenterIP vCenter) of
        Inl err \<Rightarrow> (Inl (Errorf (''failed to get credentials to '' @ VCenterIP vCenter @ '': ''
                     @ error_text err)), [], [])
      | Inr (username, password) \<Rightarrow>
        (case newClient env vCenter username password of
           (Some err, ops) \<Rightarrow>
             if newline \<in> set username
             then (Inl (Errorf (''failed to connect to '' @ VCenterIP vCenter
                     @ '': username in credentials contains new line'')), ops,
                   [(''UsernameWithNewLine'', 1)])
             else if newline \<in> set password
             then (Inl (Errorf (''failed to connect to '' @ VCenterIP vCenter
                     @ '': password in credentials contains new line'')), ops,
                   [(''UsernameWithNewLine'', 0), (''PasswordWithNewLine'', 1)])
             else (Inl (Errorf (''failed to connect to '' @ VCenterIP vCenter @ '': '' @ error_text err)),
                   ops,
                   [(''UsernameWithNewLine'', 0), (''PasswordWithNewLine'', 0), (''InvalidCredentials'', 1)])
         | (None, ops) \<Rightarrow>
             (Inr username, ops,
              [(''InvalidCredentials'', 0),
               (''UsernameWithoutDomain'', if \<not> isValidvCenterUsernameWithDomain username then 1 else 0)])))"

text \<open>\<^verbatim>\<open>cfg.Config.VirtualCenter[vCenter.VCenterIP].User = username\<close>, when the key is there.\<close>

definition set_user :: "string \<Rightarrow> string \<Rightarrow> vsphere_config \<Rightarrow> vsphere_config" where
  "set_user key username cfg =
     cfg\<lparr>VirtualCenter := map (\<lambda>(k, v). if k = key then (k, v\<lparr>cfg_User := username\<rparr>) else (k, v))
        (VirtualCenter cfg)\<rparr>"

fun connect_loop ::
  "connect_env \<Rightarrow> vcenter_config list \<Rightarrow> vsphere_config \<Rightarrow> (string \<times> vcenter) list
   \<Rightarrow> (go_error + vsphere_config \<times> (string \<times> vcenter) list) \<times> session_op list \<times> sync_gauge list" where
  "connect_loop env [] cfg vCenters = (Inr (cfg, vCenters), [], [])"
| "connect_loop env (vCenter # rest) cfg vCenters =
     (case connect_one env vCenter of
        (Inl err, ops, gs) \<Rightarrow> (Inl err, ops, gs)
      | (Inr username, ops, gs) \<Rightarrow>
        (let name = VCenterIP vCenter;
             (res, ops', gs') = connect_loop env rest (set_user name username cfg)
               (AList.update name \<lparr>VCenterName = name, Username = []\<rparr> vCenters)
         in (res, ops @ ops', gs @ gs')))"

definition connect ::
  "connect_env \<Rightarrow> (go_error + check_context) \<times> session_op list \<times> sync_gauge list" where
  "connect env =
     (case getVSphereConfig env of
        Inl err \<Rightarrow> (Inl err, [], [])
      | Inr cfgString \<Rightarrow>
        (case parseConfig env cfgString of
           Inl err \<Rightarrow> (Inl (Errorf (''failed to parse config: '' @ error_text err)), [], [])
         | Inr cfg \<Rightarrow>
           (case connect_loop env (map snd (VirtualCenter cfg)) cfg [] of
              (Inl err, ops, gs) \<Rightarrow> (Inl err, ops, gs)
            | (Inr (cfg', vCenters), ops, gs) \<Rightarrow>
                (Inr \<lparr>VMConfig = Some cfg', VCenters = vCenters, PlatformSpec = None\<rparr>, ops, gs))))"

section \<open>Lemmas\<close>

lemma two_parts_iff:
  assumes "\<not> P sep"
  shows "two_parts sep P Q s \<longleftrightarrow>
    (\<exists>a b. s = a @ sep # b \<and> a \<noteq> [] \<and> b \<noteq> [] \<and> list_all P a \<and> list_all Q b)"
proof
  assume two: "two_parts sep P Q s"
  let ?a = "takeWhile (\<lambda>c. c \<noteq> sep) s" and ?b = "dropWhile (\<lambda>c. c \<noteq> sep) s"
  have b: "?b \<noteq> []" using two by (simp add: two_parts_def Let_def)
  then have "hd ?b = sep" using hd_dropWhile [of "\<lambda>c. c \<noteq> sep" s] by auto
  with b have "?b = sep # tl ?b" by (metis list.collapse)
  then have "s = ?a @ sep # tl ?b" by (metis takeWhile_dropWhile_id)
  moreover have "?a \<noteq> []" "tl ?b \<noteq> []" "list_all P ?a" "list_all Q (tl ?b)"
    using two by (simp_all add: two_parts_def Let_def)
  ultimately show "\<exists>a b. s = a @ sep # b \<and> a \<noteq> [] \<and> b \<noteq> [] \<and> list_all P a \<and> list_all Q b"
    by blast
next
  assume "\<exists>a b. s = a @ sep # b \<and> a \<noteq> [] \<and> b \<noteq> [] \<and> list_all P a \<and> list_all Q b"
  then obtain a b where ab: "s = a @ sep # b" "a \<noteq> []" "b \<noteq> []" "list_all P a" "list_all Q b" by blast
  have "\<forall>c \<in> set a. c \<noteq> sep" using ab(4) assms by (auto simp: list_all_iff)
  then have "takeWhile (\<lambda>c. c \<noteq> sep) s = a" "dropWhile (\<lambda>c. c \<noteq> sep) s = sep # b"
    using ab(1) by (simp_all add: takeWhile_append dropWhile_append)
  then show "two_parts sep P Q s" using ab by (simp add: two_parts_def)
qed

lemma isValid_iff:
  "isValidvCenterUsernameWithDomain u \<longleftrightarrow>
     (\<exists>a b. a \<noteq> [] \<and> b \<noteq> [] \<and>
        (u = a @ CHR 0x5C # b \<and> list_all domain_char a \<and> list_all user_char b \<or>
         u = a @ CHR ''@'' # b \<and> list_all user_char a \<and> list_all domain_char b))"
proof -
  have "\<not> domain_char (CHR 0x5C)" "\<not> user_char (CHR ''@'')"
    by (simp_all add: domain_char_def user_char_def alnum_def)
  then show ?thesis
    unfolding isValidvCenterUsernameWithDomain_def by (simp add: two_parts_iff) blast
qed

lemma connect_one_Inr:
  assumes "connect_one env v = (Inr u, ops, gs)"
  shows "ops = opened v" "\<exists>p. getCredentials env (VCenterIP v) = Inr (u, p)
     \<and> env_Login env (VCenterIP v) u p = None \<and> env_RestLogin env (VCenterIP v) u p = None"
  using assms by (auto simp: connect_one_def newClient_def opened_def Let_def
      split: sum.splits prod.splits option.splits if_splits)

lemma alist_update_subset: "set (AList.update k v xs) \<subseteq> insert (k, v) (set xs)"
  by (induction xs) auto

lemma connect_loop_Inr:
  assumes "connect_loop env vs cfg acc = (Inr (cfg', vcs), ops, gs)"
    and "distinct (map fst acc)" "\<forall>(name, vc) \<in> set acc. VCenterName vc = name"
  shows "distinct (map fst vcs) \<and> (\<forall>(name, vc) \<in> set vcs. VCenterName vc = name) \<and>
    fst ` set vcs = fst ` set acc \<union> VCenterIP ` set vs \<and>
    ops = concat (map opened vs) \<and>
    map fst (VirtualCenter cfg') = map fst (VirtualCenter cfg) \<and>
    LegacyConfig cfg' = LegacyConfig cfg \<and>
    (\<forall>v \<in> set vs. \<exists>u p. getCredentials env (VCenterIP v) = Inr (u, p) \<and>
       env_Login env (VCenterIP v) u p = None \<and> env_RestLogin env (VCenterIP v) u p = None)"
  using assms
proof (induction vs arbitrary: cfg acc ops gs)
  case (Cons v vs)
  obtain u ops1 gs1 where one: "connect_one env v = (Inr u, ops1, gs1)"
    using Cons.prems(1) by (auto split: prod.splits sum.splits)
  let ?acc = "AList.update (VCenterIP v) \<lparr>VCenterName = VCenterIP v, Username = []\<rparr> acc"
  obtain ops2 gs2 where rest: "connect_loop env vs (set_user (VCenterIP v) u cfg) ?acc
      = (Inr (cfg', vcs), ops2, gs2)" and ops: "ops = ops1 @ ops2"
    using Cons.prems(1) one by (auto simp: Let_def split: prod.splits)
  have acc: "distinct (map fst ?acc)" using Cons.prems(2) by (simp add: distinct_update)
  have "\<forall>(name, vc) \<in> set ?acc. VCenterName vc = name"
    using Cons.prems(3) alist_update_subset [of "VCenterIP v" "\<lparr>VCenterName = VCenterIP v, Username = []\<rparr>" acc]
    by auto
  from Cons.IH [OF rest acc this] connect_one_Inr [OF one] ops show ?case
    by (auto simp: dom_update set_user_def comp_def case_prod_beta)
qed auto

section \<open>Property\<close>

text \<open>
  C20: When \<^verbatim>\<open>connect\<close> succeeds, the context it builds holds one vCenter for every section of
  the cloud configuration and no other, each under its own address; for each the secret had both
  keys, and both logins with exactly these credentials succeeded. One SOAP and one REST session were
  opened for each section, and none was closed.
\<close>

theorem connect_usable:
  assumes "connect env = (Inr ctx, ops, gs)"
  shows "wf_context ctx \<and>
    (\<exists>data cfg. getVSphereConfig env = Inr data \<and> parseConfig env data = Inr cfg \<and>
       fst ` set (VCenters ctx) = VCenterIP ` snd ` set (VirtualCenter cfg) \<and>
       ops = concat (map (opened \<circ> snd) (VirtualCenter cfg)) \<and>
       (\<forall>server \<in> fst ` set (VCenters ctx). \<exists>secret u p.
          env_Secret env = Inr secret \<and>
          secret (server @ ''.username'') = Some u \<and> secret (server @ ''.password'') = Some p \<and>
          env_Login env server u p = None \<and> env_RestLogin env server u p = None))"
proof -
  obtain data cfg cfg' vcs where d: "getVSphereConfig env = Inr data" "parseConfig env data = Inr cfg"
    and loop: "connect_loop env (map snd (VirtualCenter cfg)) cfg [] = (Inr (cfg', vcs), ops, gs)"
    and ctx: "ctx = \<lparr>VMConfig = Some cfg', VCenters = vcs, PlatformSpec = None\<rparr>"
    using assms by (auto simp: connect_def split: sum.splits prod.splits)
  note L = connect_loop_Inr [OF loop]
  have cred: "\<exists>secret. env_Secret env = Inr secret \<and> secret (s @ ''.username'') = Some u \<and>
      secret (s @ ''.password'') = Some p" if "getCredentials env s = Inr (u, p)" for s u p
    using that by (auto simp: getCredentials_def split: sum.splits option.splits)
  have "\<exists>secret u p. env_Secret env = Inr secret \<and>
          secret (server @ ''.username'') = Some u \<and> secret (server @ ''.password'') = Some p \<and>
          env_Login env server u p = None \<and> env_RestLogin env server u p = None"
    if "server \<in> fst ` set (VCenters ctx)" for server
  proof -
    from that obtain v where v: "v \<in> set (map snd (VirtualCenter cfg))" "server = VCenterIP v"
      using L by (auto simp: ctx)
    then obtain u p where "getCredentials env server = Inr (u, p)"
      "env_Login env server u p = None" "env_RestLogin env server u p = None"
      using L by auto
    then show ?thesis using cred by blast
  qed
  moreover have "wf_context ctx" using L by (simp add: wf_context_def ctx)
  moreover have "fst ` set (VCenters ctx) = VCenterIP ` snd ` set (VirtualCenter cfg)"
    using L by (simp add: ctx)
  moreover have "ops = concat (map (opened \<circ> snd) (VirtualCenter cfg))"
    using L by simp
  ultimately show ?thesis using d by blast
qed

definition sample_connect_env :: connect_env where
  "sample_connect_env = \<lparr>env_Infrastructure = Inr sample_infrastructure,
     env_ConfigMap = (\<lambda>_. Inr [''k'' \<mapsto> ''ini'']),
     env_Secret = Inr [''vc1.username'' \<mapsto> ''a@b'', ''vc1.password'' \<mapsto> ''p''],
     env_ReadConfig = (\<lambda>_. Inr (VirtualCenter sample_config)),
     env_ReadLegacy = (\<lambda>_. Inr sample_legacy),
     env_ParseURL = (\<lambda>_. None), env_NewClient = (\<lambda>_ _. None),
     env_Login = (\<lambda>_ _ _. None), env_RestLogin = (\<lambda>_ _ _. None), env_Logout = (\<lambda>_. None)\<rparr>"

lemma sample_connect:
  "\<exists>cfg gs. connect sample_connect_env =
     (Inr \<lparr>VMConfig = Some cfg, VCenters = [(''vc1'', \<lparr>VCenterName = ''vc1'', Username = []\<rparr>)],
           PlatformSpec = None\<rparr>, [OpenSession (Soap ''vc1''), OpenSession (Rest ''vc1'')], gs)
     \<and> LegacyConfig cfg = Some sample_legacy \<and> map fst (VirtualCenter cfg) = [''vc1'']"
  by (simp add: connect_def getVSphereConfig_def sample_connect_env_def sample_infrastructure_def
      parseConfig_def LoadConfig_def sample_config_def connect_one_def getCredentials_def newClient_def
      Let_def set_user_def)

theorem connect_usable_witness:
  "\<exists>ctx ops gs. connect sample_connect_env = (Inr ctx, ops, gs) \<and> wf_context ctx"
  using sample_connect connect_usable by blast

end
