(* ===== verification/Fixtures.thy ===== *)
theory Fixtures
  imports Startup InfraChecks Connect
begin

text \<open>
  The fixtures of the program's own tests, pkg/testlib: the Infrastructure resources and nodes they
  build, the client that answers with them, and what the configuration files of the directory parse
  to. A modifier is a function on the resource, and the modifiers of a call are applied in order.
  The simulator of vCenter is third-party: what it finds is an argument.
\<close>

section \<open>Nodes\<close>

definition Node :: "string \<Rightarrow> (node \<Rightarrow> node) list \<Rightarrow> node" where
  "Node name modifiers =
     fold (\<lambda>modifier n. modifier n) modifiers \<lparr>node_Name = name, Labels = Map.empty, ProviderID = []\<rparr>"

definition WithProviderID :: "string \<Rightarrow> node \<Rightarrow> node" where
  "WithProviderID i n = n\<lparr>ProviderID := i\<rparr>"

definition defaultVMs :: "(string \<times> string) list" where
  "defaultVMs = [(''DC0_H0_VM0'', ''265104de-1472-547c-b873-6dc7883fb6cb''),
     (''DC0_H0_VM1'', ''39365506-5a0a-5fd0-be10-9586ad53aaad'')]"

definition DefaultNodes :: "node list" where
  "DefaultNodes = map (\<lambda>(name, uuid). Node name [WithProviderID (''vsphere://'' @ uuid)]) defaultVMs"

section \<open>Infrastructure\<close>

type_synonym infra_modifier = "infrastructure \<Rightarrow> infrastructure"

definition modified :: "infra_modifier list \<Rightarrow> infrastructure \<Rightarrow> infrastructure" where
  "modified modifiers infra = fold (\<lambda>modifier i. modifier i) modifiers infra"

text \<open>An assignment through the pointer \<^verbatim>\<open>Spec.PlatformSpec.VSphere\<close>, which these resources have.\<close>

definition set_domains :: "failure_domain list \<Rightarrow> infra_modifier" where
  "set_domains fds infra =
     infra\<lparr>spec_VSphere := map_option (\<lambda>s. s\<lparr>FailureDomains := fds\<rparr>) (spec_VSphere infra)\<rparr>"

definition set_vcenters :: "vcenter_spec list \<Rightarrow> infra_modifier" where
  "set_vcenters vcs infra =
     infra\<lparr>spec_VSphere := map_option (\<lambda>s. s\<lparr>spec_VCenters := vcs\<rparr>) (spec_VSphere infra)\<rparr>"

definition domains_of :: "infrastructure \<Rightarrow> failure_domain list" where
  "domains_of infra = (case spec_VSphere infra of None \<Rightarrow> [] | Some s \<Rightarrow> FailureDomains s)"

definition Infrastructure :: "infra_modifier list \<Rightarrow> infrastructure" where
  "Infrastructure modifiers = modified modifiers
     \<lparr>CloudConfig_Name = ''cloud-provider-config'', CloudConfig_Key = ''config'',
      spec_VSphere = Some \<lparr>spec_VCenters = [], FailureDomains = []\<rparr>, PlatformStatus = None\<rparr>"

definition fixture_topology :: "string \<Rightarrow> string \<Rightarrow> string \<Rightarrow> topology" where
  "fixture_topology cluster dc ds =
     \<lparr>Datacenter = dc, ComputeCluster = cluster, Datastore = ds, Folder = [], ResourcePool = []\<rparr>"

definition fixture_domain :: "string \<Rightarrow> string \<Rightarrow> string \<Rightarrow> string \<Rightarrow> topology \<Rightarrow> failure_domain" where
  "fixture_domain name region zone server t = \<lparr>fd_Name = name, Region = region, Zone = zone,
     RegionAffinity = None, ZoneAffinity = None, Server = server, Topology = t\<rparr>"

definition InfrastructureWithFailureDomain :: "infra_modifier list \<Rightarrow> infrastructure" where
  "InfrastructureWithFailureDomain modifiers = modified modifiers
     (set_vcenters [\<lparr>spec_Server = ''dc0'', spec_Datacenters = [''DC0'']\<rparr>]
       (set_domains [fixture_domain ''dc0'' ''east'' ''east-1a'' ''dc0''
           (fixture_topology ''/DC0/host/DC0_C0'' ''DC0'' ''LocalDS_0'')] (Infrastructure [])))"

definition InfrastructureWithMultipleFailureDomain :: "infra_modifier list \<Rightarrow> infrastructure" where
  "InfrastructureWithMultipleFailureDomain modifiers =
     (let infra = InfrastructureWithFailureDomain []
      in modified modifiers (set_domains (domains_of infra @
           [fixture_domain ''dc0'' ''west'' ''west-1a'' ''dc0''
              (fixture_topology ''/DC1/host/DC0_C1'' ''DC1'' ''LocalDS_1'')]) infra))"

definition InfrastructureWithMultipleFailureDomainHostGroup :: "infra_modifier list \<Rightarrow> infrastructure" where
  "InfrastructureWithMultipleFailureDomainHostGroup modifiers =
     (let infra = InfrastructureWithFailureDomain []
      in modified modifiers (set_domains (domains_of infra @
           [(fixture_domain ''dc0'' ''west'' ''west-1a'' ''dc0''
               ((fixture_topology ''/DC0/host/DC0_C1'' ''DC0'' ''LocalDS_0'')
                 \<lparr>Folder := ''/DC0/vm'', ResourcePool := ''/DC0/host/DC0_C1/Resources/test-resourcepool''\<rparr>))
              \<lparr>ZoneAffinity := Some \<lparr>za_Type = ''HostGroup'', za_HostGroup = Some
                 \<lparr>hg_VMGroup = ''vm-zone-1'', hg_HostGroup = ''zone-1'', hg_VMHostRule = ''vm-rule-zone-1''\<rparr>\<rparr>\<rparr>]) infra))"

definition InfrastructureWithMultiVCenters :: "infra_modifier list \<Rightarrow> infrastructure" where
  "InfrastructureWithMultiVCenters modifiers = modified modifiers
     (set_vcenters [\<lparr>spec_Server = ''vcenter.test.openshift.com'', spec_Datacenters = [''DC0'']\<rparr>,
         \<lparr>spec_Server = ''vcenter2.test.openshift.com'', spec_Datacenters = [''DC1'']\<rparr>]
       (set_domains [fixture_domain ''failure-domain-1'' ''east'' ''east-1a'' ''vcenter.test.openshift.com''
             (fixture_topology [] ''DC0'' ''LocalDS_0''),
           fixture_domain ''failure-domain-2'' ''west'' ''west-1a'' ''vcenter2.test.openshift.com''
             (fixture_topology [] ''DC1'' ''LocalDS_0'')] (Infrastructure [])))"

lemmas fixture_defs = modified_def set_domains_def set_vcenters_def domains_of_def Infrastructure_def
  fixture_topology_def fixture_domain_def InfrastructureWithFailureDomain_def
  InfrastructureWithMultipleFailureDomain_def InfrastructureWithMultipleFailureDomainHostGroup_def
  InfrastructureWithMultiVCenters_def

section \<open>The client\<close>

definition FakeKubeClient ::
  "infrastructure \<Rightarrow> node list \<Rightarrow> 'sc list \<Rightarrow> 'pv list \<Rightarrow> ('sc, 'pv) listers" where
  "FakeKubeClient infra nodes storageClasses pvs =
     \<lparr>infraLister = \<lambda>_. Inr infra, nodeLister = Inr nodes, scLister = Inr storageClasses, pvLister = Inr pvs\<rparr>"

section \<open>The virtual machines of the simulator\<close>

definition defaultVMPath :: string where "defaultVMPath = ''/DC0/vm/''"

definition GetVM ::
  "(string \<Rightarrow> go_error + 'v) \<Rightarrow> ('v \<Rightarrow> go_error + 'o) \<Rightarrow> node \<Rightarrow> go_error + 'o" where
  "GetVM virtualMachine properties n =
     (case virtualMachine (defaultVMPath @ node_Name n) of
        Inl err \<Rightarrow> Inl err
      | Inr vm \<Rightarrow>
        (case properties vm of
           Inl err \<Rightarrow> Inl (Errorf (''failed to load VM '' @ node_Name n @ '': '' @ error_text err))
         | Inr o' \<Rightarrow> Inr o'))"

definition CustomizeVM ::
  "(string \<Rightarrow> go_error + 'v) \<Rightarrow> ('v \<Rightarrow> 'spec \<Rightarrow> go_error + 'task) \<Rightarrow> ('task \<Rightarrow> go_error option)
   \<Rightarrow> node \<Rightarrow> 'spec \<Rightarrow> go_error option" where
  "CustomizeVM virtualMachine reconfigure taskWait n spec =
     (case virtualMachine (defaultVMPath @ node_Name n) of
        Inl err \<Rightarrow> Some err
      | Inr vm \<Rightarrow>
        (case reconfigure vm spec of
           Inl err \<Rightarrow> Some err
         | Inr task \<Rightarrow> taskWait task))"

definition SetVMHardwareVersion ::
  "(string \<Rightarrow> go_error + 'v) \<Rightarrow> ('v \<Rightarrow> (string \<times> string) list \<Rightarrow> go_error + 'task) \<Rightarrow> ('task \<Rightarrow> go_error option)
   \<Rightarrow> node \<Rightarrow> string \<Rightarrow> go_error option" where
  "SetVMHardwareVersion virtualMachine reconfigure taskWait n hardwareVersion =
     CustomizeVM virtualMachine reconfigure taskWait n [(''SET.config.version'', hardwareVersion)]"

text \<open>The hosts of the simulator by their identifiers, with product version and API version.\<close>

definition CustomizeHostVersion ::
  "string \<Rightarrow> string \<Rightarrow> string \<Rightarrow> (string \<rightharpoonup> string \<times> string) \<Rightarrow> go_error option \<times> (string \<rightharpoonup> string \<times> string)" where
  "CustomizeHostVersion hostSystemId version apiVersion hosts =
     (if hosts hostSystemId = None
      then (Some (Errorf (''can'' @ [CHR 0x27] @ ''t find HostSystem '' @ hostSystemId)), hosts)
      else (None, hosts(hostSystemId \<mapsto> (version, apiVersion))))"

section \<open>The configuration files\<close>

definition ini_config :: "(string \<times> string) list \<Rightarrow> workspace \<Rightarrow> vsphere_config" where
  "ini_config vcs ws = \<lparr>VirtualCenter = map (\<lambda>(server, dcs). (server, \<lparr>VCenterIP = server,
       cfg_Datacenters = dcs, InsecureFlag = True, cfg_User = []\<rparr>)) vcs,
     LegacyConfig = Some \<lparr>legacy_Datacenters = map_of vcs, Workspace = ws\<rparr>\<rparr>"

definition yaml_config :: "(string \<times> string) list \<Rightarrow> vsphere_config" where
  "yaml_config vcs = \<lparr>VirtualCenter = map (\<lambda>(server, dcs). (server, \<lparr>VCenterIP = server,
       cfg_Datacenters = dcs, InsecureFlag = True, cfg_User = []\<rparr>)) vcs, LegacyConfig = None\<rparr>"

definition dc0_workspace :: "string \<Rightarrow> workspace" where
  "dc0_workspace server = \<lparr>ws_VCenterIP = server, ws_Datacenter = ''DC0'', ws_Folder = ''/DC0/vm'',
     ws_DefaultDatastore = ''LocalDS_0'', ws_ResourcePoolPath = ''/DC0/host/DC0_H0/Resources''\<rparr>"

definition simple_config_ini :: vsphere_config where
  "simple_config_ini = ini_config [(''dc0'', ''DC0'')] (dc0_workspace ''dc0'')"

definition config_multi_vcenter_ini :: vsphere_config where
  "config_multi_vcenter_ini = ini_config [(''vcenter.test.openshift.com'', ''DC0''),
     (''vcenter2.test.openshift.com'', ''DC1'')] (dc0_workspace ''vcenter.test.openshift.com'')"

definition problematic_config_ini :: vsphere_config where
  "problematic_config_ini = ini_config [(''foobar.com'', ''dc443'')]
     \<lparr>ws_VCenterIP = ''foobar.com'', ws_Datacenter = ''dc443'', ws_Folder = ''/foobar/folder'',
      ws_DefaultDatastore = ''/foobar/datastore'', ws_ResourcePoolPath = []\<rparr>"

definition config_single_vcenter_yaml :: vsphere_config where
  "config_single_vcenter_yaml = yaml_config [(''vcenter.test.openshift.com'', ''cidatacenter'')]"

definition simple_config_yaml :: vsphere_config where
  "simple_config_yaml = yaml_config [(''vcenter.test.openshift.com'', ''cidatacenter''),
     (''vcenter2.test.openshift.com'', ''IBMCloud'')]"

lemmas config_defs = ini_config_def yaml_config_def dc0_workspace_def simple_config_ini_def
  config_multi_vcenter_ini_def problematic_config_ini_def config_single_vcenter_yaml_def
  simple_config_yaml_def

section \<open>Setting up the simulator\<close>

text \<open>
  The embedded files by name, and the simulator: whether a model loads, whether a client connects to
  the server started for a vCenter, and the session it finds there. A panic is \<open>None\<close>.
\<close>

record sim_env =
  sim_ReadFile :: "string \<Rightarrow> go_error + string"
  sim_Load :: "string \<Rightarrow> go_error option"
  sim_Connect :: "string \<Rightarrow> go_error option"
  sim_UserSession :: "string \<Rightarrow> go_error + string option"

definition getVSphereConfigString :: "sim_env \<Rightarrow> string \<Rightarrow> string option" where
  "getVSphereConfigString sim fileName =
     (let fileName = (if fileName = [] then ''simple_config.ini'' else fileName) in
      case sim_ReadFile sim fileName of Inl err \<Rightarrow> None | Inr data \<Rightarrow> Some data)"

definition GetVSphereConfig :: "sim_env \<Rightarrow> connect_env \<Rightarrow> string \<Rightarrow> vsphere_config option" where
  "GetVSphereConfig sim env fileName =
     (case getVSphereConfigString sim fileName of
        None \<Rightarrow> None
      | Some data \<Rightarrow> (case LoadConfig env data of Inl err \<Rightarrow> None | Inr cfg \<Rightarrow> Some cfg))"

text \<open>The loop that starts one simulator for each vCenter, with the user name of its session.\<close>

fun start_simulators :: "sim_env \<Rightarrow> string \<Rightarrow> string list \<Rightarrow> (go_error + (string \<times> string) list) option" where
  "start_simulators sim modelDir [] = Some (Inr [])"
| "start_simulators sim modelDir (vCenterName # names) =
     (case sim_Load sim modelDir of
        Some err \<Rightarrow> Some (Inl err)
      | None \<Rightarrow>
        (case sim_Connect sim vCenterName of
           Some err \<Rightarrow> Some (Inl (Errorf (''failed to connect to the simulator: '' @ error_text err)))
         | None \<Rightarrow>
           (case sim_UserSession sim vCenterName of
              Inl err \<Rightarrow> Some (Inl (Errorf (''failed to setup user session: '' @ error_text err)))
            | Inr None \<Rightarrow> None
            | Inr (Some userName) \<Rightarrow>
              (case start_simulators sim modelDir names of
                 Some (Inr vcs) \<Rightarrow> Some (Inr ((vCenterName, userName) # vcs))
               | answer \<Rightarrow> answer))))"

definition SetupSimulatorWithConfig ::
  "sim_env \<Rightarrow> connect_env \<Rightarrow> string \<Rightarrow> string \<Rightarrow> (go_error + vsphere_config \<times> (string \<times> string) list) option" where
  "SetupSimulatorWithConfig sim env modelDir cloudConfig =
     (case GetVSphereConfig sim env cloudConfig of
        None \<Rightarrow> None
      | Some vConfig \<Rightarrow>
        map_option (map_sum id (\<lambda>vcs. (vConfig, vcs)))
          (start_simulators sim modelDir (map fst (VirtualCenter vConfig))))"

text \<open>
  The context the tests of pkg/check run in, \<^verbatim>\<open>SetupSimulatorWithConfig\<close> of pkg/check/util_test.go. It
  reads \<^verbatim>\<open>setup.VMConfig\<close> before it looks at the error, and the setup of an error is \<^verbatim>\<open>nil\<close>.
\<close>

definition SetupCheckContext ::
  "sim_env \<Rightarrow> connect_env \<Rightarrow> infrastructure option \<Rightarrow> string \<Rightarrow> string \<Rightarrow> check_context option" where
  "SetupCheckContext sim env infra modelDir configFileName =
     (case SetupSimulatorWithConfig sim env modelDir configFileName of
        None \<Rightarrow> None
      | Some (Inl err) \<Rightarrow> None
      | Some (Inr (vConfig, vcs)) \<Rightarrow>
          (let ctx = \<lparr>VMConfig = Some vConfig,
                 VCenters = map (\<lambda>(name, user). (name, \<lparr>VCenterName = name, Username = user\<rparr>)) vcs,
                 PlatformSpec = None\<rparr>
           in Some (case infra of None \<Rightarrow> ctx | Some i \<Rightarrow> ConvertToPlatformSpec i ctx)))"

text \<open>What the tests then work with: the context for one user name at every vCenter.\<close>

definition simulated_context :: "string \<Rightarrow> infrastructure \<Rightarrow> vsphere_config \<Rightarrow> check_context" where
  "simulated_context username infra cfg = ConvertToPlatformSpec infra
     \<lparr>VMConfig = Some cfg,
      VCenters = map (\<lambda>(name, c). (name, \<lparr>VCenterName = name, Username = username\<rparr>)) (VirtualCenter cfg),
      PlatformSpec = None\<rparr>"

lemma start_simulators_ok:
  assumes "sim_Load sim modelDir = None" "\<And>vc. vc \<in> set names \<Longrightarrow> sim_Connect sim vc = None"
    and "\<And>vc. vc \<in> set names \<Longrightarrow> sim_UserSession sim vc = Inr (Some u)"
  shows "start_simulators sim modelDir names = Some (Inr (map (\<lambda>vc. (vc, u)) names))"
  using assms by (induction names) simp_all

lemma SetupCheckContext_ok:
  assumes "GetVSphereConfig sim env file = Some cfg" "sim_Load sim modelDir = None"
    and "\<And>vc. vc \<in> fst ` set (VirtualCenter cfg) \<Longrightarrow> sim_Connect sim vc = None"
    and "\<And>vc. vc \<in> fst ` set (VirtualCenter cfg) \<Longrightarrow> sim_UserSession sim vc = Inr (Some u)"
  shows "SetupCheckContext sim env (Some infra) modelDir file = Some (simulated_context u infra cfg)"
proof -
  have "start_simulators sim modelDir (map fst (VirtualCenter cfg)) =
      Some (Inr (map (\<lambda>vc. (vc, u)) (map fst (VirtualCenter cfg))))"
    using assms(2-4) by (intro start_simulators_ok) auto
  then show ?thesis
    by (simp add: SetupCheckContext_def SetupSimulatorWithConfig_def assms(1) simulated_context_def comp_def
        case_prod_unfold)
qed

text \<open>An error of the simulator never comes out of the setup of a check test: it is a panic there.\<close>

lemma setup_error_panics:
  assumes "SetupSimulatorWithConfig sim env modelDir file = Some (Inl err)"
  shows "SetupCheckContext sim env infra modelDir file = None"
  using assms by (simp add: SetupCheckContext_def)

lemma setup_errors:
  assumes "GetVSphereConfig sim env file = Some cfg" "VirtualCenter cfg \<noteq> []" "sim_Load sim modelDir = Some err"
  shows "SetupSimulatorWithConfig sim env modelDir file = Some (Inl err)
    \<and> SetupCheckContext sim env infra modelDir file = None"
  using assms by (cases "VirtualCenter cfg") (auto simp: SetupCheckContext_def SetupSimulatorWithConfig_def)

end
