(* ===== verification/NodeChecks.thy ===== *)
theory NodeChecks
  imports CheckContext ClusterInfo
begin

text \<open>
  The node checks without state of their own: pkg/check/node_uuid.go, node_provider.go,
  node_hw_version.go, node_esxi_version.go and node_cbt.go. A \<^verbatim>\<open>CheckNode\<close> call returns an
  error or \<^verbatim>\<open>nil\<close> and calls the operations of \<^verbatim>\<open>ClusterInfo\<close>, each of which is atomic, so
  the model of a call is its error and the list of the operations it makes: calls for several
  nodes run in parallel, and an interleaving of calls is an interleaving of these lists.
\<close>

section \<open>The virtual machine\<close>

text \<open>
  The properties of \<^verbatim>\<open>NodeProperties\<close>; an \<^verbatim>\<open>extraConfig\<close> value is its \<^verbatim>\<open>%v\<close> text. The
  configuration is a pointer: vCenter leaves it out when it cannot read the files of the VM, and a
  check that follows it then panics. The result \<open>None\<close> of such a check is the panic.
\<close>

record vm_config =
  ExtraConfig :: "(string \<times> string) list"
  DiskUuidEnabled :: "bool option"
  Config_Version :: string

record vm =
  vm_Config :: "vm_config option"
  vm_Host :: "string option"
  vm_ResourcePool :: "string option"

type_synonym node_call = "go_error option \<times> info_op list"

record gauge =
  g_name :: string
  g_labels :: "string list"
  g_value :: nat

section \<open>CheckNode\<close>

definition CheckNodeDiskUUID :: "node \<Rightarrow> vm \<Rightarrow> node_call option" where
  "CheckNodeDiskUUID n v = map_option (\<lambda>config.
     (case DiskUuidEnabled config of
        None \<Rightarrow> (Some (Errorf ''the node has empty disk.enableUUID''), [])
      | Some b \<Rightarrow> if b = False then (Some (Errorf ''the node has disk.enableUUID = FALSE''), [])
                  else (None, []))) (vm_Config v)"

definition CheckNodeProviderID :: "node \<Rightarrow> vm \<Rightarrow> node_call" where
  "CheckNodeProviderID n v =
     (if ProviderID n = [] then (Some (Errorf ''the node has no node.spec.providerID configured''), [])
      else (None, []))"

definition CollectNodeHWVersion :: "node \<Rightarrow> vm \<Rightarrow> node_call option" where
  "CollectNodeHWVersion n v =
     map_option (\<lambda>config. (None, [OpSetHW (Config_Version config)])) (vm_Config v)"

definition CbtProperty :: string where "CbtProperty = ''ctkEnabled''"
definition cbtEnabledKey :: string where "cbtEnabledKey = ''enabled''"
definition cbtDisabledKey :: string where "cbtDisabledKey = ''disabled''"

text \<open>The loop over \<^verbatim>\<open>extraConfig\<close>, which stops at the first property of that name.\<close>

fun cbt_loop :: "(string \<times> string) list \<Rightarrow> info_op list" where
  "cbt_loop [] = [OpSetCbt cbtDisabledKey]"
| "cbt_loop ((key, val) # cfg) =
     (if key = CbtProperty
      then (if equal_fold val ''TRUE'' then [OpSetCbt cbtEnabledKey] else [OpSetCbt cbtDisabledKey])
      else cbt_loop cfg)"

definition CollectNodeCBT :: "node \<Rightarrow> vm \<Rightarrow> node_call option" where
  "CollectNodeCBT n v = map_option (\<lambda>config. (None, cbt_loop (ExtraConfig config))) (vm_Config v)"

text \<open>
  The ESXi check. \<open>processed\<close> is the answer of \<^verbatim>\<open>MarkHostForProcessing\<close>; the host's
  properties come from vCenter: an error, or the product version and API version, which are
  absent when \<^verbatim>\<open>host.config\<close> is \<^verbatim>\<open>nil\<close>.
\<close>

definition CollectNodeESXiVersion ::
  "(vcenter \<Rightarrow> string \<Rightarrow> go_error + (string \<times> string) option) \<Rightarrow> check_context \<Rightarrow> bool
   \<Rightarrow> node \<Rightarrow> vm \<Rightarrow> node_call" where
  "CollectNodeESXiVersion host_properties ctx processed n v =
     (case vm_Host v of
        None \<Rightarrow> (Some (Errorf (''error getting ESXi host for node '' @ node_Name n
                  @ '': vm.runtime.host is empty'')), [])
      | Some hostName \<Rightarrow>
        if processed then (None, [OpMarkHost hostName])
        else case GetVCenter ctx n of
          Inl err \<Rightarrow> (Some (Errorf (''error checking node '' @ node_Name n @ '': '' @ error_text err)),
                      [OpMarkHost hostName])
        | Inr vCenter \<Rightarrow>
          (case host_properties vCenter hostName of
             Inl err \<Rightarrow> (Some (Errorf (''failed to load ESXi host '' @ hostName @ '' for node ''
                         @ node_Name n @ '': '' @ error_text err)), [OpMarkHost hostName])
           | Inr None \<Rightarrow> (Some (Errorf (''error getting ESXi host version for node '' @ node_Name n
                           @ '': host.config is nil'')), [OpMarkHost hostName])
           | Inr (Some (version, apiVersion)) \<Rightarrow>
               (None, [OpMarkHost hostName, OpSetHost hostName version apiVersion])))"

section \<open>FinishCheck\<close>

definition finish_hw_versions :: "cluster_info \<Rightarrow> string list \<Rightarrow> gauge list" where
  "finish_hw_versions ci order =
     map (\<lambda>(v, n). \<lparr>g_name = ''vsphere_node_hw_version_total'', g_labels = [v], g_value = n\<rparr>)
       (range_map (GetHardwareVersion ci) order)"

definition finish_cbt :: "cluster_info \<Rightarrow> string list \<Rightarrow> gauge list" where
  "finish_cbt ci order =
     map (\<lambda>(e, n). \<lparr>g_name = ''vsphere_vm_cbt_checks'', g_labels = [e], g_value = n\<rparr>)
       (range_map (GetCbtData ci) order)"

text \<open>The ESXi histogram: \<^verbatim>\<open>versions[v]++\<close> for the version of every host.\<close>

definition esxi_histogram :: "cluster_info \<Rightarrow> string list \<Rightarrow> (ESXiVersionInfo \<rightharpoonup> nat)" where
  "esxi_histogram ci hosts =
     fold (\<lambda>v m. map_incr m v) (map snd (range_map (GetHostVersions ci) hosts)) Map.empty"

definition finish_esxi_versions ::
  "cluster_info \<Rightarrow> string list \<Rightarrow> ESXiVersionInfo list \<Rightarrow> gauge list" where
  "finish_esxi_versions ci hosts order =
     map (\<lambda>(v, n). \<lparr>g_name = ''vsphere_esxi_version_total'', g_labels = [Version v, APIVersion v],
                    g_value = n\<rparr>)
       (range_map (esxi_histogram ci hosts) order)"

section \<open>Lemmas\<close>

lemma hwVersions_run:
  assumes "OpReset \<notin> set ops"
  shows "map_count (hwVersions (info_run ops c)) v
      = map_count (hwVersions c) v + count_list ops (OpSetHW v)"
    "dom (hwVersions (info_run ops c)) = dom (hwVersions c) \<union> {v. OpSetHW v \<in> set ops}"
proof -
  have "map_count (hwVersions (info_run ops c)) v = map_count (hwVersions c) v + count_list ops (OpSetHW v)
    \<and> dom (hwVersions (info_run ops c)) = dom (hwVersions c) \<union> {v. OpSetHW v \<in> set ops}"
    using assms
  proof (induction ops arbitrary: c)
    case (Cons x ops)
    have x: "map_count (hwVersions (info_step x c)) v
        = map_count (hwVersions c) v + (if x = OpSetHW v then 1 else 0)"
      "dom (hwVersions (info_step x c)) = dom (hwVersions c) \<union> {v. x = OpSetHW v}"
      using Cons.prems by (cases x; auto simp: info_ops)+
    show ?case using Cons.IH [of "info_step x c"] Cons.prems x by (auto simp: eq_commute)
  qed simp
  then show "map_count (hwVersions (info_run ops c)) v
      = map_count (hwVersions c) v + count_list ops (OpSetHW v)"
    "dom (hwVersions (info_run ops c)) = dom (hwVersions c) \<union> {v. OpSetHW v \<in> set ops}" by simp_all
qed

lemma cbtEnabled_run:
  "map_count (cbtEnabled (info_run ops c)) v
      = map_count (cbtEnabled c) v + count_list ops (OpSetCbt v)"
proof (induction ops arbitrary: c)
  case (Cons x ops)
  have "map_count (cbtEnabled (info_step x c)) v
      = map_count (cbtEnabled c) v + (if x = OpSetCbt v then 1 else 0)"
    by (cases x) (auto simp: info_ops)
  then show ?case using Cons.IH [of "info_step x c"] by simp
qed simp

lemma cbt_loop_single:
  "cbt_loop cfg = [OpSetCbt (case map_of cfg CbtProperty of
     Some val \<Rightarrow> if equal_fold val ''TRUE'' then cbtEnabledKey else cbtDisabledKey
   | None \<Rightarrow> cbtDisabledKey)]"
  by (induction cfg rule: cbt_loop.induct) auto

section \<open>Properties\<close>

lemma map_count_New [simp]:
  "map_count (hwVersions NewClusterInfo) v = 0" "map_count (cbtEnabled NewClusterInfo) v = 0"
  "dom (hwVersions NewClusterInfo) = {}"
  by (simp_all add: NewClusterInfo_def)

lemma range_map_count:
  assumes "iteration_of m ks"
  shows "range_map m ks = map (\<lambda>k. (k, map_count m k)) ks"
  using assms by (auto simp: range_map_def map_count_def iteration_of_mem)

text \<open>The calls of the check for several nodes, when none of them panics.\<close>

fun hw_calls :: "(node \<times> vm) list \<Rightarrow> info_op list option" where
  "hw_calls [] = Some []"
| "hw_calls ((n, v) # vms) =
     (case CollectNodeHWVersion n v of
        None \<Rightarrow> None
      | Some (err, ops) \<Rightarrow> map_option (\<lambda>calls. ops @ calls) (hw_calls vms))"

definition hw_version :: "vm \<Rightarrow> string option" where
  "hw_version v = map_option Config_Version (vm_Config v)"

lemma CollectNodeHWVersion_eq:
  "CollectNodeHWVersion n v = map_option (\<lambda>x. (None, [OpSetHW x])) (hw_version v)"
  by (simp add: CollectNodeHWVersion_def hw_version_def option.map_comp comp_def)

lemma hw_calls_map:
  "hw_calls vms = Some calls \<Longrightarrow>
     \<exists>xs. calls = map OpSetHW xs \<and> map (hw_version \<circ> snd) vms = map Some xs"
proof (induction vms arbitrary: calls rule: hw_calls.induct)
  case (2 n v vms)
  then obtain x rest where x: "hw_version v = Some x" "hw_calls vms = Some rest"
    "calls = OpSetHW x # rest" by (auto simp: CollectNodeHWVersion_eq split: option.splits)
  have "\<exists>xs. rest = map OpSetHW xs \<and> map (hw_version \<circ> snd) vms = map Some xs"
    using 2(1) [of "(None, [OpSetHW x])" None "[OpSetHW x]" rest] x
    by (simp only: CollectNodeHWVersion_eq option.map)
  then obtain xs where "rest = map OpSetHW xs" "map (hw_version \<circ> snd) vms = map Some xs" by blast
  with x show ?case by (intro exI [of _ "x # xs"]) (simp add: comp_def)
qed simp

lemma count_filter_some:
  "map f vms = map Some xs \<Longrightarrow> count_list xs x = length (filter (\<lambda>a. f a = Some x) vms)"
  by (induction vms arbitrary: xs) (auto simp: Cons_eq_map_conv)

lemma hw_calls_count:
  assumes "hw_calls vms = Some calls"
  shows "count_list calls (OpSetHW x) = length (filter (\<lambda>(n, v). hw_version v = Some x) vms)"
    "set calls = {OpSetHW x | x. \<exists>(n, v) \<in> set vms. hw_version v = Some x}"
proof -
  obtain xs where xs: "calls = map OpSetHW xs" "map (hw_version \<circ> snd) vms = map Some xs"
    using hw_calls_map [OF assms] by blast
  have "count_list (map OpSetHW xs) (OpSetHW x) = count_list xs x" by (induction xs) auto
  then show "count_list calls (OpSetHW x) = length (filter (\<lambda>(n, v). hw_version v = Some x) vms)"
    using count_filter_some [OF xs(2), of x] xs(1) by (simp add: case_prod_beta')
  have image: "(hw_version \<circ> snd) ` set vms = Some ` set xs"
    using arg_cong [OF xs(2), of set] by (simp only: set_map)
  have "x \<in> set xs \<longleftrightarrow> (\<exists>(n, v) \<in> set vms. hw_version v = Some x)" for x
  proof -
    have "x \<in> set xs \<longleftrightarrow> Some x \<in> (hw_version \<circ> snd) ` set vms" unfolding image by blast
    also have "\<dots> \<longleftrightarrow> (\<exists>(n, v) \<in> set vms. hw_version v = Some x)"
      by (simp only: image_iff comp_apply case_prod_beta' eq_commute)
    finally show ?thesis .
  qed
  then show "set calls = {OpSetHW x | x. \<exists>(n, v) \<in> set vms. hw_version v = Some x}"
    using xs(1) by auto
qed

text \<open>
  The hardware version metric counts the nodes: after the check ran once for each node, in any
  interleaving with the other operations on \<^verbatim>\<open>ClusterInfo\<close> and without a panic,
  \<^verbatim>\<open>FinishCheck\<close> emits exactly
  one metric for each version some VM has, with the number of VMs of that version.
\<close>

theorem hw_metric_counts_nodes:
  assumes "hw_calls vms = Some calls" "mset ops = mset calls + mset others"
    and "OpReset \<notin> set others" "\<forall>x. OpSetHW x \<notin> set others"
    and "iteration_of (hwVersions (info_run ops NewClusterInfo)) order"
  shows "finish_hw_versions (info_run ops NewClusterInfo) order =
      map (\<lambda>x. \<lparr>g_name = ''vsphere_node_hw_version_total'', g_labels = [x],
                g_value = length (filter (\<lambda>(n, v). hw_version v = Some x) vms)\<rparr>) order
    \<and> distinct order \<and> set order = {x. \<exists>(n, v) \<in> set vms. hw_version v = Some x}"
proof -
  note calls = hw_calls_count [OF assms(1)]
  have ops: "set ops = set calls \<union> set others"
    using arg_cong [OF assms(2), of set_mset] by simp
  have reset: "OpReset \<notin> set ops" using assms(3) unfolding ops calls(2) by auto
  have count: "count_list ops (OpSetHW x) = length (filter (\<lambda>(n, v). hw_version v = Some x) vms)" for x
  proof -
    have "count_list others (OpSetHW x) = 0" using assms(4) by (simp add: count_list_0_iff)
    then show ?thesis using calls(1) [of x] by (simp add: count_list_mset assms(2))
  qed
  have "dom (hwVersions (info_run ops NewClusterInfo)) = {x. OpSetHW x \<in> set ops}"
    using hwVersions_run(2) [OF reset] by simp
  also have "\<dots> = {x. \<exists>(n, v) \<in> set vms. hw_version v = Some x}"
    using assms(4) unfolding ops calls(2) by auto
  finally have "set order = {x. \<exists>(n, v) \<in> set vms. hw_version v = Some x}"
    using assms(5) by (simp add: iteration_of_def)
  moreover have "finish_hw_versions (info_run ops NewClusterInfo) order =
      map (\<lambda>x. \<lparr>g_name = ''vsphere_node_hw_version_total'', g_labels = [x],
                g_value = length (filter (\<lambda>(n, v). hw_version v = Some x) vms)\<rparr>) order"
    using hwVersions_run(1) [OF reset, of NewClusterInfo]
    by (simp add: finish_hw_versions_def GetHardwareVersion_def range_map_count [OF assms(5)] count)
  ultimately show ?thesis using assms(5) by (simp add: iteration_of_def)
qed

definition plain_vm :: "string \<Rightarrow> vm" where
  "plain_vm hw = \<lparr>vm_Config = Some \<lparr>ExtraConfig = [(CbtProperty, ''true'')], DiskUuidEnabled = Some True,
     Config_Version = hw\<rparr>, vm_Host = Some ''h1'', vm_ResourcePool = None\<rparr>"

theorem hw_metric_counts_nodes_witness:
  "finish_hw_versions (info_run [OpSetHW ''vmx-15'', OpMarkHost ''h1'', OpSetHW ''vmx-13'', OpSetHW ''vmx-15'']
     NewClusterInfo) [''vmx-13'', ''vmx-15''] =
   [\<lparr>g_name = ''vsphere_node_hw_version_total'', g_labels = [''vmx-13''], g_value = 1\<rparr>,
    \<lparr>g_name = ''vsphere_node_hw_version_total'', g_labels = [''vmx-15''], g_value = 2\<rparr>]"
proof -
  let ?vms = "[(sample_node, plain_vm ''vmx-15''), (sample_node, plain_vm ''vmx-13''),
      (sample_node, plain_vm ''vmx-15'')]"
  let ?calls = "[OpSetHW ''vmx-15'', OpSetHW ''vmx-13'', OpSetHW ''vmx-15'']"
  let ?ops = "[OpSetHW ''vmx-15'', OpMarkHost ''h1'', OpSetHW ''vmx-13'', OpSetHW ''vmx-15'']"
  have order: "iteration_of (hwVersions (info_run ?ops NewClusterInfo)) [''vmx-13'', ''vmx-15'']"
    using hwVersions_run(2) [of ?ops NewClusterInfo] by (auto simp: iteration_of_def)
  have calls: "hw_calls ?vms = Some ?calls" by (simp add: CollectNodeHWVersion_def plain_vm_def)
  have "mset ?ops = mset ?calls + mset [OpMarkHost ''h1'']" by simp
  from hw_metric_counts_nodes [OF calls this _ _ order] show ?thesis
    by (simp add: plain_vm_def hw_version_def)
qed

end
