(* ===== verification/NodePerf.thy ===== *)
theory NodePerf
  imports CheckContext NodeChecks "HOL-Library.Word" "HOL-Library.Signed_Division"
begin

text \<open>
  pkg/check/node_perf.go: the check of the disk latency of control plane nodes. Latencies are
  \<^verbatim>\<open>int64\<close>, modelled as 64 bit words: the sum wraps around, the average is Go's division, which
  truncates. The map \<^verbatim>\<open>perfMetricIDMap\<close> is a global of the package: it is filled by the first call
  that reaches a vCenter, under a lock, and is never emptied. vCenter's answers are the record
  \<open>perf_env\<close>.
\<close>

section \<open>Data\<close>

type_synonym int64 = "64 word"

record MetricCheckDef =
  errorLevel :: int64
  metricName :: string
  errorEventMessage :: string
  checkMasters :: bool
  checkWorkers :: bool

definition metricMaxSamples :: nat where "metricMaxSamples = 300"
definition metricIntervalID :: nat where "metricIntervalID = 20"
definition minimumRequiredSamples :: int64 where "minimumRequiredSamples = 30"

definition metricCheckDefs :: "MetricCheckDef list" where
  "metricCheckDefs =
     [\<lparr>errorLevel = 100, metricName = ''disk.maxTotalLatency.latest'',
       errorEventMessage = ''master node has disk latency of greater than 100ms'',
       checkMasters = True, checkWorkers = False\<rparr>]"

record perf_metric_id =
  CounterId :: "32 word"
  Instance :: string

record perf_counter =
  pc_Key :: "32 word"
  pc_Name :: string

record perf_query =
  q_MetricId :: perf_metric_id
  q_MaxSample :: nat
  q_IntervalId :: nat

text \<open>The result of a query: for every entity its series, each a list of samples.\<close>

record perf_env =
  pe_Available :: "vcenter \<Rightarrow> vm \<Rightarrow> go_error + perf_metric_id list"
  pe_Counters :: "vcenter \<Rightarrow> (32 word) list \<Rightarrow> go_error + perf_counter list"
  pe_Query :: "vcenter \<Rightarrow> vm \<Rightarrow> perf_query \<Rightarrow> go_error + int64 list list list"

type_synonym perf_map = "string \<rightharpoonup> perf_metric_id"

section \<open>The counters\<close>

definition counter_map :: "perf_metric_id list \<Rightarrow> (32 word \<rightharpoonup> perf_metric_id)" where
  "counter_map ps = fold (\<lambda>perf m. m(CounterId perf \<mapsto> perf)) ps Map.empty"

fun fill_names :: "(32 word \<rightharpoonup> perf_metric_id) \<Rightarrow> perf_counter list \<Rightarrow> perf_map \<Rightarrow> perf_map" where
  "fill_names ids [] m = m"
| "fill_names ids (c # cs) m =
     (case ids (pc_Key c) of
        None \<Rightarrow> fill_names ids cs m
      | Some perf \<Rightarrow> fill_names ids cs (m(pc_Name c \<mapsto> perf)))"

definition BuildCounterIdMap ::
  "perf_env \<Rightarrow> vcenter \<Rightarrow> vm \<Rightarrow> perf_map \<Rightarrow> go_error option \<times> perf_map" where
  "BuildCounterIdMap env vc v m =
     (if m \<noteq> Map.empty then (None, m)
      else case pe_Available env vc v of
        Inl err \<Rightarrow> (Some err, m)
      | Inr perfList \<Rightarrow>
        (case pe_Counters env vc (map CounterId perfList) of
           Inl err \<Rightarrow> (Some err, m)
         | Inr perfCounters \<Rightarrow> (None, fill_names (counter_map perfList) perfCounters m)))"

definition GetPerfMetric ::
  "perf_env \<Rightarrow> vcenter \<Rightarrow> vm \<Rightarrow> string \<Rightarrow> perf_map \<Rightarrow> (go_error + perf_metric_id) \<times> perf_map" where
  "GetPerfMetric env vc v metric m =
     (case BuildCounterIdMap env vc v m of
        (Some err, m) \<Rightarrow> (Inl err, m)
      | (None, m) \<Rightarrow>
        (case m metric of
           None \<Rightarrow> (Inl (Errorf (''unable to find metric with name['' @ metric @ '']'')), m)
         | Some perf \<Rightarrow> (Inr perf, m)))"

section \<open>The check\<close>

definition master_label :: string where "master_label = ''node-role.kubernetes.io/master''"
definition worker_label :: string where "worker_label = ''node-role.kubernetes.io/worker''"

definition checkNodePerf :: "node \<Rightarrow> MetricCheckDef \<Rightarrow> bool" where
  "checkNodePerf n mcd =
     (let isMaster = (Labels n master_label \<noteq> None); isWorker = (Labels n worker_label \<noteq> None) in
      if isMaster \<and> checkMasters mcd = False then False
      else if isWorker \<and> checkWorkers mcd = False then
        (if isMaster \<and> checkMasters mcd then True else False)
      else if \<not> isMaster \<and> \<not> isWorker then False
      else True)"

text \<open>The loop over the samples of a series, and the average with Go's division.\<close>

fun accumulate :: "int64 list \<Rightarrow> int64 \<Rightarrow> int64" where
  "accumulate [] acc = acc"
| "accumulate (v # vs) acc = accumulate vs (acc + v)"

text \<open>Go's \<^verbatim>\<open>/\<close> on \<^verbatim>\<open>int64\<close>: the quotient is truncated towards zero.\<close>

definition go_div :: "int64 \<Rightarrow> int64 \<Rightarrow> int64" where
  "go_div a b = word_of_int (sint a sdiv sint b)"

text \<open>The series of one entity: \<open>True\<close> at the first average above the level.\<close>

fun series_loop :: "int64 \<Rightarrow> int64 list list \<Rightarrow> bool" where
  "series_loop level [] = False"
| "series_loop level (s # ss) =
     (let samples = (of_nat (length s) :: int64) in
      if samples <s minimumRequiredSamples then series_loop level ss
      else let averageLatency = go_div (accumulate s 0) samples in
        if level <s averageLatency then True else series_loop level ss)"

fun entity_loop :: "int64 \<Rightarrow> int64 list list list \<Rightarrow> bool \<Rightarrow> bool" where
  "entity_loop level [] hasError = hasError"
| "entity_loop level (r # rs) hasError =
     entity_loop level rs (if series_loop level r then True else hasError)"

definition PerformMetricCheck ::
  "perf_env \<Rightarrow> check_context \<Rightarrow> node \<Rightarrow> vm \<Rightarrow> MetricCheckDef \<Rightarrow> perf_map \<Rightarrow> go_error option \<times> perf_map" where
  "PerformMetricCheck env ctx n v mcd m =
     (if \<not> checkNodePerf n mcd then (None, m)
      else case GetVCenter ctx n of
        Inl err \<Rightarrow> (Some (Errorf (''unable to perform metric check of '' @ node_Name n @ '': ''
                     @ error_text err)), m)
      | Inr vCenter \<Rightarrow>
        (case GetPerfMetric env vCenter v (metricName mcd) m of
           (Inl err, m) \<Rightarrow> (None, m)
         | (Inr perfMetricID, m) \<Rightarrow>
           (case pe_Query env vCenter v \<lparr>q_MetricId = perfMetricID, q_MaxSample = metricMaxSamples,
                    q_IntervalId = metricIntervalID\<rparr> of
              Inl err \<Rightarrow> (None, m)
            | Inr res \<Rightarrow>
                (if entity_loop (errorLevel mcd) res False
                 then Some (Errorf (errorEventMessage mcd)) else None, m))))"

fun check_defs ::
  "perf_env \<Rightarrow> check_context \<Rightarrow> node \<Rightarrow> vm \<Rightarrow> MetricCheckDef list \<Rightarrow> perf_map \<Rightarrow> go_error option \<times> perf_map" where
  "check_defs env ctx n v [] m = (None, m)"
| "check_defs env ctx n v (mcd # mcds) m =
     (case PerformMetricCheck env ctx n v mcd m of
        (Some err, m) \<Rightarrow> (Some err, m)
      | (None, m) \<Rightarrow> check_defs env ctx n v mcds m)"

definition CheckNodeDiskPerf ::
  "perf_env \<Rightarrow> check_context \<Rightarrow> node \<Rightarrow> vm \<Rightarrow> perf_map \<Rightarrow> go_error option \<times> perf_map" where
  "CheckNodeDiskPerf env ctx n v m = check_defs env ctx n v metricCheckDefs m"

section \<open>The average does not wrap around\<close>

text \<open>A series as vCenter may send it: at most as many samples as asked for, each far from the limits.\<close>

definition sane_series :: "int64 list \<Rightarrow> bool" where
  "sane_series s \<longleftrightarrow> length s \<le> metricMaxSamples \<and> (\<forall>v \<in> set s. \<bar>sint v\<bar> \<le> 2 ^ 54)"

definition sample_sum :: "int64 list \<Rightarrow> int" where
  "sample_sum s = sum_list (map sint s)"

lemma sint_add_small:
  fixes a b :: int64
  assumes "\<bar>sint a + sint b\<bar> < 2 ^ 63"
  shows "sint (a + b) = sint a + sint b"
  using assms by (simp add: sint_word_ariths signed_take_bit_int_eq_self)

lemma accumulate_sint:
  assumes "\<forall>v \<in> set s. \<bar>sint v\<bar> \<le> B" "\<bar>sint acc\<bar> + int (length s) * B < 2 ^ 63"
  shows "sint (accumulate s acc) = sint acc + sample_sum s"
  using assms
proof (induction s arbitrary: acc)
  case (Cons v s)
  have v: "\<bar>sint v\<bar> \<le> B" and B: "0 \<le> B" using Cons.prems(1) by (auto intro: order_trans [OF abs_ge_zero])
  have bound: "\<bar>sint acc\<bar> + B + int (length s) * B < 2 ^ 63"
    using Cons.prems(2) by (simp add: algebra_simps)
  have rest: "0 \<le> int (length s) * B" using B by simp
  have add: "sint (acc + v) = sint acc + sint v"
    by (rule sint_add_small) (use v bound rest in linarith)
  have "\<bar>sint (acc + v)\<bar> + int (length s) * B < 2 ^ 63"
    unfolding add using v bound by linarith
  then show ?case using Cons.IH [of "acc + v"] Cons.prems(1) add by (simp add: sample_sum_def)
qed (simp add: sample_sum_def)

lemma sane_sum:
  assumes "sane_series s"
  shows "sint (accumulate s 0) = sample_sum s" "\<bar>sample_sum s\<bar> \<le> 300 * 2 ^ 54"
proof -
  have len: "int (length s) \<le> 300" using assms by (simp add: sane_series_def metricMaxSamples_def)
  have "int (length s) * 2 ^ 54 \<le> 300 * 2 ^ 54" using len by simp
  then show "sint (accumulate s 0) = sample_sum s"
    using accumulate_sint [of s "2 ^ 54" 0] assms by (simp add: sane_series_def)
  have "\<bar>sample_sum s\<bar> \<le> int (length s) * 2 ^ 54" if "\<forall>v \<in> set s. \<bar>sint v\<bar> \<le> 2 ^ 54" for s :: "int64 list"
    using that by (induction s) (auto simp: sample_sum_def algebra_simps)
  then show "\<bar>sample_sum s\<bar> \<le> 300 * 2 ^ 54" using assms len by (fastforce simp: sane_series_def)
qed

lemma sint_count: "n \<le> 300 \<Longrightarrow> sint (of_nat n :: int64) = int n"
  by (simp add: sint_uint unsigned_of_nat take_bit_nat_eq_self take_bit_int_eq_self signed_take_bit_int_eq_self)

lemma div_above:
  fixes a n k :: int
  assumes "0 < n"
  shows "k < a div n \<longleftrightarrow> (k + 1) * n \<le> a"
proof
  assume "k < a div n"
  then have "(k + 1) * n \<le> (a div n) * n" using assms by (intro mult_right_mono) auto
  also have "\<dots> \<le> a" using assms by (simp add: minus_mod_eq_div_mult [symmetric])
  finally show "(k + 1) * n \<le> a" .
next
  assume "(k + 1) * n \<le> a"
  then have "(k + 1) * n div n \<le> a div n" using assms by (intro zdiv_mono1)
  then show "k < a div n" using assms by simp
qed

lemma sdiv_above: "0 < n \<Longrightarrow> 0 \<le> k \<Longrightarrow> k < (a::int) sdiv n \<longleftrightarrow> (k + 1) * n \<le> a"
proof (cases "0 \<le> a")
  case True
  assume n: "0 < n"
  have "k < a div n \<longleftrightarrow> (k + 1) * n \<le> a" by (rule div_above [OF n])
  then show ?thesis using True n by (cases "a = 0") (simp_all add: signed_divide_int_def)
next
  case False
  assume n: "0 < n" and k: "0 \<le> k"
  have "a sdiv n \<le> 0" using False n by (simp add: signed_divide_int_def sgn_if pos_imp_zdiv_nonneg_iff)
  moreover have "0 < (k + 1) * n" using n k by simp
  ultimately show ?thesis using False k by linarith
qed

lemma sdiv_abs:
  fixes a n :: int
  assumes "0 < n"
  shows "\<bar>a sdiv n\<bar> \<le> \<bar>a\<bar>"
proof -
  have "\<bar>a\<bar> div n \<le> \<bar>a\<bar> div 1" using assms by (intro zdiv_mono2) auto
  moreover have "0 \<le> \<bar>a\<bar> div n" using assms by (simp add: pos_imp_zdiv_nonneg_iff)
  moreover have "\<bar>a sdiv n\<bar> = \<bar>sgn a\<bar> * (\<bar>a\<bar> div n)"
    using assms calculation(2) by (simp add: signed_divide_int_def abs_mult)
  ultimately show ?thesis by (cases "a = 0") simp_all
qed

text \<open>A series with enough samples whose average, rounded towards zero, is above the level.\<close>

definition series_slow :: "int \<Rightarrow> int64 list \<Rightarrow> bool" where
  "series_slow level s \<longleftrightarrow> 30 \<le> length s \<and> (level + 1) * int (length s) \<le> sample_sum s"

lemma average_above:
  assumes "sane_series s" "s \<noteq> []" "0 \<le> sint level"
  shows "level <s go_div (accumulate s 0) (of_nat (length s)) \<longleftrightarrow>
     (sint level + 1) * int (length s) \<le> sample_sum s"
proof -
  let ?n = "int (length s)"
  have len: "length s \<le> 300" "0 < ?n" using assms by (auto simp: sane_series_def metricMaxSamples_def)
  note S = sane_sum [OF assms(1)]
  have "\<bar>sample_sum s sdiv ?n\<bar> \<le> \<bar>sample_sum s\<bar>"
    by (rule sdiv_abs [OF len(2)])
  then have q: "\<bar>sample_sum s sdiv ?n\<bar> < 2 ^ 63" using S(2) by simp
  have "sint (go_div (accumulate s 0) (of_nat (length s))) = sample_sum s sdiv ?n"
    using q by (simp add: go_div_def S(1) sint_count [OF len(1)] signed_of_int signed_take_bit_int_eq_self)
  then show ?thesis
    using sdiv_above [OF len(2) assms(3)] by (simp add: word_sless_alt)
qed

lemma series_loop_slow:
  assumes "\<forall>s \<in> set ss. sane_series s" "0 \<le> sint level"
  shows "series_loop level ss \<longleftrightarrow> (\<exists>s \<in> set ss. series_slow (sint level) s)"
  using assms(1)
proof (induction ss)
  case (Cons s ss)
  have sane: "sane_series s" using Cons.prems by simp
  have few: "(of_nat (length s) :: int64) <s minimumRequiredSamples \<longleftrightarrow> length s < 30"
    using sane by (simp add: word_sless_alt minimumRequiredSamples_def sane_series_def metricMaxSamples_def
        sint_count)
  show ?case
  proof (cases "length s < 30")
    case True
    then show ?thesis using Cons few by (simp add: Let_def series_slow_def)
  next
    case False
    then have "s \<noteq> []" by auto
    from average_above [OF sane this assms(2)] False few Cons show ?thesis
      by (simp add: Let_def series_slow_def)
  qed
qed simp

lemma entity_loop_eq: "entity_loop level rs e \<longleftrightarrow> e \<or> (\<exists>r \<in> set rs. series_loop level r)"
  by (induction rs arbitrary: e) auto

section \<open>Properties\<close>

text \<open>What a node's disks must not do, for a counter that is known.\<close>

definition disk_slow :: "perf_env \<Rightarrow> vcenter \<Rightarrow> vm \<Rightarrow> perf_metric_id \<Rightarrow> bool" where
  "disk_slow env vc v pid \<longleftrightarrow>
     (\<exists>res. pe_Query env vc v \<lparr>q_MetricId = pid, q_MaxSample = metricMaxSamples, q_IntervalId = metricIntervalID\<rparr>
        = Inr res \<and> (\<exists>r \<in> set res. \<exists>s \<in> set r. series_slow 100 s))"

definition perf_env_sane :: "perf_env \<Rightarrow> bool" where
  "perf_env_sane env \<longleftrightarrow> (\<forall>vc v q res. pe_Query env vc v q = Inr res \<longrightarrow>
     (\<forall>r \<in> set res. \<forall>s \<in> set r. sane_series s))"

lemma perf_query_slow:
  assumes "perf_env_sane env" "pe_Query env vc v q = Inr res"
  shows "entity_loop 100 res False \<longleftrightarrow> (\<exists>r \<in> set res. \<exists>s \<in> set r. series_slow 100 s)"
proof -
  have "series_loop 100 r \<longleftrightarrow> (\<exists>s \<in> set r. series_slow 100 s)" if "r \<in> set res" for r
    using series_loop_slow [of r 100] assms that unfolding perf_env_sane_def by simp
  then show ?thesis by (simp add: entity_loop_eq)
qed

text \<open>The counter a call uses: that of the map, which the call fills when it is empty.\<close>

definition perf_counter_of :: "perf_env \<Rightarrow> vcenter \<Rightarrow> vm \<Rightarrow> perf_map \<Rightarrow> perf_metric_id option" where
  "perf_counter_of env vc v m =
     (case BuildCounterIdMap env vc v m of
        (Some _, _) \<Rightarrow> None | (None, m) \<Rightarrow> m ''disk.maxTotalLatency.latest'')"

lemma GetPerfMetric_counter:
  "(case fst (GetPerfMetric env vc v ''disk.maxTotalLatency.latest'' m) of Inl _ \<Rightarrow> None | Inr p \<Rightarrow> Some p)
     = perf_counter_of env vc v m"
  by (cases "BuildCounterIdMap env vc v m")
    (auto simp: GetPerfMetric_def perf_counter_of_def split: option.splits)

text \<open>
  C38: The performance check looks at nodes with the master label only, schedulable or not. It
  reports such a node exactly when its vCenter cannot be told, or when the latency counter is
  known, the query succeeds and some series of at least 30 samples has an average of 101 ms or
  more: the sum of up to 300 samples does not wrap around, and the average is rounded towards
  zero, so an average between 100 and 101 ms passes. Every failure to get the data passes.
\<close>

theorem disk_latency_exact:
  assumes "perf_env_sane env"
  shows "fst (CheckNodeDiskPerf env ctx n v m) \<noteq> None \<longleftrightarrow>
    Labels n master_label \<noteq> None \<and>
    (case GetVCenter ctx n of
       Inl _ \<Rightarrow> True
     | Inr vc \<Rightarrow> \<exists>pid. perf_counter_of env vc v m = Some pid \<and> disk_slow env vc v pid)"
proof -
  have judge: "checkNodePerf n mcd \<longleftrightarrow> Labels n master_label \<noteq> None" if "mcd \<in> set metricCheckDefs" for mcd
    using that by (auto simp: metricCheckDefs_def checkNodePerf_def Let_def)
  have one: "fst (CheckNodeDiskPerf env ctx n v m) = fst (PerformMetricCheck env ctx n v (hd metricCheckDefs) m)"
    by (auto simp: CheckNodeDiskPerf_def metricCheckDefs_def split: prod.split option.split)
  have defs: "hd metricCheckDefs \<in> set metricCheckDefs" "errorLevel (hd metricCheckDefs) = 100"
    "metricName (hd metricCheckDefs) = ''disk.maxTotalLatency.latest''"
    by (simp_all add: metricCheckDefs_def)
  show ?thesis
  proof (cases "GetVCenter ctx n")
    case (Inl e)
    then show ?thesis unfolding one by (simp add: PerformMetricCheck_def judge [OF defs(1)])
  next
    case (Inr vc)
    obtain r m' where g: "GetPerfMetric env vc v ''disk.maxTotalLatency.latest'' m = (r, m')" by fastforce
    have counter: "perf_counter_of env vc v m = (case r of Inl _ \<Rightarrow> None | Inr p \<Rightarrow> Some p)"
      using GetPerfMetric_counter [of env vc v m] g by simp
    show ?thesis
    proof (cases r)
      case (Inl e)
      then show ?thesis
        unfolding one using Inr g counter
        by (simp add: PerformMetricCheck_def defs(3))
    next
      case pid: (Inr pid)
      have c: "perf_counter_of env vc v m = Some pid" using counter pid by simp
      show ?thesis
        unfolding one using Inr g pid
        by (auto simp: PerformMetricCheck_def judge [OF defs(1)] defs(2,3) disk_slow_def c
            perf_query_slow [OF assms] split: sum.splits)
    qed
  qed
qed

definition perf_run :: "perf_env \<Rightarrow> check_context \<Rightarrow> (node \<times> vm) list \<Rightarrow> perf_map \<Rightarrow> perf_map" where
  "perf_run env ctx calls m = fold (\<lambda>(n, v) m. snd (CheckNodeDiskPerf env ctx n v m)) calls m"

lemma CheckNodeDiskPerf_filled:
  assumes "m \<noteq> Map.empty"
  shows "snd (CheckNodeDiskPerf env ctx n v m) = m"
    "fst (CheckNodeDiskPerf env ctx n v m)
      = fst (CheckNodeDiskPerf (env\<lparr>pe_Available := a, pe_Counters := c\<rparr>) ctx n v m)"
  using assms
  by (auto simp: CheckNodeDiskPerf_def metricCheckDefs_def PerformMetricCheck_def GetPerfMetric_def
      BuildCounterIdMap_def split: option.splits sum.splits prod.splits)

text \<open>
  The counters are those of the vCenter that was asked first. Once the map is filled no later
  call, whichever vCenter its node is on, changes it, and no later check depends on what its own
  vCenter answers about its counters: the identifiers of the first vCenter are sent to all.
\<close>

theorem perf_counters_of_first_vcenter:
  assumes "m \<noteq> Map.empty"
  shows "perf_run env ctx calls m = m \<and>
    fst (CheckNodeDiskPerf env ctx n v (perf_run env ctx calls m))
      = fst (CheckNodeDiskPerf (env\<lparr>pe_Available := a, pe_Counters := c\<rparr>) ctx n v m)"
proof -
  have "perf_run env ctx calls m = m"
    by (induction calls) (auto simp: perf_run_def CheckNodeDiskPerf_filled [OF assms])
  then show ?thesis using CheckNodeDiskPerf_filled(2) [OF assms] by simp
qed

definition latency_id :: perf_metric_id where
  "latency_id = \<lparr>CounterId = 133, Instance = []\<rparr>"

definition slow_disk_env :: perf_env where
  "slow_disk_env = \<lparr>pe_Available = (\<lambda>vc v. Inr [latency_id]),
     pe_Counters = (\<lambda>vc ids. Inr [\<lparr>pc_Key = 133, pc_Name = ''disk.maxTotalLatency.latest''\<rparr>]),
     pe_Query = (\<lambda>vc v q. Inr [[replicate 30 101]])\<rparr>"

definition master_node :: node where
  "master_node = sample_node\<lparr>Labels := (Labels sample_node)(master_label \<mapsto> [], worker_label \<mapsto> [])\<rparr>"

lemma slow_disk_env_sane: "perf_env_sane slow_disk_env"
  by (simp add: perf_env_sane_def slow_disk_env_def sane_series_def metricMaxSamples_def)

theorem disk_latency_exact_witness:
  "fst (CheckNodeDiskPerf slow_disk_env sample_ctx master_node (plain_vm ''vmx-15'') Map.empty) \<noteq> None"
proof -
  have "perf_counter_of slow_disk_env vc (plain_vm ''vmx-15'') Map.empty = Some latency_id" for vc
    by (simp add: perf_counter_of_def BuildCounterIdMap_def slow_disk_env_def counter_map_def latency_id_def)
  moreover have "disk_slow slow_disk_env vc (plain_vm ''vmx-15'') latency_id" for vc
    by (simp add: disk_slow_def slow_disk_env_def series_slow_def sample_sum_def map_replicate
        sum_list_replicate)
  moreover have "Labels master_node master_label \<noteq> None" by (simp add: master_node_def)
  ultimately show ?thesis
    unfolding disk_latency_exact [OF slow_disk_env_sane] by (simp split: sum.split)
qed

theorem perf_counters_of_first_vcenter_witness:
  "fst (CheckNodeDiskPerf slow_disk_env sample_ctx master_node (plain_vm ''vmx-15'') [''disk.maxTotalLatency.latest'' \<mapsto> latency_id])
   = fst (CheckNodeDiskPerf (slow_disk_env\<lparr>pe_Available := \<lambda>vc v. Inr [], pe_Counters := \<lambda>vc ids. Inr []\<rparr>)
       sample_ctx master_node (plain_vm ''vmx-15'') [''disk.maxTotalLatency.latest'' \<mapsto> latency_id])"
  using perf_counters_of_first_vcenter [of "[''disk.maxTotalLatency.latest'' \<mapsto> latency_id]" slow_disk_env
      sample_ctx "[]" master_node "plain_vm ''vmx-15''" "\<lambda>vc ids. Inr []" "\<lambda>vc v. Inr []"]
  by (simp add: perf_run_def)

end
