(* ===== verification/MetricsCollector.thy ===== *)
theory MetricsCollector
  imports Prelude
begin

text \<open>
  \<^verbatim>\<open>Collector\<close> of pkg/metrics/collector.go: metrics of the round in progress are gathered
  apart from the ones a Prometheus scrape reads, and \<^verbatim>\<open>FinishedAllChecks\<close> publishes
  them. Every method holds the collector's lock for its whole body. A metric is opaque here:
  the type variable \<^typ>\<open>'m\<close>.

  After \<^verbatim>\<open>FinishedAllChecks\<close> both Go slices share one backing array. A later append
  writes behind the published slice's length and \<^verbatim>\<open>StartMetricCollection\<close> installs a
  fresh slice, so the sharing is never observable and lists model both slices.
\<close>

record 'm collector =
  currentMetrics :: "'m list"
  inProgressMetrics :: "'m list"

definition NewMetricsCollector :: "'m collector" where
  "NewMetricsCollector = \<lparr>currentMetrics = [], inProgressMetrics = []\<rparr>"

definition CollectWithStability :: "'m collector \<Rightarrow> 'm list" where
  "CollectWithStability c = currentMetrics c"

definition AddMetric :: "'m \<Rightarrow> 'm collector \<Rightarrow> 'm collector" where
  "AddMetric m c = c\<lparr>inProgressMetrics := inProgressMetrics c @ [m]\<rparr>"

definition StartMetricCollection :: "'m collector \<Rightarrow> 'm collector" where
  "StartMetricCollection c = c\<lparr>inProgressMetrics := []\<rparr>"

definition FinishedAllChecks :: "'m collector \<Rightarrow> 'm collector" where
  "FinishedAllChecks c = c\<lparr>currentMetrics := inProgressMetrics c\<rparr>"

text \<open>The calls made on a collector over time.\<close>

datatype 'm collector_call = CallStart | CallAdd 'm | CallFinish

fun collector_step :: "'m collector_call \<Rightarrow> 'm collector \<Rightarrow> 'm collector" where
  "collector_step CallStart c = StartMetricCollection c"
| "collector_step (CallAdd m) c = AddMetric m c"
| "collector_step CallFinish c = FinishedAllChecks c"

definition collector_run :: "'m collector_call list \<Rightarrow> 'm collector \<Rightarrow> 'm collector" where
  "collector_run calls c = fold collector_step calls c"

section \<open>What a scrape sees\<close>

text \<open>
  The specification reads the history backwards, newest call first: the round in progress is
  everything added since the last start, and what is published is the round that was in
  progress at the last finish.
\<close>

fun round_of :: "'m collector_call list \<Rightarrow> 'm list" where
  "round_of [] = []"
| "round_of (CallStart # past) = []"
| "round_of (CallAdd m # past) = round_of past @ [m]"
| "round_of (CallFinish # past) = round_of past"

fun published :: "'m collector_call list \<Rightarrow> 'm list" where
  "published [] = []"
| "published (CallFinish # past) = round_of past"
| "published (CallStart # past) = published past"
| "published (CallAdd m # past) = published past"

lemmas collector_defs = AddMetric_def StartMetricCollection_def FinishedAllChecks_def
  CollectWithStability_def NewMetricsCollector_def

lemma collector_run_snoc:
  "collector_run (calls @ [x]) c = collector_step x (collector_run calls c)"
  by (simp add: collector_run_def)

lemma collector_run_round:
  "inProgressMetrics (collector_run calls NewMetricsCollector) = round_of (rev calls)
   \<and> currentMetrics (collector_run calls NewMetricsCollector) = published (rev calls)"
proof (induction calls rule: rev_induct)
  case Nil
  show ?case by (simp add: collector_run_def collector_defs)
next
  case (snoc x calls)
  then show ?case by (cases x) (auto simp: collector_run_snoc collector_defs)
qed

lemma published_no_finish:
  "CallFinish \<notin> set past \<Longrightarrow> published (past @ older) = published older"
  by (induction past rule: published.induct) auto

section \<open>Properties\<close>

text \<open>
  Over any history of calls on a new collector, a scrape returns exactly the metrics that
  were added between the last \<^verbatim>\<open>StartMetricCollection\<close> before the last \<^verbatim>\<open>FinishedAllChecks\<close>
  and that call, in the order they were added: a round in progress, or one that never finished,
  is never visible.
\<close>

theorem scrape_sees_last_finished_round:
  "CollectWithStability (collector_run calls NewMetricsCollector) = published (rev calls)"
  by (simp add: CollectWithStability_def collector_run_round)

end
