(* ===== verification/ThreadPool.thy ===== *)
theory ThreadPool
  imports Prelude
begin

text \<open>
  \<^verbatim>\<open>CheckThreadPool\<close> of pkg/operator/pool.go as a state machine: one rule per atomic step
  of the goroutines involved, in any interleaving.
  \<^item> The callers of \<^verbatim>\<open>RunGoroutine\<close>: \<open>submit\<close> is \<^verbatim>\<open>wg.Add(1)\<close>; the send on the channel
    is \<open>send\<close> (room in the buffer) or \<open>handoff\<close> (a worker is receiving), and until then the
    caller is blocked with its work in \<open>pending\<close>.
  \<^item> The workers: \<open>receive\<close>, \<open>finish\<close> (the work returned, the deferred \<^verbatim>\<open>wg.Done()\<close> ran) and
    \<open>leave\<close> (the \<^verbatim>\<open>range\<close> loop over the closed and drained channel ends).
  \<^item> \<^verbatim>\<open>Wait\<close>: \<open>wait\<close> starts its goroutine, which after \<^verbatim>\<open>wg.Wait()\<close> closes \<^verbatim>\<open>done\<close>
    (\<open>release\<close>) and then the work channel (\<open>shut\<close>). \<^verbatim>\<open>Wait\<close> returns \<^verbatim>\<open>nil\<close> only when \<^verbatim>\<open>done\<close>
    is closed; when its context expires first it returns an error and the rest goes on.

  As in \<^verbatim>\<open>runChecks\<close>, all work is submitted before \<^verbatim>\<open>Wait\<close> is called. A panic of a work
  function ends the whole process (nothing recovers it), so it is not a step. \<open>submitted\<close> and
  \<open>completed\<close> are the history of the pool; they steer nothing.
\<close>

datatype 'w worker = Idle | Busy 'w | Left

record 'w pool =
  wg :: nat
  pending :: "'w list"
  workCh :: "'w list"
  bufferSize :: nat
  closed :: bool
  workers :: "'w worker list"
  wait_called :: bool
  done_closed :: bool
  submitted :: "'w list"
  completed :: "'w list"

definition NewCheckThreadPool :: "nat \<Rightarrow> nat \<Rightarrow> 'w pool" where
  "NewCheckThreadPool parallelism channelBufferSize =
     \<lparr>wg = 0, pending = [], workCh = [], bufferSize = channelBufferSize, closed = False,
      workers = replicate parallelism Idle, wait_called = False, done_closed = False,
      submitted = [], completed = []\<rparr>"

inductive RunGoroutine :: "'w \<Rightarrow> 'w pool \<Rightarrow> 'w pool \<Rightarrow> bool" where
  submit: "\<not> wait_called s \<Longrightarrow>
     RunGoroutine w s (s\<lparr>wg := Suc (wg s), pending := pending s @ [w],
                        submitted := submitted s @ [w]\<rparr>)"

inductive pool_step :: "'w pool \<Rightarrow> 'w pool \<Rightarrow> bool" where
  send: "pending s = us @ w # vs \<Longrightarrow> \<not> closed s \<Longrightarrow> length (workCh s) < bufferSize s \<Longrightarrow>
     pool_step s (s\<lparr>pending := us @ vs, workCh := workCh s @ [w]\<rparr>)"
| handoff: "pending s = us @ w # vs \<Longrightarrow> \<not> closed s \<Longrightarrow> workCh s = [] \<Longrightarrow>
     i < length (workers s) \<Longrightarrow> workers s ! i = Idle \<Longrightarrow>
     pool_step s (s\<lparr>pending := us @ vs, workers := (workers s)[i := Busy w]\<rparr>)"
| receive: "workCh s = w # rest \<Longrightarrow> i < length (workers s) \<Longrightarrow> workers s ! i = Idle \<Longrightarrow>
     pool_step s (s\<lparr>workCh := rest, workers := (workers s)[i := Busy w]\<rparr>)"
| finish: "i < length (workers s) \<Longrightarrow> workers s ! i = Busy w \<Longrightarrow>
     pool_step s (s\<lparr>workers := (workers s)[i := Idle], wg := wg s - 1,
                    completed := completed s @ [w]\<rparr>)"
| wait: "\<not> wait_called s \<Longrightarrow> pool_step s (s\<lparr>wait_called := True\<rparr>)"
| release: "wait_called s \<Longrightarrow> wg s = 0 \<Longrightarrow> \<not> done_closed s \<Longrightarrow>
     pool_step s (s\<lparr>done_closed := True\<rparr>)"
| shut: "done_closed s \<Longrightarrow> \<not> closed s \<Longrightarrow> pool_step s (s\<lparr>closed := True\<rparr>)"
| leave: "closed s \<Longrightarrow> workCh s = [] \<Longrightarrow> i < length (workers s) \<Longrightarrow> workers s ! i = Idle \<Longrightarrow>
     pool_step s (s\<lparr>workers := (workers s)[i := Left]\<rparr>)"

inductive_cases RunGoroutineE: "RunGoroutine w s t"
inductive_cases pool_stepE: "pool_step s t"

inductive pool_reachable :: "nat \<Rightarrow> nat \<Rightarrow> 'w pool \<Rightarrow> bool" for p cap where
  start: "pool_reachable p cap (NewCheckThreadPool p cap)"
| run: "pool_reachable p cap s \<Longrightarrow> RunGoroutine w s t \<Longrightarrow> pool_reachable p cap t"
| internal: "pool_reachable p cap s \<Longrightarrow> pool_step s t \<Longrightarrow> pool_reachable p cap t"

text \<open>\<^verbatim>\<open>Wait\<close>'s \<^verbatim>\<open>select\<close>: the results it can return in a state of the pool.\<close>

definition wait_returns_nil :: "'w pool \<Rightarrow> bool" where
  "wait_returns_nil s \<longleftrightarrow> done_closed s"

section \<open>The work the workers hold\<close>

fun busy_of :: "'w worker list \<Rightarrow> 'w list" where
  "busy_of [] = []"
| "busy_of (Busy w # ws) = w # busy_of ws"
| "busy_of (Idle # ws) = busy_of ws"
| "busy_of (Left # ws) = busy_of ws"

lemma busy_of_Cons: "busy_of (x # xs) = (case x of Busy w \<Rightarrow> [w] | _ \<Rightarrow> []) @ busy_of xs"
  by (cases x) auto

lemma busy_of_replicate [simp]: "busy_of (replicate n Idle) = []"
  by (induction n) auto

lemma length_busy_of: "length (busy_of ws) \<le> length ws"
  by (induction ws rule: busy_of.induct) auto

lemma mset_busy_take:
  "i < length ws \<Longrightarrow> ws ! i = Idle \<Longrightarrow>
   mset (busy_of (ws[i := Busy w])) = add_mset w (mset (busy_of ws))"
proof (induction ws arbitrary: i)
  case (Cons x ws)
  then show ?case by (cases i) (auto simp: busy_of_Cons)
qed simp

lemma mset_busy_finish:
  "i < length ws \<Longrightarrow> ws ! i = Busy w \<Longrightarrow>
   mset (busy_of ws) = add_mset w (mset (busy_of (ws[i := Idle])))"
proof (induction ws arbitrary: i)
  case (Cons x ws)
  then show ?case by (cases i) (auto simp: busy_of_Cons)
qed simp

lemma busy_leave: "i < length ws \<Longrightarrow> ws ! i = Idle \<Longrightarrow> busy_of (ws[i := Left]) = busy_of ws"
proof (induction ws arbitrary: i)
  case (Cons x ws)
  then show ?case by (cases i) (auto simp: busy_of_Cons)
qed simp

lemma length_busy_take:
  "i < length ws \<Longrightarrow> ws ! i = Idle \<Longrightarrow> length (busy_of (ws[i := Busy w])) = Suc (length (busy_of ws))"
  using arg_cong [OF mset_busy_take, of i ws size] by simp

lemma length_busy_finish:
  "i < length ws \<Longrightarrow> ws ! i = Busy w \<Longrightarrow> length (busy_of ws) = Suc (length (busy_of (ws[i := Idle])))"
  using arg_cong [OF mset_busy_finish, of i ws w size] by simp

lemmas busy_updates = mset_busy_take busy_leave length_busy_take

lemma busy_of_Nil: "busy_of ws = [] \<longleftrightarrow> (\<forall>i < length ws. \<forall>w. ws ! i \<noteq> Busy w)"
proof (induction ws)
  case (Cons x ws)
  then show ?case by (cases x) (auto simp: nth_Cons split: nat.splits)
qed simp

section \<open>The invariant\<close>

definition pool_inv :: "nat \<Rightarrow> nat \<Rightarrow> 'w pool \<Rightarrow> bool" where
  "pool_inv p cap s \<longleftrightarrow>
     length (workers s) = p \<and> bufferSize s = cap \<and> length (workCh s) \<le> cap \<and>
     wg s = length (pending s) + length (workCh s) + length (busy_of (workers s)) \<and>
     mset (submitted s) =
       mset (pending s) + mset (workCh s) + mset (busy_of (workers s)) + mset (completed s) \<and>
     (done_closed s \<longrightarrow> wait_called s \<and> wg s = 0) \<and> (closed s \<longrightarrow> done_closed s) \<and>
     (Left \<in> set (workers s) \<longrightarrow> closed s)"

lemma pool_inv_start: "pool_inv p cap (NewCheckThreadPool p cap)"
  by (auto simp: pool_inv_def NewCheckThreadPool_def)

lemma pool_inv_run: "RunGoroutine w s t \<Longrightarrow> pool_inv p cap s \<Longrightarrow> pool_inv p cap t"
  by (erule RunGoroutineE) (auto simp: pool_inv_def)

lemma set_update_subset: "x \<in> set (xs[i := y]) \<Longrightarrow> x = y \<or> x \<in> set xs"
  by (meson in_mono insertE set_update_subset_insert)

lemma pool_inv_step:
  assumes "pool_step s t" "pool_inv p cap s"
  shows "pool_inv p cap t"
  using assms
proof (cases rule: pool_step.cases)
  case (finish i w)
  have "wg s > 0" using assms(2) finish length_busy_finish [of i "workers s" w]
    by (simp add: pool_inv_def)
  then show ?thesis
    using assms(2) finish mset_busy_finish [of i "workers s" w] length_busy_finish [of i "workers s" w]
    by (auto simp: pool_inv_def dest: set_update_subset)
next
  case (handoff us w vs i)
  then show ?thesis
    using assms(2) by (auto simp: pool_inv_def busy_updates dest: set_update_subset)
next
  case (receive w rest i)
  then show ?thesis
    using assms(2) by (auto simp: pool_inv_def busy_updates dest: set_update_subset)
next
  case (leave i)
  then show ?thesis
    using assms(2) by (auto simp: pool_inv_def busy_updates dest: set_update_subset)
qed (auto simp: pool_inv_def)

lemma pool_reachable_inv: "pool_reachable p cap s \<Longrightarrow> pool_inv p cap s"
  by (induction rule: pool_reachable.induct) (auto intro: pool_inv_start pool_inv_run pool_inv_step)

section \<open>Progress and termination\<close>

text \<open>
  Every step of the workers and of \<^verbatim>\<open>Wait\<close> makes this measure smaller: a work weighs 3 while
  its caller is blocked, 2 in the buffer, 1 on a worker.
\<close>

definition pool_measure :: "'w pool \<Rightarrow> nat" where
  "pool_measure s =
     3 * length (pending s) + 2 * length (workCh s) + length (busy_of (workers s))
     + (if wait_called s then 0 else 1) + (if done_closed s then 0 else 1)
     + (if closed s then 0 else 1) + length (filter (\<lambda>x. x \<noteq> Left) (workers s))"

lemma length_filter_update:
  assumes "i < length xs"
  shows "length (filter P (xs[i := y])) + (if P (xs ! i) then 1 else 0) =
    length (filter P xs) + (if P y then 1 else 0)"
  using assms
proof (induction xs arbitrary: i)
  case (Cons x xs)
  then show ?case by (cases i) auto
qed simp

lemma pool_step_measure:
  assumes "pool_step s t"
  shows "pool_measure t < pool_measure s"
  using assms
proof (cases rule: pool_step.cases)
  case (handoff us w vs i)
  then show ?thesis
    using length_filter_update [of i "workers s" "\<lambda>x. x \<noteq> Left" "Busy w"]
    by (auto simp: pool_measure_def busy_updates)
next
  case (receive w rest i)
  then show ?thesis
    using length_filter_update [of i "workers s" "\<lambda>x. x \<noteq> Left" "Busy w"]
    by (auto simp: pool_measure_def busy_updates)
next
  case (finish i w)
  then show ?thesis
    using length_filter_update [of i "workers s" "\<lambda>x. x \<noteq> Left" Idle]
      length_busy_finish [of i "workers s" w]
    by (auto simp: pool_measure_def)
next
  case (leave i)
  then show ?thesis
    using length_filter_update [of i "workers s" "\<lambda>x. x \<noteq> Left" Left]
    by (auto simp: pool_measure_def busy_updates)
qed (auto simp: pool_measure_def)

lemma pool_step_wf: "wfp (\<lambda>t s. pool_step s t)"
  by (rule wfp_subset [of "\<lambda>t s. pool_measure t < pool_measure s"])
     (auto simp: wfp_if_convertible_to_nat intro: pool_step_measure)

text \<open>A state with no step left.\<close>

definition pool_stuck :: "'w pool \<Rightarrow> bool" where
  "pool_stuck s \<longleftrightarrow> (\<forall>t. \<not> pool_step s t)"

lemma no_idle_worker:
  assumes "pool_inv p cap s" "0 < p" "\<not> closed s" "busy_of (workers s) = []"
  shows "0 < length (workers s) \<and> workers s ! 0 = Idle"
proof -
  have len: "0 < length (workers s)" using assms by (simp add: pool_inv_def)
  moreover have "workers s ! 0 \<noteq> Left"
    using assms(1,3) nth_mem [OF len] by (metis pool_inv_def)
  moreover have "workers s ! 0 \<noteq> Busy w" for w using assms(4) len by (simp add: busy_of_Nil)
  ultimately show ?thesis by (cases "workers s ! 0") auto
qed

lemma stuck_not_busy: "pool_stuck s \<Longrightarrow> busy_of (workers s) = []"
  using pool_step.finish [of _ s] by (auto simp: pool_stuck_def busy_of_Nil)

lemma stuck_final:
  assumes inv: "pool_inv p cap s" and p: "0 < p" and stuck: "pool_stuck s"
  shows "wait_called s" "done_closed s" "closed s" "wg s = 0"
    "mset (completed s) = mset (submitted s)" "set (workers s) = {Left}"
proof -
  have no: "\<not> pool_step s t" for t using stuck by (simp add: pool_stuck_def)
  note nobusy = stuck_not_busy [OF stuck]
  show wait: "wait_called s" using no pool_step.wait by blast
  have empty: "pending s = [] \<and> workCh s = []"
  proof (cases "closed s")
    case True
    then show ?thesis using inv by (auto simp: pool_inv_def)
  next
    case False
    note idle = no_idle_worker [OF inv p False nobusy]
    have ch: "workCh s = []" using no pool_step.receive [of s _ _ 0] idle by (cases "workCh s") blast+
    then have "pending s = []"
      using no pool_step.handoff [of s "[]" _ _ 0] idle False by (cases "pending s") auto
    with ch show ?thesis by simp
  qed
  then show zero: "wg s = 0" using inv nobusy by (simp add: pool_inv_def)
  show dc: "done_closed s" using no pool_step.release wait zero by blast
  show cl: "closed s" using no pool_step.shut dc by blast
  show "mset (completed s) = mset (submitted s)"
    using inv empty nobusy by (simp add: pool_inv_def)
  have "x = Left" if mem: "x \<in> set (workers s)" for x
  proof -
    obtain i where i: "i < length (workers s)" "x = workers s ! i"
      using mem by (metis in_set_conv_nth)
    have "workers s ! i \<noteq> Idle" using pool_step.leave [of s i] no cl empty i(1) by auto
    moreover have "workers s ! i \<noteq> Busy w" for w using nobusy i by (simp add: busy_of_Nil)
    ultimately show ?thesis using i by (metis worker.exhaust)
  qed
  moreover have "workers s \<noteq> []" using inv p by (auto simp: pool_inv_def)
  ultimately show "set (workers s) = {Left}"
    by (intro equalityI subsetI) (blast, metis last_in_set singletonD)
qed

text \<open>From every state a stuck state is reached, whatever steps are chosen.\<close>

lemma pool_completes:
  shows "\<exists>t. pool_step\<^sup>*\<^sup>* s t \<and> pool_stuck t"
proof (induction s rule: wfp_induct_rule [OF pool_step_wf])
  case (1 s)
  show ?case
  proof (cases "pool_stuck s")
    case True
    then show ?thesis by blast
  next
    case False
    then obtain u where "pool_step s u" by (auto simp: pool_stuck_def)
    with 1 show ?thesis by (meson converse_rtranclp_into_rtranclp)
  qed
qed

lemma pool_reachable_steps:
  "pool_step\<^sup>*\<^sup>* s t \<Longrightarrow> pool_reachable p cap s \<Longrightarrow> pool_reachable p cap t"
  by (induction rule: rtranclp_induct) (auto intro: pool_reachable.internal)

lemma pool_inv_steps: "pool_step\<^sup>*\<^sup>* s t \<Longrightarrow> pool_inv p cap s \<Longrightarrow> pool_inv p cap t"
  by (induction rule: rtranclp_induct) (auto intro: pool_inv_step)

lemma pool_step_submitted: "pool_step s t \<Longrightarrow> submitted t = submitted s"
  by (erule pool_stepE) auto

lemma pool_steps_submitted: "pool_step\<^sup>*\<^sup>* s t \<Longrightarrow> submitted t = submitted s"
  by (induction rule: rtranclp_induct) (auto dest: pool_step_submitted)

section \<open>Properties\<close>

text \<open>
  C17: In every reachable state of the pool, whatever the interleaving, at most
  \<open>parallelism\<close> work functions run at the same time, the channel buffer holds at most
  \<open>channelBufferSize\<close> works, the wait group counts exactly the works that have been handed to
  \<^verbatim>\<open>RunGoroutine\<close> and have not finished (so \<^verbatim>\<open>wg.Done()\<close> never makes it negative), and no
  caller is blocked on a send once the channel is closed (so no send panics).
\<close>

theorem pool_bounded_parallelism:
  assumes "pool_reachable p cap s"
  shows "length (busy_of (workers s)) \<le> p \<and> length (workCh s) \<le> cap \<and>
    wg s + length (completed s) = length (submitted s) \<and>
    (closed s \<longrightarrow> pending s = [] \<and> workCh s = [] \<and> busy_of (workers s) = [])"
proof -
  have inv: "pool_inv p cap s" using assms by (rule pool_reachable_inv)
  then have "size (mset (submitted s)) =
      size (mset (pending s) + mset (workCh s) + mset (busy_of (workers s)) + mset (completed s))"
    by (simp only: pool_inv_def)
  then have "length (submitted s) = wg s + length (completed s)"
    using inv by (simp only: size_union size_mset pool_inv_def)
  with inv length_busy_of [of "workers s"] show ?thesis by (auto simp: pool_inv_def)
qed

definition two_submitted :: "nat pool" where
  "two_submitted = (NewCheckThreadPool 1 1)\<lparr>wg := 2, pending := [7, 8], submitted := [7, 8]\<rparr>"

lemma two_submitted_reachable: "pool_reachable 1 1 two_submitted"
proof -
  have "RunGoroutine 7 (NewCheckThreadPool 1 1)
      ((NewCheckThreadPool 1 1)\<lparr>wg := 1, pending := [7], submitted := [7 :: nat]\<rparr>)"
    using RunGoroutine.submit [of "NewCheckThreadPool 1 1" "7 :: nat"]
    by (simp add: NewCheckThreadPool_def)
  moreover have "RunGoroutine 8
      ((NewCheckThreadPool 1 1)\<lparr>wg := 1, pending := [7], submitted := [7 :: nat]\<rparr>) two_submitted"
    using RunGoroutine.submit [of "(NewCheckThreadPool 1 1)\<lparr>wg := 1, pending := [7], submitted := [7 :: nat]\<rparr>" 8]
    by (simp add: NewCheckThreadPool_def two_submitted_def numeral_2_eq_2)
  ultimately show ?thesis
    by (meson pool_reachable.start pool_reachable.run)
qed

theorem pool_bounded_parallelism_witness:
  "wg two_submitted + length (completed two_submitted) = length (submitted two_submitted)"
  using pool_bounded_parallelism [OF two_submitted_reachable] by blast

text \<open>
  When \<^verbatim>\<open>Wait\<close> can return \<^verbatim>\<open>nil\<close>, every work handed to \<^verbatim>\<open>RunGoroutine\<close> has run to
  its end exactly once: the completed works are the submitted ones as multisets, none is queued
  and none is running.
\<close>

theorem wait_nil_means_all_done:
  assumes "pool_reachable p cap s" "wait_returns_nil s"
  shows "mset (completed s) = mset (submitted s) \<and> pending s = [] \<and> workCh s = []
    \<and> busy_of (workers s) = []"
  using pool_reachable_inv [OF assms(1)] assms(2) by (auto simp: pool_inv_def wait_returns_nil_def)

definition waited_pool :: "nat pool" where
  "waited_pool = (NewCheckThreadPool 1 1)\<lparr>wait_called := True, done_closed := True\<rparr>"

lemma waited_pool_reachable: "pool_reachable 1 1 waited_pool"
proof -
  have "pool_step (NewCheckThreadPool 1 1) ((NewCheckThreadPool 1 1 :: nat pool)\<lparr>wait_called := True\<rparr>)"
    by (rule pool_step.wait) (simp add: NewCheckThreadPool_def)
  moreover have "pool_step ((NewCheckThreadPool 1 1 :: nat pool)\<lparr>wait_called := True\<rparr>) waited_pool"
    using pool_step.release [of "(NewCheckThreadPool 1 1 :: nat pool)\<lparr>wait_called := True\<rparr>"]
    by (simp add: NewCheckThreadPool_def waited_pool_def)
  ultimately show ?thesis by (meson pool_reachable.start pool_reachable.internal)
qed

theorem wait_nil_means_all_done_witness:
  "wait_returns_nil waited_pool \<and> mset (completed waited_pool) = mset (submitted waited_pool)"
proof -
  have h: "wait_returns_nil waited_pool" by (simp add: wait_returns_nil_def waited_pool_def)
  show ?thesis using h wait_nil_means_all_done [OF waited_pool_reachable h] by blast
qed

text \<open>
  The pool never deadlocks and always drains: from every reachable state, with at least one
  worker, no infinite sequence of internal steps exists, and every state where nothing can move
  any more is the clean end, in which \<^verbatim>\<open>Wait\<close> has returned, each submitted work has run
  exactly once and every worker goroutine has ended.
\<close>

theorem pool_drains:
  assumes "pool_reachable p cap s" "0 < p"
  shows "wfp (\<lambda>t s :: 'w pool. pool_step s t) \<and>
    (\<exists>t. pool_step\<^sup>*\<^sup>* s t \<and> pool_stuck t) \<and>
    (\<forall>t. pool_step\<^sup>*\<^sup>* s t \<and> pool_stuck t \<longrightarrow>
       wait_returns_nil t \<and> mset (completed t) = mset (submitted s) \<and> set (workers t) = {Left})"
proof (intro conjI allI impI)
  show "wfp (\<lambda>t s :: 'w pool. pool_step s t)" by (rule pool_step_wf)
  show "\<exists>t. pool_step\<^sup>*\<^sup>* s t \<and> pool_stuck t" by (rule pool_completes)
next
  fix t
  assume t: "pool_step\<^sup>*\<^sup>* s t \<and> pool_stuck t"
  then have inv: "pool_inv p cap t"
    using pool_inv_steps pool_reachable_inv [OF assms(1)] by blast
  note final = stuck_final [OF inv assms(2)]
  show "wait_returns_nil t" using final(2) t by (simp add: wait_returns_nil_def)
  show "mset (completed t) = mset (submitted s)"
    using final(5) t pool_steps_submitted [of s t] by simp
  show "set (workers t) = {Left}" using final(6) t by blast
qed

theorem pool_drains_witness:
  "\<exists>t. pool_step\<^sup>*\<^sup>* two_submitted t \<and> mset (completed t) = {#7, 8#}"
  using pool_drains [OF two_submitted_reachable] by (auto simp: two_submitted_def)

text \<open>
  A pool whose \<^verbatim>\<open>Wait\<close> is never called never closes its channel and none of its worker
  goroutines ever ends. \<^verbatim>\<open>runChecks\<close> returns without calling \<^verbatim>\<open>Wait\<close> when the node list cannot be
  read, so that path leaks the round's worker goroutines.
\<close>

theorem workers_never_leave_without_wait:
  assumes "pool_reachable p cap s" "\<not> wait_called s"
  shows "Left \<notin> set (workers s) \<and> \<not> closed s"
  using pool_reachable_inv [OF assms(1)] assms(2) by (auto simp: pool_inv_def)

theorem workers_never_leave_without_wait_witness:
  "\<not> wait_called two_submitted \<and> Left \<notin> set (workers two_submitted)"
proof -
  have h: "\<not> wait_called two_submitted" by (simp add: two_submitted_def NewCheckThreadPool_def)
  show ?thesis using h workers_never_leave_without_wait [OF two_submitted_reachable h] by blast
qed

end
