(* ===== verification/Interleavings.thy ===== *)
theory Interleavings
  imports Prelude
begin

text \<open>
  What several goroutines do together: every interleaving of the lists of atomic events of the
  single ones, in the order each of them performs its own.
\<close>

fun interleavings :: "'a list list \<Rightarrow> 'a list set" where
  "interleavings [] = {[]}"
| "interleavings (xs # xss) = (\<Union>ys \<in> interleavings xss. shuffles xs ys)"

lemma interleavings_mset: "ys \<in> interleavings xss \<Longrightarrow> mset ys = mset (concat xss)"
  by (induction xss arbitrary: ys) (auto simp: mset_shuffles)

lemma concat_in_interleavings: "concat xss \<in> interleavings xss"
proof (induction xss)
  case (Cons xs xss)
  have "xs @ ys \<in> shuffles xs ys" for ys :: "'a list"
    by (induction xs) (auto simp: Cons_in_shuffles_iff)
  with Cons show ?case by auto
qed simp

lemma shuffles_append:
  "zs \<in> shuffles xs ys \<Longrightarrow> zs' \<in> shuffles xs' ys' \<Longrightarrow> zs @ zs' \<in> shuffles (xs @ xs') (ys @ ys')"
proof (induction zs arbitrary: xs ys)
  case (Cons z zs)
  then consider (left) xs1 where "xs = z # xs1" "zs \<in> shuffles xs1 ys"
    | (right) ys1 where "ys = z # ys1" "zs \<in> shuffles xs ys1"
    by (auto simp: Cons_in_shuffles_iff neq_Nil_conv)
  then show ?case
    using Cons.IH [OF _ Cons.prems(2)]
    by cases (auto intro: Cons_in_shuffles_leftI Cons_in_shuffles_rightI)
qed simp

lemma interleavings_append:
  assumes "length xss = length yss" "a \<in> interleavings xss" "b \<in> interleavings yss"
  shows "a @ b \<in> interleavings (map2 (@) xss yss)"
  using assms
proof (induction xss yss arbitrary: a b rule: list_induct2)
  case (Cons x xss y yss)
  then obtain a' b' where "a' \<in> interleavings xss" "a \<in> shuffles x a'"
    "b' \<in> interleavings yss" "b \<in> shuffles y b'" by auto
  with Cons.IH shuffles_append show ?case by fastforce
qed simp

text \<open>One goroutine performs one more event.\<close>

lemma interleavings_snoc:
  "i < length xss \<Longrightarrow> a \<in> interleavings xss \<Longrightarrow> a @ [e] \<in> interleavings (xss[i := xss ! i @ [e]])"
proof (induction xss arbitrary: a i)
  case (Cons x xss)
  obtain a' where a': "a' \<in> interleavings xss" "a \<in> shuffles x a'" using Cons.prems(2) by auto
  show ?case
  proof (cases i)
    case 0
    have "a @ [e] \<in> shuffles (x @ [e]) (a' @ [])" using a'(2) by (rule shuffles_append) simp
    with 0 a'(1) show ?thesis by auto
  next
    case (Suc k)
    have "a @ [e] \<in> shuffles (x @ []) (a' @ [e])" using a'(2) by (rule shuffles_append) simp
    with Suc Cons.IH [of k a'] Cons.prems(1) a'(1) show ?thesis by auto
  qed
qed simp

text \<open>A goroutine joins that has not done anything yet.\<close>

lemma interleavings_join: "a \<in> interleavings xss \<Longrightarrow> a \<in> interleavings (xss @ [[]])"
  by (induction xss arbitrary: a) auto

lemma interleavings_set: "a \<in> interleavings xss \<Longrightarrow> set a = (\<Union>xs \<in> set xss. set xs)"
  using mset_eq_setD [OF interleavings_mset] by fastforce

section \<open>The contract of an executor\<close>

text \<open>
  What the code that enqueues work relies on: the histories an executor can produce for some bodies
  are interleavings of them, and it always produces one.
\<close>

locale executor =
  fixes histories :: "'e list list \<Rightarrow> 'e list set"
  assumes interleaved: "h \<in> histories xss \<Longrightarrow> h \<in> interleavings xss"
    and returns: "histories xss \<noteq> {}"
begin

lemma set_performed: "h \<in> histories xss \<Longrightarrow> set h = (\<Union>xs \<in> set xss. set xs)"
  by (rule interleavings_set [OF interleaved])

lemma mset_performed: "h \<in> histories xss \<Longrightarrow> mset h = mset (concat xss)"
  by (rule interleavings_mset [OF interleaved])

text \<open>For updates that commute the executor is as good as a sequential loop.\<close>

lemma order_irrelevant:
  assumes "h \<in> histories xss"
    and "\<And>x y. x \<in> set h \<Longrightarrow> y \<in> set h \<Longrightarrow> f x \<circ> f y = f y \<circ> f x"
  shows "fold f h = fold f (concat xss)"
  using assms(2) mset_performed [OF assms(1)] by (rule fold_multiset_equiv)

end

end
