(* ===== verification/PoolRuns.thy ===== *)
theory PoolRuns
  imports ThreadPool Interleavings
begin

text \<open>
  The thread pool of pkg/operator/pool.go with the functions it runs: what the workers of the
  state machine of \<open>ThreadPool\<close> do between taking a function and finishing it.

  A function given to \<^verbatim>\<open>RunGoroutine\<close> is its list of atomic events, its body; the works of the
  pool are the numbers of the bodies in the order of the calls. A worker that holds a work performs
  its events one after the other, in between the steps of all the others, and \<open>pcs\<close> tells how far
  each body has got. \<open>history\<close> is what the pool as a whole has done.
\<close>

record 'e pool_run =
  run_pool :: "nat pool"
  bodies :: "'e list list"
  pcs :: "nat list"
  history :: "'e list"

definition NewPoolRun :: "nat \<Rightarrow> nat \<Rightarrow> 'e pool_run" where
  "NewPoolRun parallelism channelBufferSize =
     \<lparr>run_pool = NewCheckThreadPool parallelism channelBufferSize, bodies = [], pcs = [], history = []\<rparr>"

inductive pool_run_step :: "'e pool_run \<Rightarrow> 'e pool_run \<Rightarrow> bool" where
  perform: "i < length (workers (run_pool r)) \<Longrightarrow> workers (run_pool r) ! i = Busy j \<Longrightarrow>
     pcs r ! j < length (bodies r ! j) \<Longrightarrow>
     pool_run_step r (r\<lparr>pcs := (pcs r)[j := Suc (pcs r ! j)],
                       history := history r @ [bodies r ! j ! (pcs r ! j)]\<rparr>)"
| internal: "pool_step (run_pool r) q \<Longrightarrow>
     (\<And>j. completed q = completed (run_pool r) @ [j] \<Longrightarrow> pcs r ! j = length (bodies r ! j)) \<Longrightarrow>
     pool_run_step r (r\<lparr>run_pool := q\<rparr>)"

inductive pool_run_enqueue :: "'e list \<Rightarrow> 'e pool_run \<Rightarrow> 'e pool_run \<Rightarrow> bool" where
  enqueue: "RunGoroutine (length (bodies r)) (run_pool r) q \<Longrightarrow>
     pool_run_enqueue b r (r\<lparr>run_pool := q, bodies := bodies r @ [b], pcs := pcs r @ [0]\<rparr>)"

inductive_cases pool_run_stepE: "pool_run_step r t"
inductive_cases pool_run_enqueueE: "pool_run_enqueue b r t"

inductive pool_runs :: "nat \<Rightarrow> nat \<Rightarrow> 'e pool_run \<Rightarrow> bool" for p cap where
  start: "pool_runs p cap (NewPoolRun p cap)"
| enq: "pool_runs p cap r \<Longrightarrow> pool_run_enqueue b r t \<Longrightarrow> pool_runs p cap t"
| run: "pool_runs p cap r \<Longrightarrow> pool_run_step r t \<Longrightarrow> pool_runs p cap t"

section \<open>The invariant\<close>

text \<open>Forgetting the bodies gives the pool of \<open>ThreadPool\<close>, step by step.\<close>

lemma pool_runs_reachable: "pool_runs p cap r \<Longrightarrow> pool_reachable p cap (run_pool r)"
  by (induction rule: pool_runs.induct)
     (auto simp: NewPoolRun_def elim!: pool_run_enqueueE pool_run_stepE intro: pool_reachable.intros)

definition run_inv :: "'e pool_run \<Rightarrow> bool" where
  "run_inv r \<longleftrightarrow>
     submitted (run_pool r) = [0..<length (bodies r)] \<and> length (pcs r) = length (bodies r) \<and>
     (\<forall>j < length (bodies r). pcs r ! j \<le> length (bodies r ! j)) \<and>
     (\<forall>j \<in> set (completed (run_pool r)). pcs r ! j = length (bodies r ! j)) \<and>
     history r \<in> interleavings (map2 take (pcs r) (bodies r))"

lemma pool_step_completed:
  "pool_step s t \<Longrightarrow> completed t = completed s \<or> (\<exists>j. completed t = completed s @ [j])"
  by (erule pool_stepE) auto

lemma pool_works_submitted:
  assumes "pool_inv p cap s"
  shows "set (busy_of (workers s)) \<union> set (completed s) \<subseteq> set (submitted s)"
proof -
  have "set_mset (mset (submitted s)) = set_mset (mset (pending s) + mset (workCh s)
      + mset (busy_of (workers s)) + mset (completed s))"
    using assms unfolding pool_inv_def by metis
  then show ?thesis by auto
qed

lemma busy_of_nth: "i < length ws \<Longrightarrow> ws ! i = Busy w \<Longrightarrow> w \<in> set (busy_of ws)"
proof (induction ws arbitrary: i)
  case (Cons x ws)
  then show ?case by (cases i) (auto simp: busy_of_Cons)
qed simp

lemma run_inv_enqueue:
  assumes "pool_run_enqueue b r t" "run_inv r" "pool_inv p cap (run_pool r)"
  shows "run_inv t"
proof -
  obtain q where q: "RunGoroutine (length (bodies r)) (run_pool r) q"
    and t: "t = r\<lparr>run_pool := q, bodies := bodies r @ [b], pcs := pcs r @ [0]\<rparr>"
    using assms(1) by (auto elim: pool_run_enqueueE)
  have sub: "submitted q = submitted (run_pool r) @ [length (bodies r)]"
    "completed q = completed (run_pool r)"
    using q by (auto elim: RunGoroutineE)
  have "map2 take (pcs r @ [0]) (bodies r @ [b]) = map2 take (pcs r) (bodies r) @ [[]]"
    using assms(2) by (simp add: run_inv_def)
  moreover have "set (completed (run_pool r)) \<subseteq> {..<length (bodies r)}"
    using pool_works_submitted [OF assms(3)] assms(2) by (auto simp: run_inv_def)
  ultimately show ?thesis
    using assms(2) sub interleavings_join by (auto simp: run_inv_def t nth_append less_Suc_eq)
qed

lemma map2_take_step:
  assumes "j < length bs" "length ns = length bs" "ns ! j < length (bs ! j)"
  shows "map2 take (ns[j := Suc (ns ! j)]) bs =
    (map2 take ns bs)[j := map2 take ns bs ! j @ [bs ! j ! (ns ! j)]]"
proof (rule nth_equalityI)
  show "map2 take (ns[j := Suc (ns ! j)]) bs ! i =
      (map2 take ns bs)[j := map2 take ns bs ! j @ [bs ! j ! (ns ! j)]] ! i"
    if "i < length (map2 take (ns[j := Suc (ns ! j)]) bs)" for i
    using assms that by (cases "i = j") (simp_all add: take_Suc_conv_app_nth)
qed simp

lemma run_inv_step:
  assumes "pool_run_step r t" "run_inv r" "pool_inv p cap (run_pool r)"
  shows "run_inv t"
  using assms(1)
proof (cases rule: pool_run_step.cases)
  case (perform i j)
  have "j \<in> set (submitted (run_pool r))"
    using pool_works_submitted [OF assms(3)] busy_of_nth [OF perform(2,3)] by blast
  then have j: "j < length (bodies r)" using assms(2) by (simp add: run_inv_def)
  have "history r @ [bodies r ! j ! (pcs r ! j)]
      \<in> interleavings (map2 take ((pcs r)[j := Suc (pcs r ! j)]) (bodies r))"
    using assms(2) j perform(4) interleavings_snoc [of j "map2 take (pcs r) (bodies r)"]
    by (simp add: run_inv_def map2_take_step)
  moreover have "j \<notin> set (completed (run_pool r))"
    using assms(2) perform(4) by (auto simp: run_inv_def)
  ultimately show ?thesis
    using assms(2) perform j by (auto simp: run_inv_def nth_list_update)
next
  case (internal q)
  then show ?thesis
    using assms(2) pool_step_completed [OF internal(2)] pool_step_submitted [OF internal(2)]
    by (auto simp: run_inv_def)
qed

lemma pool_runs_inv: "pool_runs p cap r \<Longrightarrow> run_inv r"
proof (induction rule: pool_runs.induct)
  case start
  show ?case by (simp add: run_inv_def NewPoolRun_def NewCheckThreadPool_def)
next
  case (enq r b t)
  then show ?case using run_inv_enqueue pool_reachable_inv pool_runs_reachable by blast
next
  case (run r t)
  then show ?case using run_inv_step pool_reachable_inv pool_runs_reachable by blast
qed

section \<open>Termination\<close>

definition events_left :: "'e pool_run \<Rightarrow> nat" where
  "events_left r = (\<Sum>j < length (bodies r). length (bodies r ! j) - pcs r ! j)"

lemma run_step_bodies: "pool_run_step r t \<Longrightarrow> bodies t = bodies r"
  by (erule pool_run_stepE) auto

lemma run_step_measure:
  assumes "pool_run_step r t" "run_inv r" "pool_inv p cap (run_pool r)"
  shows "events_left t + pool_measure (run_pool t) < events_left r + pool_measure (run_pool r)"
  using assms(1)
proof (cases rule: pool_run_step.cases)
  case (perform i j)
  have "j \<in> set (submitted (run_pool r))"
    using pool_works_submitted [OF assms(3)] busy_of_nth [OF perform(2,3)] by blast
  then have j: "j < length (bodies r)" "length (pcs r) = length (bodies r)"
    using assms(2) by (simp_all add: run_inv_def)
  have "events_left t = (\<Sum>k < length (bodies r). length (bodies r ! k) - (pcs r)[j := Suc (pcs r ! j)] ! k)"
    by (simp add: events_left_def perform(1))
  also have "\<dots> < events_left r"
    unfolding events_left_def using j perform(4)
    by (intro sum_strict_mono_ex1) (auto simp: nth_list_update)
  finally have "events_left t < events_left r" .
  then show ?thesis by (simp add: perform(1))
next
  case (internal q)
  then show ?thesis using pool_step_measure [OF internal(2)] by (simp add: events_left_def)
qed

definition run_stuck :: "'e pool_run \<Rightarrow> bool" where
  "run_stuck r \<longleftrightarrow> (\<forall>t. \<not> pool_run_step r t)"

text \<open>The bodies cannot hold up the pool: when nothing can move, the pool is stuck too.\<close>

lemma run_stuck_pool:
  assumes "run_stuck r" "run_inv r" "pool_inv p cap (run_pool r)"
  shows "pool_stuck (run_pool r)"
  unfolding pool_stuck_def
proof (intro allI notI)
  fix q
  assume q: "pool_step (run_pool r) q"
  have "pcs r ! j = length (bodies r ! j)" if fin: "completed q = completed (run_pool r) @ [j]" for j
  proof -
    obtain i where i: "i < length (workers (run_pool r))" "workers (run_pool r) ! i = Busy j"
      using q fin by (cases rule: pool_step.cases) auto
    have "j \<in> set (submitted (run_pool r))"
      using pool_works_submitted [OF assms(3)] busy_of_nth [OF i] by blast
    then have "pcs r ! j \<le> length (bodies r ! j)" using assms(2) by (simp add: run_inv_def)
    moreover have "\<not> pcs r ! j < length (bodies r ! j)"
      using assms(1) pool_run_step.perform [OF i] by (auto simp: run_stuck_def)
    ultimately show ?thesis by simp
  qed
  then have "pool_run_step r (r\<lparr>run_pool := q\<rparr>)" using q by (intro pool_run_step.internal)
  then show False using assms(1) by (simp add: run_stuck_def)
qed

lemma run_completes_within:
  "pool_runs p cap r \<Longrightarrow>
    \<exists>t. (\<lambda>a b. pool_run_step a b \<and> P b)\<^sup>*\<^sup>* r t \<and> (\<forall>u. \<not> (pool_run_step t u \<and> P u))"
proof (induction "events_left r + pool_measure (run_pool r)" arbitrary: r rule: less_induct)
  case less
  show ?case
  proof (cases "\<forall>u. \<not> (pool_run_step r u \<and> P u)")
    case False
    then obtain u where u: "pool_run_step r u" "P u" by blast
    then have "pool_runs p cap u" using less.prems pool_runs.run by blast
    moreover have "events_left u + pool_measure (run_pool u) < events_left r + pool_measure (run_pool r)"
      using run_step_measure [OF u(1)] pool_runs_inv pool_reachable_inv pool_runs_reachable less.prems by blast
    ultimately obtain t where "(\<lambda>a b. pool_run_step a b \<and> P b)\<^sup>*\<^sup>* u t" "\<forall>v. \<not> (pool_run_step t v \<and> P v)"
      using less.hyps by blast
    with u show ?thesis
      by (intro exI [of _ t] conjI converse_rtranclp_into_rtranclp [of _ r u t]) simp_all
  qed blast
qed

lemma run_completes: "pool_runs p cap r \<Longrightarrow> \<exists>t. pool_run_step\<^sup>*\<^sup>* r t \<and> run_stuck t"
  using run_completes_within [of p cap r "\<lambda>_. True"] by (simp add: run_stuck_def)

lemma pool_runs_steps:
  "pool_run_step\<^sup>*\<^sup>* r t \<Longrightarrow> pool_runs p cap r \<Longrightarrow> pool_runs p cap t \<and> bodies t = bodies r"
  by (induction rule: rtranclp_induct) (auto intro: pool_runs.run dest: run_step_bodies)

section \<open>What a finished run has done\<close>

lemma run_prefix:
  assumes "pool_runs p cap r"
  shows "\<exists>rest. history r @ rest \<in> interleavings (bodies r)"
proof -
  note inv = pool_runs_inv [OF assms]
  let ?rest = "map2 drop (pcs r) (bodies r)"
  have "map2 (@) (map2 take (pcs r) (bodies r)) ?rest = bodies r"
    using inv by (intro nth_equalityI) (simp_all add: run_inv_def)
  moreover have "history r @ concat ?rest \<in>
      interleavings (map2 (@) (map2 take (pcs r) (bodies r)) ?rest)"
    using inv by (intro interleavings_append concat_in_interleavings) (simp_all add: run_inv_def)
  ultimately show ?thesis by metis
qed

lemma run_all_completed:
  assumes "pool_runs p cap r" "mset (completed (run_pool r)) = mset (submitted (run_pool r))"
  shows "history r \<in> interleavings (bodies r)"
proof -
  note inv = pool_runs_inv [OF assms(1)]
  from mset_eq_setD [OF assms(2)]
  have "set (completed (run_pool r)) = {0..<length (bodies r)}" using inv by (simp add: run_inv_def)
  then have "pcs r ! j = length (bodies r ! j)" if "j < length (bodies r)" for j
    using inv that by (simp add: run_inv_def)
  then have "map2 take (pcs r) (bodies r) = bodies r"
    using inv by (intro nth_equalityI) (simp_all add: run_inv_def)
  then show ?thesis using inv by (simp add: run_inv_def)
qed

lemma run_finished:
  assumes "pool_runs p cap r" "wait_returns_nil (run_pool r)"
  shows "history r \<in> interleavings (bodies r)"
proof (rule run_all_completed [OF assms(1)])
  have "pool_inv p cap (run_pool r)" using assms(1) pool_runs_reachable pool_reachable_inv by blast
  then show "mset (completed (run_pool r)) = mset (submitted (run_pool r))"
    using assms(2) by (auto simp: pool_inv_def wait_returns_nil_def)
qed

lemma run_steps_history: "pool_run_step\<^sup>*\<^sup>* r t \<Longrightarrow> \<exists>rest. history t = history r @ rest"
  by (induction rule: rtranclp_induct) (auto elim: pool_run_stepE)

section \<open>A pool nobody waits for\<close>

text \<open>
  What the goroutines of a pool go on doing when its owner returned without calling \<^verbatim>\<open>Wait\<close>: the
  work that was enqueued is performed all the same, and then the workers stay, receiving from a
  channel that nobody closes.
\<close>

definition abandoned_step :: "'e pool_run \<Rightarrow> 'e pool_run \<Rightarrow> bool" where
  "abandoned_step r t \<longleftrightarrow> pool_run_step r t \<and> \<not> wait_called (run_pool t)"

definition abandoned_stuck :: "'e pool_run \<Rightarrow> bool" where
  "abandoned_stuck r \<longleftrightarrow> (\<forall>t. \<not> abandoned_step r t)"

lemma abandoned_steps: "abandoned_step\<^sup>*\<^sup>* r t \<Longrightarrow> pool_run_step\<^sup>*\<^sup>* r t"
  by (rule mono_rtranclp [rule_format]) (auto simp: abandoned_step_def)

lemma abandoned_not_waited: "abandoned_step\<^sup>*\<^sup>* r t \<Longrightarrow> \<not> wait_called (run_pool r) \<Longrightarrow> \<not> wait_called (run_pool t)"
  by (induction rule: rtranclp_induct) (auto simp: abandoned_step_def)

lemma abandoned_completes: "pool_runs p cap r \<Longrightarrow> \<exists>t. abandoned_step\<^sup>*\<^sup>* r t \<and> abandoned_stuck t"
  using run_completes_within [of p cap r "\<lambda>t. \<not> wait_called (run_pool t)"]
  unfolding abandoned_step_def [abs_def] abandoned_stuck_def by blast

lemma abandoned_internal:
  assumes "abandoned_stuck r" "\<not> wait_called (run_pool r)" "pool_step (run_pool r) q"
    and "completed q = completed (run_pool r)" "wait_called q = wait_called (run_pool r)"
  shows False
proof -
  have "pool_run_step r (r\<lparr>run_pool := q\<rparr>)" using assms(3,4) by (intro pool_run_step.internal) auto
  then show False using assms(1,2,5) by (auto simp: abandoned_stuck_def abandoned_step_def)
qed

lemma abandoned_not_busy:
  assumes "pool_runs p cap r" "abandoned_stuck r" "\<not> wait_called (run_pool r)"
  shows "busy_of (workers (run_pool r)) = []"
  unfolding busy_of_Nil
proof (intro allI impI notI)
  fix i j
  assume i: "i < length (workers (run_pool r))" "workers (run_pool r) ! i = Busy j"
  note inv = pool_runs_inv [OF assms(1)]
  have "j \<in> set (submitted (run_pool r))"
    using pool_works_submitted [OF pool_reachable_inv [OF pool_runs_reachable [OF assms(1)]]]
      busy_of_nth [OF i] by blast
  then have le: "pcs r ! j \<le> length (bodies r ! j)" using inv by (simp add: run_inv_def)
  have "\<not> pcs r ! j < length (bodies r ! j)"
    using assms(2,3) pool_run_step.perform [OF i] by (auto simp: abandoned_stuck_def abandoned_step_def)
  with le have whole: "pcs r ! j = length (bodies r ! j)" by simp
  let ?q = "(run_pool r)\<lparr>workers := (workers (run_pool r))[i := Idle], wg := wg (run_pool r) - 1,
    completed := completed (run_pool r) @ [j]\<rparr>"
  have "pool_run_step r (r\<lparr>run_pool := ?q\<rparr>)"
    using whole pool_step.finish [OF i] by (intro pool_run_step.internal) auto
  then show False using assms(2,3) by (auto simp: abandoned_stuck_def abandoned_step_def)
qed

lemma abandoned_final:
  assumes "pool_runs p cap r" "0 < p" "abandoned_stuck r" "\<not> wait_called (run_pool r)"
  shows "workers (run_pool r) = replicate p Idle" "\<not> closed (run_pool r)"
    "history r \<in> interleavings (bodies r)"
proof -
  let ?s = "run_pool r"
  note inv = pool_reachable_inv [OF pool_runs_reachable [OF assms(1)]]
  note nobusy = abandoned_not_busy [OF assms(1,3,4)]
  show open': "\<not> closed ?s" using inv assms(4) by (auto simp: pool_inv_def)
  note idle = no_idle_worker [OF inv assms(2) open' nobusy]
  have ch: "workCh ?s = []"
  proof (cases "workCh ?s")
    case (Cons w rest)
    show ?thesis
      using abandoned_internal [OF assms(3,4) pool_step.receive [OF Cons, of 0]] idle by simp
  qed
  have pend: "pending ?s = []"
  proof (cases "pending ?s")
    case (Cons w rest)
    show ?thesis
      using abandoned_internal [OF assms(3,4) pool_step.handoff [of ?s "[]" w rest 0]] Cons idle open' ch by simp
  qed
  have "mset (completed ?s) = mset (submitted ?s)" using inv ch pend nobusy by (simp add: pool_inv_def)
  then show "history r \<in> interleavings (bodies r)" by (rule run_all_completed [OF assms(1)])
  have "x = Idle" if mem: "x \<in> set (workers ?s)" for x
  proof -
    have "x \<noteq> Left" using mem open' inv by (auto simp: pool_inv_def)
    moreover have "x \<noteq> Busy w" for w using mem nobusy unfolding busy_of_Nil by (metis in_set_conv_nth)
    ultimately show ?thesis by (metis worker.exhaust)
  qed
  then show "workers ?s = replicate p Idle"
    using inv by (intro replicate_eqI) (simp_all add: pool_inv_def)
qed

section \<open>Runs that exist\<close>

text \<open>
  A worker that can take the next function at once: it is idle and nothing is waiting. Three steps
  of a run use it: take a function up, perform some of it, and put it down when it is finished.
\<close>

definition ready :: "nat \<Rightarrow> 'e pool_run \<Rightarrow> bool" where
  "ready w r \<longleftrightarrow> w < length (workers (run_pool r)) \<and> workers (run_pool r) ! w = Idle \<and>
     pending (run_pool r) = [] \<and> workCh (run_pool r) = [] \<and>
     \<not> closed (run_pool r) \<and> \<not> wait_called (run_pool r)"

definition taken :: "nat \<Rightarrow> 'e list \<Rightarrow> 'e pool_run \<Rightarrow> 'e pool_run" where
  "taken w b r = r\<lparr>
     run_pool := (run_pool r)\<lparr>wg := Suc (wg (run_pool r)),
       submitted := submitted (run_pool r) @ [length (bodies r)],
       workers := (workers (run_pool r))[w := Busy (length (bodies r))]\<rparr>,
     bodies := bodies r @ [b], pcs := pcs r @ [0]\<rparr>"

lemma taken_runs:
  assumes "pool_runs p cap r" "ready w r"
  shows "pool_runs p cap (taken w b r)"
proof -
  let ?s = "run_pool r" and ?n = "length (bodies r)"
  let ?q1 = "?s\<lparr>wg := Suc (wg ?s), pending := pending ?s @ [?n], submitted := submitted ?s @ [?n]\<rparr>"
  let ?r1 = "r\<lparr>run_pool := ?q1, bodies := bodies r @ [b], pcs := pcs r @ [0]\<rparr>"
  have "RunGoroutine ?n ?s ?q1" using assms(2) by (intro RunGoroutine.submit) (simp add: ready_def)
  then have r1: "pool_runs p cap ?r1"
    using pool_runs.enq [OF assms(1)] pool_run_enqueue.enqueue [of r ?q1 b] by blast
  let ?q2 = "?q1\<lparr>pending := [], workers := (workers ?s)[w := Busy ?n]\<rparr>"
  have "pool_step ?q1 ?q2"
    using assms(2) pool_step.handoff [of ?q1 "[]" ?n "[]" w] by (simp add: ready_def)
  then have "pool_run_step ?r1 (?r1\<lparr>run_pool := ?q2\<rparr>)" by (intro pool_run_step.internal) simp_all
  with r1 have "pool_runs p cap (?r1\<lparr>run_pool := ?q2\<rparr>)" by (rule pool_runs.run)
  moreover have "?r1\<lparr>run_pool := ?q1\<lparr>pending := [], workers := (workers ?s)[w := Busy ?n]\<rparr>\<rparr> = taken w b r"
    using assms(2) by (simp add: taken_def ready_def)
  ultimately show ?thesis by simp
qed

lemma perform_some:
  assumes "pool_runs p cap r" "i < length (workers (run_pool r))" "workers (run_pool r) ! i = Busy j"
    "j < length (pcs r)" "pcs r ! j + k \<le> length (bodies r ! j)"
  shows "pool_runs p cap (r\<lparr>pcs := (pcs r)[j := pcs r ! j + k],
    history := history r @ take k (drop (pcs r ! j) (bodies r ! j))\<rparr>)"
  using assms(5)
proof (induction k)
  case 0
  then show ?case using assms(1) by simp
next
  case (Suc k)
  let ?t = "r\<lparr>pcs := (pcs r)[j := pcs r ! j + k],
    history := history r @ take k (drop (pcs r ! j) (bodies r ! j))\<rparr>"
  have t: "pool_runs p cap ?t" using Suc by simp
  have "take (Suc k) (drop (pcs r ! j) (bodies r ! j)) =
      take k (drop (pcs r ! j) (bodies r ! j)) @ [bodies r ! j ! (pcs r ! j + k)]"
    using Suc.prems by (simp add: take_Suc_conv_app_nth)
  then show ?case
    using pool_runs.run [OF t pool_run_step.perform [of i ?t j]] Suc.prems assms(2-4) by simp
qed

text \<open>Take a function up and perform its first events.\<close>

lemma taken_some:
  assumes "pool_runs p cap r" "ready w r" "k \<le> length b"
  shows "pool_runs p cap ((taken w b r)\<lparr>pcs := pcs r @ [k], history := history r @ take k b\<rparr>)"
proof -
  have len: "length (pcs r) = length (bodies r)" using pool_runs_inv [OF assms(1)] by (simp add: run_inv_def)
  show ?thesis
    using perform_some [OF taken_runs [OF assms(1,2)], where i = w and j = "length (bodies r)" and k = k] assms(2,3) len
    by (simp add: taken_def ready_def nth_append list_update_append)
qed

definition completes :: "nat \<Rightarrow> 'e list \<Rightarrow> 'e pool_run \<Rightarrow> 'e pool_run" where
  "completes w b r = r\<lparr>
     bodies := bodies r @ [b], pcs := pcs r @ [length b], history := history r @ b,
     run_pool := (run_pool r)\<lparr>submitted := submitted (run_pool r) @ [length (bodies r)],
       completed := completed (run_pool r) @ [length (bodies r)]\<rparr>\<rparr>"

lemma completes_runs:
  assumes "pool_runs p cap r" "ready w r"
  shows "pool_runs p cap (completes w b r)"
proof -
  let ?n = "length (bodies r)"
  let ?t = "(taken w b r)\<lparr>pcs := pcs r @ [length b], history := history r @ b\<rparr>"
  have len: "length (pcs r) = length (bodies r)" using pool_runs_inv [OF assms(1)] by (simp add: run_inv_def)
  have t: "pool_runs p cap ?t" using taken_some [OF assms, of "length b" b] by simp
  have idle: "(workers (run_pool r))[w := Idle] = workers (run_pool r)"
    using assms(2) by (metis list_update_id ready_def)
  have "pool_step (run_pool ?t) ((run_pool ?t)\<lparr>workers := (workers (run_pool ?t))[w := Idle],
      wg := wg (run_pool ?t) - 1, completed := completed (run_pool ?t) @ [?n]\<rparr>)"
    using assms(2) by (intro pool_step.finish) (simp_all add: taken_def ready_def)
  from pool_run_step.internal [OF this]
  have "pool_run_step ?t (?t\<lparr>run_pool := (run_pool ?t)\<lparr>workers := (workers (run_pool ?t))[w := Idle],
      wg := wg (run_pool ?t) - 1, completed := completed (run_pool ?t) @ [?n]\<rparr>\<rparr>)"
    using len by (simp add: taken_def nth_append)
  from pool_runs.run [OF t this] show ?thesis by (simp add: taken_def completes_def idle)
qed

lemma completes_ready: "ready v (completes w b r) \<longleftrightarrow> ready v r"
  by (simp add: completes_def ready_def)

text \<open>One worker performs a list of functions, one after the other.\<close>

definition completes_all :: "nat \<Rightarrow> 'e list list \<Rightarrow> 'e pool_run \<Rightarrow> 'e pool_run" where
  "completes_all w bs r = fold (completes w) bs r"

lemma completes_all_runs:
  "pool_runs p cap r \<Longrightarrow> ready w r \<Longrightarrow> pool_runs p cap (completes_all w bs r)"
  unfolding completes_all_def
  by (induction bs arbitrary: r) (simp_all add: completes_runs completes_ready)

lemma completes_all_fields:
  "bodies (completes_all w bs r) = bodies r @ bs"
  "pcs (completes_all w bs r) = pcs r @ map length bs"
  "history (completes_all w bs r) = history r @ concat bs"
  "workers (run_pool (completes_all w bs r)) = workers (run_pool r)"
  "wg (run_pool (completes_all w bs r)) = wg (run_pool r)"
  "wait_called (run_pool (completes_all w bs r)) = wait_called (run_pool r)"
  "done_closed (run_pool (completes_all w bs r)) = done_closed (run_pool r)"
  "ready v (completes_all w bs r) = ready v r"
  unfolding completes_all_def
  by (induction bs arbitrary: r) (simp_all add: completes_ready, simp_all add: completes_def)

definition seq_run :: "nat \<Rightarrow> nat \<Rightarrow> 'e list list \<Rightarrow> 'e pool_run" where
  "seq_run p cap xss = completes_all 0 xss (NewPoolRun p cap)"

lemma ready_New: "w < p \<Longrightarrow> ready w (NewPoolRun p cap)"
  by (simp add: ready_def NewPoolRun_def NewCheckThreadPool_def)

lemma seq_run_reachable: "0 < p \<Longrightarrow> pool_runs p cap (seq_run p cap xss)"
  unfolding seq_run_def by (intro completes_all_runs pool_runs.start ready_New)

lemma seq_run_fields:
  "bodies (seq_run p cap xss) = xss" "history (seq_run p cap xss) = concat xss"
  "wg (run_pool (seq_run p cap xss)) = 0" "\<not> wait_called (run_pool (seq_run p cap xss))"
  "\<not> done_closed (run_pool (seq_run p cap xss))"
  by (simp_all add: seq_run_def completes_all_fields NewPoolRun_def NewCheckThreadPool_def)

lemma sequential_run:
  assumes "0 < p"
  shows "\<exists>r. pool_runs p cap r \<and> wait_returns_nil (run_pool r) \<and> bodies r = xss \<and> history r = concat xss"
proof -
  let ?r = "seq_run p cap xss"
  let ?q = "(run_pool ?r)\<lparr>wait_called := True\<rparr>"
  have "pool_step (run_pool ?r) ?q" by (rule pool_step.wait) (rule seq_run_fields)
  then have w: "pool_runs p cap (?r\<lparr>run_pool := ?q\<rparr>)"
    using pool_runs.run [OF seq_run_reachable [OF assms]] pool_run_step.internal [of ?r ?q] by simp
  have "pool_step ?q (?q\<lparr>done_closed := True\<rparr>)"
    by (rule pool_step.release) (simp_all add: seq_run_fields)
  then have "pool_runs p cap (?r\<lparr>run_pool := ?q\<lparr>done_closed := True\<rparr>\<rparr>)"
    using pool_runs.run [OF w] pool_run_step.internal [of "?r\<lparr>run_pool := ?q\<rparr>" "?q\<lparr>done_closed := True\<rparr>"]
    by simp
  then show ?thesis
    by (intro exI [of _ "?r\<lparr>run_pool := ?q\<lparr>done_closed := True\<rparr>\<rparr>"])
      (simp add: wait_returns_nil_def seq_run_fields)
qed

text \<open>Two workers can be anywhere in two functions at the same time.\<close>

lemma enqueue_all:
  assumes "pool_runs p cap r" "\<not> wait_called (run_pool r)"
  shows "\<exists>t. pool_runs p cap t \<and> bodies t = bodies r @ cs \<and> (\<exists>zs. pcs t = pcs r @ zs) \<and>
    workers (run_pool t) = workers (run_pool r) \<and> \<not> wait_called (run_pool t)"
proof (induction cs rule: rev_induct)
  case Nil
  then show ?case using assms by (intro exI [of _ r]) simp
next
  case (snoc c cs)
  then obtain t zs where t: "pool_runs p cap t" "bodies t = bodies r @ cs" "pcs t = pcs r @ zs"
    "workers (run_pool t) = workers (run_pool r)" "\<not> wait_called (run_pool t)" by blast
  show ?case
    using pool_runs.enq [OF t(1) pool_run_enqueue.enqueue [OF RunGoroutine.submit [OF t(5)], of c]] t(2-5)
    by (intro exI conjI) (assumption | simp)+
qed

lemma functions_overlap_parts:
  assumes "2 \<le> p" "k \<le> length a" "l \<le> length b"
  shows "\<exists>r. pool_runs p cap r \<and> bodies r = as @ a # bs @ b # cs \<and>
    workers (run_pool r) ! 0 = Busy (length as) \<and> workers (run_pool r) ! 1 = Busy (Suc (length as + length bs)) \<and>
    pcs r ! length as = k \<and> pcs r ! Suc (length as + length bs) = l"
proof -
  let ?New = "NewPoolRun p cap :: 'a pool_run"
  let ?r1 = "completes_all 0 as ?New"
  let ?r2 = "(taken 0 a ?r1)\<lparr>pcs := pcs ?r1 @ [k], history := history ?r1 @ take k a\<rparr>"
  let ?r3 = "completes_all 1 bs ?r2"
  let ?r4 = "(taken 1 b ?r3)\<lparr>pcs := pcs ?r3 @ [l], history := history ?r3 @ take l b\<rparr>"
  have ready: "ready 0 ?New" "ready 1 ?New" using assms(1) by (simp_all add: ready_New)
  have New: "pcs ?New = []" "bodies ?New = []" "workers (run_pool ?New) = replicate p Idle"
    by (simp_all add: NewPoolRun_def NewCheckThreadPool_def)
  have r1: "pool_runs p cap ?r1" "ready 0 ?r1" "ready 1 ?r1"
    using ready by (simp_all add: completes_all_runs pool_runs.start completes_all_fields)
  have "ready 1 ?r2" using r1(3) by (simp add: ready_def taken_def)
  moreover from this have r3: "pool_runs p cap ?r3" "ready 1 ?r3"
    using completes_all_runs [OF taken_some [OF r1(1,2) assms(2)]] by (simp_all add: completes_all_fields)
  ultimately have r4: "pool_runs p cap ?r4" using taken_some [OF _ _ assms(3)] by blast
  have "\<not> wait_called (run_pool ?r4)" using r3(2) by (simp add: ready_def taken_def)
  from enqueue_all [OF r4 this, of cs] obtain t zs where t: "pool_runs p cap t" "bodies t = bodies ?r4 @ cs"
    "pcs t = pcs ?r4 @ zs" "workers (run_pool t) = workers (run_pool ?r4)" by blast
  have "length (workers (run_pool ?New)) = p" by (simp add: New)
  then show ?thesis
    using t assms(1) by (intro exI [of _ t]) (simp add: taken_def completes_all_fields New nth_append)
qed

text \<open>What the pool can have done with some bodies when \<^verbatim>\<open>Wait\<close> returns \<^verbatim>\<open>nil\<close>.\<close>

definition pool_histories :: "nat \<Rightarrow> nat \<Rightarrow> 'e list list \<Rightarrow> 'e list set" where
  "pool_histories p cap xss =
     {history r | r. pool_runs p cap r \<and> wait_returns_nil (run_pool r) \<and> bodies r = xss}"

lemma concat_in_pool_histories: "0 < p \<Longrightarrow> concat xss \<in> pool_histories p cap xss"
  using sequential_run [of p cap xss] unfolding pool_histories_def by (metis (mono_tags, lifting) mem_Collect_eq)

interpretation pool: executor "pool_histories (Suc n) cap" for n cap
proof
  show "h \<in> interleavings xss" if "h \<in> pool_histories (Suc n) cap xss" for h :: "'e list" and xss
    using that run_finished by (auto simp: pool_histories_def)
  show "pool_histories (Suc n) cap xss \<noteq> {}" for xss :: "'e list list"
    using concat_in_pool_histories [of "Suc n" xss cap] by blast
qed

text \<open>What the pool can have done with some bodies at any moment after they were all enqueued.\<close>

definition pool_partial :: "nat \<Rightarrow> nat \<Rightarrow> 'e list list \<Rightarrow> 'e list set" where
  "pool_partial p cap xss = {history r | r. pool_runs p cap r \<and> bodies r = xss}"

lemma partial_prefix:
  assumes "h \<in> pool_partial p cap xss" "0 < p"
  shows "\<exists>rest. h @ rest \<in> pool_histories p cap xss"
proof -
  obtain r where r: "pool_runs p cap r" "bodies r = xss" "h = history r"
    using assms(1) by (auto simp: pool_partial_def)
  obtain t where t: "pool_run_step\<^sup>*\<^sup>* r t" "run_stuck t" using run_completes [OF r(1)] by blast
  have runs: "pool_runs p cap t" "bodies t = xss" using pool_runs_steps [OF t(1) r(1)] r(2) by auto
  note inv = pool_reachable_inv [OF pool_runs_reachable [OF runs(1)]]
  have "pool_stuck (run_pool t)" using run_stuck_pool [OF t(2) pool_runs_inv [OF runs(1)] inv] .
  then have "wait_returns_nil (run_pool t)" using stuck_final(2) [OF inv assms(2)] by (simp add: wait_returns_nil_def)
  then have "history t \<in> pool_histories p cap xss" using runs by (auto simp: pool_histories_def)
  then show ?thesis using run_steps_history [OF t(1)] r(3) by auto
qed

lemma abandoned_in_histories:
  assumes "pool_runs p cap t" "0 < p" "abandoned_stuck t" "\<not> wait_called (run_pool t)"
  shows "history t \<in> pool_histories p cap (bodies t)"
proof -
  note all = abandoned_final(3) [OF assms]
  have "history t \<in> pool_partial p cap (bodies t)" using assms(1) by (auto simp: pool_partial_def)
  then obtain rest where rest: "history t @ rest \<in> pool_histories p cap (bodies t)"
    using partial_prefix assms(2) by blast
  then have "history t @ rest \<in> interleavings (bodies t)"
    by (auto simp: pool_histories_def dest!: run_finished)
  with all have "size (mset (history t @ rest)) = size (mset (history t))"
    using interleavings_mset by metis
  then show ?thesis using rest by simp
qed

section \<open>Properties\<close>

text \<open>
  C13: What the pool does to the shared state is an interleaving of the functions given to it.
  Forgetting the functions, a run is one of \<open>pool_reachable\<close>; at any moment, so also when the
  context of \<^verbatim>\<open>Wait\<close> ends first, what has happened is the beginning of an interleaving of
  all the functions enqueued so far; and once \<^verbatim>\<open>Wait\<close> returned \<^verbatim>\<open>nil\<close> it is a whole one.
\<close>

theorem pool_run_interleaves:
  assumes "pool_runs p cap r"
  shows "pool_reachable p cap (run_pool r) \<and>
    (\<exists>rest. history r @ rest \<in> interleavings (bodies r)) \<and>
    (wait_returns_nil (run_pool r) \<longrightarrow> history r \<in> interleavings (bodies r))"
  using pool_runs_reachable [OF assms] run_prefix [OF assms] run_finished [OF assms] by blast

theorem pool_run_interleaves_witness:
  "\<exists>r :: nat pool_run. bodies r = [[1, 2], [3]] \<and> history r \<in> interleavings [[1, 2], [3]]"
proof -
  obtain r where r: "pool_runs 10 100 r" "wait_returns_nil (run_pool r)" "bodies r = [[1, 2], [3 :: nat]]"
    using sequential_run [of 10 100 "[[1, 2], [3 :: nat]]"] by auto
  have "history r \<in> interleavings (bodies r)" using pool_run_interleaves [OF r(1)] r(2) by blast
  then show ?thesis using r(3) by (intro exI [of _ r]) simp
qed

text \<open>
  C14: However the workers are scheduled, the functions never hold up the pool: from every state of
  a run with at least one worker a state is reached in which nothing can move, and each such state
  that is reached is the end, in which \<^verbatim>\<open>Wait\<close> has returned, all workers have left and every
  function has been performed to its last event.
\<close>

theorem pool_run_completes:
  assumes "pool_runs p cap r" "0 < p"
  shows "(\<exists>t. pool_run_step\<^sup>*\<^sup>* r t \<and> run_stuck t) \<and>
    (\<forall>t. pool_run_step\<^sup>*\<^sup>* r t \<and> run_stuck t \<longrightarrow>
       wait_returns_nil (run_pool t) \<and> set (workers (run_pool t)) = {Left} \<and>
       history t \<in> interleavings (bodies r))"
proof (intro conjI allI impI)
  show "\<exists>t. pool_run_step\<^sup>*\<^sup>* r t \<and> run_stuck t" using assms(1) by (rule run_completes)
next
  fix t
  assume t: "pool_run_step\<^sup>*\<^sup>* r t \<and> run_stuck t"
  then have runs: "pool_runs p cap t" "bodies t = bodies r" using pool_runs_steps assms(1) by auto
  note pinv = pool_reachable_inv [OF pool_runs_reachable [OF runs(1)]]
  have "pool_stuck (run_pool t)" using run_stuck_pool [OF _ pool_runs_inv [OF runs(1)] pinv] t by blast
  note final = stuck_final [OF pinv assms(2) this]
  show "wait_returns_nil (run_pool t)" using final(2) by (simp add: wait_returns_nil_def)
  then show "history t \<in> interleavings (bodies r)" using run_finished [OF runs(1)] runs(2) by simp
  show "set (workers (run_pool t)) = {Left}" by (rule final(6))
qed

theorem pool_run_completes_witness:
  "\<exists>t. pool_run_step\<^sup>*\<^sup>* (seq_run 10 100 [[1, 2], [3 :: nat]]) t \<and> wait_returns_nil (run_pool t) \<and>
     history t \<in> interleavings [[1, 2], [3]]"
proof -
  have "pool_runs 10 100 (seq_run 10 100 [[1, 2], [3 :: nat]])" by (rule seq_run_reachable) simp
  from pool_run_completes [OF this] show ?thesis unfolding seq_run_fields by auto
qed

text \<open>
  C15: The pool whose owner returns without calling \<^verbatim>\<open>Wait\<close>, as \<^verbatim>\<open>runChecks\<close> does when the
  nodes cannot be listed. What was enqueued is still performed, to the last event and as if it had
  been waited for; the goroutines do not go on for ever, but none of them ends: all of them stay
  blocked on a channel that is never closed.
\<close>

theorem abandoned_pool_performs_and_leaks:
  assumes "pool_runs p cap r" "0 < p" "\<not> wait_called (run_pool r)"
  shows "(\<exists>t. abandoned_step\<^sup>*\<^sup>* r t \<and> abandoned_stuck t) \<and>
    (\<forall>t. abandoned_step\<^sup>*\<^sup>* r t \<and> abandoned_stuck t \<longrightarrow>
       workers (run_pool t) = replicate p Idle \<and> \<not> closed (run_pool t) \<and>
       (\<exists>rest. history t = history r @ rest) \<and> history t \<in> pool_histories p cap (bodies r))"
proof (intro conjI allI impI)
  show "\<exists>t. abandoned_step\<^sup>*\<^sup>* r t \<and> abandoned_stuck t" using assms(1) by (rule abandoned_completes)
next
  fix t
  assume t: "abandoned_step\<^sup>*\<^sup>* r t \<and> abandoned_stuck t"
  then have steps: "pool_run_step\<^sup>*\<^sup>* r t" and still: "\<not> wait_called (run_pool t)"
    using abandoned_steps abandoned_not_waited assms(3) by blast+
  then have runs: "pool_runs p cap t" "bodies t = bodies r" using pool_runs_steps assms(1) by auto
  note final = abandoned_final [OF runs(1) assms(2) conjunct2 [OF t] still]
  show "workers (run_pool t) = replicate p Idle" "\<not> closed (run_pool t)" by (rule final)+
  show "\<exists>rest. history t = history r @ rest" using steps by (rule run_steps_history)
  show "history t \<in> pool_histories p cap (bodies r)"
    using abandoned_in_histories [OF runs(1) assms(2) conjunct2 [OF t] still] runs(2) by simp
qed

theorem abandoned_pool_performs_and_leaks_witness:
  "\<exists>t. abandoned_step\<^sup>*\<^sup>* (seq_run 10 100 [[1, 2], [3 :: nat]]) t \<and>
     workers (run_pool t) = replicate 10 Idle"
proof -
  let ?r = "seq_run 10 100 [[1, 2], [3 :: nat]]"
  have p: "(0 :: nat) < 10" by simp
  note A = abandoned_pool_performs_and_leaks
    [OF seq_run_reachable [OF p, of 100 "[[1, 2], [3 :: nat]]"] p seq_run_fields(4)]
  obtain t where t: "abandoned_step\<^sup>*\<^sup>* ?r t \<and> abandoned_stuck t"
    using conjunct1 [OF A] by (elim exE)
  from conjunct2 [OF A, THEN spec, THEN mp, OF t] t show ?thesis by (intro exI [of _ t]) simp
qed

text \<open>
  Two functions of a pool with at least two workers can be interleaved anywhere: for any two of
  them and any two places in them there is a run in which two workers have got exactly there. What
  the functions do to memory they share without a lock, as the two node checks with maps of
  clusters and resource pools do, is therefore a data race.
\<close>

theorem functions_overlap:
  assumes "2 \<le> p" "i < j" "j < length xss" "k \<le> length (xss ! i)" "l \<le> length (xss ! j)"
  shows "\<exists>r v w. pool_runs p cap r \<and> bodies r = xss \<and> v \<noteq> w \<and>
    workers (run_pool r) ! v = Busy i \<and> pcs r ! i = k \<and>
    workers (run_pool r) ! w = Busy j \<and> pcs r ! j = l"
proof -
  let ?as = "take i xss" and ?bs = "take (j - Suc i) (drop (Suc i) xss)" and ?cs = "drop (Suc j) xss"
  have tail: "drop (Suc i) xss = ?bs @ xss ! j # ?cs"
    using assms(2,3) id_take_nth_drop [of "j - Suc i" "drop (Suc i) xss"] by simp
  have "xss = ?as @ xss ! i # drop (Suc i) xss" using assms(2,3) by (intro id_take_nth_drop) simp
  then have xss: "?as @ xss ! i # ?bs @ xss ! j # ?cs = xss" unfolding tail [symmetric] by (rule sym)
  have len: "length ?as = i" "Suc (i + length ?bs) = j" using assms(2,3) by simp_all
  from functions_overlap_parts [OF assms(1,4,5), of cap ?as ?bs ?cs] obtain r where r: "pool_runs p cap r"
    "bodies r = xss" "workers (run_pool r) ! 0 = Busy i" "workers (run_pool r) ! 1 = Busy j"
    "pcs r ! i = k" "pcs r ! j = l"
    unfolding len xss by (elim exE conjE) (rule that)
  show ?thesis
    by (rule exI [of _ r], rule exI [of _ 0], rule exI [of _ 1], intro conjI) (rule r | simp)+
qed

theorem functions_overlap_witness:
  "\<exists>r :: nat pool_run. \<exists>v w. bodies r = [[1, 2], [3, 4]] \<and> v \<noteq> w \<and>
     workers (run_pool r) ! v = Busy 0 \<and> pcs r ! 0 = 1 \<and> workers (run_pool r) ! w = Busy 1 \<and> pcs r ! 1 = 1"
proof -
  have "(2 :: nat) \<le> 10" "(0 :: nat) < 1" "1 < length [[1, 2], [3, 4 :: nat]]"
    "1 \<le> length ([[1, 2], [3, 4 :: nat]] ! 0)" "1 \<le> length ([[1, 2], [3, 4 :: nat]] ! 1)" by simp_all
  from functions_overlap [OF this, of 100] show ?thesis by blast
qed

end
