(* ===== verification/Checker.thy ===== *)
theory Checker
  imports Connect NodeChecks ResultCollector MetricsCollector PoolRuns
begin

text \<open>
  One round of checks, \<^verbatim>\<open>vSphereChecker\<close> of pkg/operator/vsphere_check.go: which checks run on
  what, what each reports, and what is left when the round returns.

  The closures given to the thread pool are jobs. What a job does to the shared state is its
  trace: the results it adds, the operations on \<^verbatim>\<open>ClusterInfo\<close> and the metrics it sets, each
  atomic. The pool runs the jobs in parallel: what a round performs is the history of a run of the
  pool of \<open>PoolRuns\<close>, an interleaving of the traces of its jobs chosen by the scheduler. What the
  individual checks answer in the round, and what vCenter and the API answer, is the record
  \<open>check_env\<close>.
\<close>

section \<open>The environment of a round\<close>

datatype job_event =
    EvResult checkResult
  | EvInfo info_op
  | EvGauge string "string list" nat
  | EvInc string "string list"

record check_env =
  chk_connect :: connect_env
  chk_UserSession :: "string \<Rightarrow> go_error + string option"
  chk_GetInfrastructure :: "go_error + infrastructure"
  chk_ListNodes :: "go_error + node list"
  chk_FindByUuid :: "vcenter \<Rightarrow> string \<Rightarrow> go_error + string option"
  chk_Properties :: "vcenter \<Rightarrow> string \<Rightarrow> go_error + vm"
  chk_clusterChecks :: "string list"
  chk_nodeChecks :: "string list"
  chk_ClusterCheck :: "check_context \<Rightarrow> string \<Rightarrow> node_call"
  chk_NodeCheck :: "check_context \<Rightarrow> string \<Rightarrow> node \<Rightarrow> vm \<Rightarrow> node_call"
  chk_Finish :: "check_context \<Rightarrow> cluster_info \<Rightarrow> gauge list"
  chk_schedule :: "job_event list list \<Rightarrow> job_event list"
  chk_done :: nat
  chk_Wait :: "go_error option"
  chk_Logout :: "string \<Rightarrow> go_error option"

section \<open>The jobs\<close>

datatype job = ClusterJob string | NodeJob node

definition isVSphereNode :: "node \<Rightarrow> bool" where
  "isVSphereNode n = prefix ''vsphere://'' (ProviderID n)"

definition vm_uuid :: "node \<Rightarrow> string" where
  "vm_uuid n = to_lower (trim_space (trim_prefix ''vsphere://'' (ProviderID n)))"

definition getVM :: "check_env \<Rightarrow> check_context \<Rightarrow> node \<Rightarrow> go_error + vm" where
  "getVM env ctx n =
     (if \<not> isVSphereNode n
      then Inl (Errorf (''node '' @ node_Name n @ '' is not a vSphere VM (providerID ''
             @ quote (ProviderID n) @ '')''))
      else if vm_uuid n = []
      then Inl (Errorf (''VMUUID is not set for node '' @ node_Name n))
      else case GetVCenter ctx n of
        Inl err \<Rightarrow> Inl (Errorf (''failed to find VM for node '' @ node_Name n @ '': '' @ error_text err))
      | Inr vCenterInfo \<Rightarrow>
        (case chk_FindByUuid env vCenterInfo (vm_uuid n) of
           Inl err \<Rightarrow> Inl (Errorf (''failed to find VM by UUID '' @ vm_uuid n @ '': '' @ error_text err))
         | Inr None \<Rightarrow> Inl (Errorf (''failed to find VM by UUID '' @ vm_uuid n))
         | Inr (Some svm) \<Rightarrow>
           (case chk_Properties env vCenterInfo svm of
              Inl err \<Rightarrow> Inl (Errorf (''failed to load VM '' @ node_Name n @ '': '' @ error_text err))
            | Inr o' \<Rightarrow> Inr o')))"

definition error_gauge :: "go_error option \<Rightarrow> nat" where
  "error_gauge err = (if err \<noteq> None then 1 else 0)"

definition runSingleClusterCheck :: "check_env \<Rightarrow> check_context \<Rightarrow> string \<Rightarrow> job_event list" where
  "runSingleClusterCheck env ctx name =
     (let (err, ops) = chk_ClusterCheck env ctx name
      in map EvInfo ops
         @ [EvGauge ''vsphere_cluster_check_errors'' [name] (error_gauge err),
            EvInc ''vsphere_cluster_check_total'' [name],
            EvResult \<lparr>res_Name = name, res_Error = err\<rparr>])"

definition runSingleNodeSingleCheck ::
  "check_env \<Rightarrow> check_context \<Rightarrow> node \<Rightarrow> vm \<Rightarrow> string \<Rightarrow> job_event list" where
  "runSingleNodeSingleCheck env ctx n v name =
     (let (err, ops) = chk_NodeCheck env ctx name n v
      in map EvInfo ops
         @ [EvGauge ''vsphere_node_check_errors'' [name, node_Name n] (error_gauge err),
            EvInc ''vsphere_node_check_total'' [name, node_Name n],
            EvResult \<lparr>res_Name = name, res_Error = err\<rparr>])"

text \<open>The closure of \<^verbatim>\<open>enqueueSingleNodeChecks\<close> and that of \<^verbatim>\<open>enqueueClusterChecks\<close>.\<close>

fun run_job :: "check_env \<Rightarrow> check_context \<Rightarrow> job \<Rightarrow> job_event list" where
  "run_job env ctx (ClusterJob name) = runSingleClusterCheck env ctx name"
| "run_job env ctx (NodeJob n) =
     (case getVM env ctx n of
        Inl err \<Rightarrow> map (\<lambda>name. EvResult \<lparr>res_Name = name, res_Error = Some err\<rparr>) (chk_nodeChecks env)
      | Inr v \<Rightarrow> concat (map (runSingleNodeSingleCheck env ctx n v) (chk_nodeChecks env)))"

definition enqueueClusterChecks :: "check_env \<Rightarrow> job list" where
  "enqueueClusterChecks env = map ClusterJob (chk_clusterChecks env)"

fun enqueue_nodes :: "node list \<Rightarrow> job list" where
  "enqueue_nodes [] = []"
| "enqueue_nodes (n # ns) =
     (if \<not> isVSphereNode n then enqueue_nodes ns else NodeJob n # enqueue_nodes ns)"

definition enqueueNodeChecks :: "check_env \<Rightarrow> go_error + job list" where
  "enqueueNodeChecks env =
     (case chk_ListNodes env of Inl err \<Rightarrow> Inl err | Inr nodes \<Rightarrow> Inr (enqueue_nodes nodes))"

section \<open>The shared state\<close>

fun apply_event :: "job_event \<Rightarrow> result_collector \<times> cluster_info \<Rightarrow> result_collector \<times> cluster_info" where
  "apply_event (EvResult r) (rc, ci) = (AddResult r rc, ci)"
| "apply_event (EvInfo x) (rc, ci) = (rc, info_step x ci)"
| "apply_event (EvGauge m ls v) (rc, ci) = (rc, ci)"
| "apply_event (EvInc m ls) (rc, ci) = (rc, ci)"

definition trace_results :: "job_event list \<Rightarrow> checkResult list" where
  "trace_results tr = concat (map (\<lambda>e. case e of EvResult r \<Rightarrow> [r] | _ \<Rightarrow> []) tr)"

definition trace_info :: "job_event list \<Rightarrow> info_op list" where
  "trace_info tr = concat (map (\<lambda>e. case e of EvInfo x \<Rightarrow> [x] | _ \<Rightarrow> []) tr)"

lemma fold_apply_event:
  "fold apply_event tr (rc, ci) = (fold AddResult (trace_results tr) rc, info_run (trace_info tr) ci)"
proof (induction tr arbitrary: rc ci)
  case (Cons e tr)
  then show ?case by (cases e) (simp_all add: trace_results_def trace_info_def)
qed (simp add: trace_results_def trace_info_def)

section \<open>runChecks\<close>

text \<open>The user names of the sessions; \<open>None\<close> is the panic on a session that is \<^verbatim>\<open>nil\<close>.\<close>

fun user_loop ::
  "check_env \<Rightarrow> (string \<times> vcenter) list \<Rightarrow> (go_error + (string \<times> vcenter) list) option" where
  "user_loop env [] = Some (Inr [])"
| "user_loop env ((name, vc) # vcs) =
     (case chk_UserSession env (VCenterName vc) of
        Inl err \<Rightarrow> Some (Inl (Errorf (''unable to run checks: '' @ error_text err)))
      | Inr None \<Rightarrow> None
      | Inr (Some user) \<Rightarrow>
        (case user_loop env vcs of
           Some (Inr vcs') \<Rightarrow> Some (Inr ((name, vc\<lparr>Username := user\<rparr>) # vcs'))
         | r \<Rightarrow> r))"

record round_end =
  end_result :: "(go_error + result_collector) option"
  end_info :: cluster_info
  end_sessions :: "session_op list"
  end_trace :: "job_event list"
  end_collector :: "gauge collector_call list"

definition early_end ::
  "(go_error + result_collector) option \<Rightarrow> cluster_info \<Rightarrow> session_op list \<Rightarrow> round_end" where
  "early_end r ci ops = \<lparr>end_result = r, end_info = ci, end_sessions = ops, end_trace = [],
     end_collector = [CallStart]\<rparr>"

text \<open>
  The deferred logouts. They use the context of the round, so that they fail when it has ended;
  a failure is logged, and the session stays open.
\<close>

definition logout_all :: "check_env \<Rightarrow> check_context \<Rightarrow> session_op list" where
  "logout_all env ctx =
     concat (map (\<lambda>(name, vc). Logout (chk_Logout env (VCenterName vc)) (VCenterName vc)) (VCenters ctx))"

text \<open>
  The part from \<^verbatim>\<open>ConvertToPlatformSpec\<close> on. When the nodes cannot be listed, or the context
  ends before the jobs, the round returns with only a part of the trace performed.
\<close>

definition run_jobs :: "check_env \<Rightarrow> check_context \<Rightarrow> cluster_info \<Rightarrow> session_op list \<Rightarrow> round_end" where
  "run_jobs env ctx ci ops =
     (let cjobs = enqueueClusterChecks env in
      case enqueueNodeChecks env of
        Inl err \<Rightarrow>
          let tr = take (chk_done env) (chk_schedule env (map (run_job env ctx) cjobs))
          in \<lparr>end_result = Some (Inl err), end_info = info_run (trace_info tr) ci,
              end_sessions = ops, end_trace = tr, end_collector = [CallStart, CallFinish]\<rparr>
      | Inr njobs \<Rightarrow>
        let tr = chk_schedule env (map (run_job env ctx) (cjobs @ njobs)) in
        (case chk_Wait env of
           Some err \<Rightarrow>
             let tr = take (chk_done env) tr
             in \<lparr>end_result = Some (Inl err), end_info = info_run (trace_info tr) ci,
                 end_sessions = ops, end_trace = tr, end_collector = [CallStart, CallFinish]\<rparr>
         | None \<Rightarrow>
             let (rc, ci') = fold apply_event tr (NewResultsCollector, ci)
             in \<lparr>end_result = Some (Inr rc), end_info = ci', end_sessions = ops, end_trace = tr,
                 end_collector = [CallStart] @ map CallAdd (chk_Finish env ctx ci') @ [CallFinish]\<rparr>))"

definition checker_runChecks :: "check_env \<Rightarrow> cluster_info \<Rightarrow> round_end" where
  "checker_runChecks env ci =
     (case connect (chk_connect env) of
        (Inl err, ops, gs) \<Rightarrow> early_end (Some (Inl err)) ci ops
      | (Inr ctx, ops, gs) \<Rightarrow>
        let ops = ops @ logout_all env ctx in
        (case user_loop env (VCenters ctx) of
           None \<Rightarrow> early_end None ci ops
         | Some (Inl err) \<Rightarrow> early_end (Some (Inl err)) ci ops
         | Some (Inr vcs) \<Rightarrow>
           (case chk_GetInfrastructure env of
              Inl err \<Rightarrow> early_end (Some (Inl err)) ci ops
            | Inr infra \<Rightarrow>
                run_jobs env (ConvertToPlatformSpec infra (ctx\<lparr>VCenters := vcs\<rparr>)) ci ops)))"

text \<open>The checker as the controller sees it, for rounds that do not panic.\<close>

definition checker_of :: "check_env \<Rightarrow> cluster_info \<Rightarrow> (go_error + result_collector) \<times> cluster_info" where
  "checker_of env ci = (the (end_result (checker_runChecks env ci)), end_info (checker_runChecks env ci))"

section \<open>What a round reports\<close>

text \<open>
  The thread pool of the round has ten workers and a buffer of a hundred: what it has done with the
  bodies \<open>xss\<close> when \<^verbatim>\<open>Wait\<close> returns \<^verbatim>\<open>nil\<close> is one of its histories.
\<close>

definition parallelVSPhereCalls :: nat where "parallelVSPhereCalls = 10"
definition channelBufferSize :: nat where "channelBufferSize = 100"

interpretation checks: executor "pool_histories parallelVSPhereCalls channelBufferSize"
  using pool.executor_axioms [of 9 channelBufferSize] by (simp add: parallelVSPhereCalls_def)

definition scheduler_ok :: "check_env \<Rightarrow> bool" where
  "scheduler_ok env \<longleftrightarrow>
     (\<forall>xss. chk_schedule env xss \<in> pool_histories parallelVSPhereCalls channelBufferSize xss)"

lemma scheduler_interleaves: "scheduler_ok env \<Longrightarrow> chk_schedule env xss \<in> interleavings xss"
  unfolding scheduler_ok_def using checks.interleaved by blast

lemma sequential_scheduler: "chk_schedule env = concat \<Longrightarrow> scheduler_ok env"
  by (simp add: scheduler_ok_def concat_in_pool_histories parallelVSPhereCalls_def)

definition node_check_error :: "check_env \<Rightarrow> check_context \<Rightarrow> string \<Rightarrow> node \<Rightarrow> go_error option" where
  "node_check_error env ctx name n =
     (case getVM env ctx n of Inl err \<Rightarrow> Some err | Inr v \<Rightarrow> fst (chk_NodeCheck env ctx name n v))"

fun job_results :: "check_env \<Rightarrow> check_context \<Rightarrow> job \<Rightarrow> checkResult list" where
  "job_results env ctx (ClusterJob name) =
     [\<lparr>res_Name = name, res_Error = fst (chk_ClusterCheck env ctx name)\<rparr>]"
| "job_results env ctx (NodeJob n) =
     map (\<lambda>name. \<lparr>res_Name = name, res_Error = node_check_error env ctx name n\<rparr>) (chk_nodeChecks env)"

lemma trace_results_simps [simp]:
  "trace_results [] = []"
  "trace_results (xs @ ys) = trace_results xs @ trace_results ys"
  "trace_results (EvResult r # xs) = r # trace_results xs"
  "trace_results (EvGauge m ls v # xs) = trace_results xs"
  "trace_results (EvInc m ls # xs) = trace_results xs"
  "trace_results (map EvInfo ops) = []"
  by (simp_all add: trace_results_def comp_def)

lemma trace_results_concat: "trace_results (concat xss) = concat (map trace_results xss)"
  by (induction xss) auto

lemma trace_results_run_job: "trace_results (run_job env ctx j) = job_results env ctx j"
proof (cases j)
  case (ClusterJob name)
  then show ?thesis by (simp add: runSingleClusterCheck_def split: prod.splits)
next
  case (NodeJob n)
  have failed: "trace_results (map (\<lambda>name. EvResult \<lparr>res_Name = name, res_Error = e\<rparr>) names)
      = map (\<lambda>name. \<lparr>res_Name = name, res_Error = e\<rparr>) names" for names e
    by (induction names) auto
  have one: "trace_results (runSingleNodeSingleCheck env ctx n v name)
      = [\<lparr>res_Name = name, res_Error = fst (chk_NodeCheck env ctx name n v)\<rparr>]" for v name
    by (simp add: runSingleNodeSingleCheck_def split: prod.splits)
  have "trace_results (concat (map (runSingleNodeSingleCheck env ctx n v) names))
      = map (\<lambda>name. \<lparr>res_Name = name, res_Error = fst (chk_NodeCheck env ctx name n v)\<rparr>) names" for v names
    by (induction names) (simp_all add: one)
  with NodeJob failed show ?thesis by (simp add: node_check_error_def split: sum.split)
qed

lemma set_trace_results: "set (trace_results tr) = {r. EvResult r \<in> set tr}"
  by (auto simp: trace_results_def split: job_event.splits)

lemma set_trace_interleaving:
  assumes "tr \<in> interleavings (map (run_job env ctx) jobs)"
  shows "set (trace_results tr) = (\<Union>j \<in> set jobs. set (job_results env ctx j))"
proof -
  have "set tr = set (concat (map (run_job env ctx) jobs))"
    using mset_eq_setD [OF interleavings_mset [OF assms]] .
  then have "set (trace_results tr) = set (trace_results (concat (map (run_job env ctx) jobs)))"
    by (simp add: set_trace_results)
  also have "\<dots> = (\<Union>j \<in> set jobs. set (job_results env ctx j))"
    by (simp add: trace_results_concat comp_def trace_results_run_job)
  finally show ?thesis .
qed

lemma enqueue_nodes_eq: "enqueue_nodes ns = map NodeJob (filter isVSphereNode ns)"
  by (induction ns) auto

text \<open>The context the checks of a round get, when it comes to running them.\<close>

definition round_context :: "check_env \<Rightarrow> check_context option" where
  "round_context env =
     (case connect (chk_connect env) of
        (Inl err, ops, gs) \<Rightarrow> None
      | (Inr ctx, ops, gs) \<Rightarrow>
        (case (user_loop env (VCenters ctx), chk_GetInfrastructure env) of
           (Some (Inr vcs), Inr infra) \<Rightarrow> Some (ConvertToPlatformSpec infra (ctx\<lparr>VCenters := vcs\<rparr>))
         | _ \<Rightarrow> None))"

lemma round_context_cong:
  assumes "chk_connect e = chk_connect env" "chk_UserSession e = chk_UserSession env"
    "chk_GetInfrastructure e = chk_GetInfrastructure env"
  shows "round_context e = round_context env"
proof -
  have user: "user_loop e vcs = user_loop env vcs" for vcs
  proof (induction vcs)
    case (Cons x vcs)
    obtain name vc where x: "x = (name, vc)" by (cases x)
    show ?case unfolding x user_loop.simps assms Cons.IH ..
  qed simp
  show ?thesis unfolding round_context_def user assms ..
qed

lemma round_start:
  "round_context env = Some ctx \<Longrightarrow> \<exists>ops. checker_runChecks env ci = run_jobs env ctx ci ops"
  by (fastforce simp: round_context_def checker_runChecks_def Let_def
      split: sum.splits prod.splits option.splits)

definition round_jobs :: "check_env \<Rightarrow> node list \<Rightarrow> job list" where
  "round_jobs env nodes = map ClusterJob (chk_clusterChecks env) @ map NodeJob (filter isVSphereNode nodes)"

text \<open>A round that returns results has come to running the jobs.\<close>

lemma successful_start:
  assumes "end_result (checker_runChecks env ci) = Some (Inr rc)"
  shows "\<exists>ctx ops. round_context env = Some ctx \<and> checker_runChecks env ci = run_jobs env ctx ci ops"
proof -
  obtain ctx0 ops gs where c: "connect (chk_connect env) = (Inr ctx0, ops, gs)"
    using assms by (cases "connect (chk_connect env)")
      (auto simp: checker_runChecks_def early_end_def split: sum.splits prod.splits)
  obtain vcs where u: "user_loop env (VCenters ctx0) = Some (Inr vcs)"
    using assms c by (auto simp: checker_runChecks_def early_end_def Let_def split: sum.splits option.splits)
  obtain infra where i: "chk_GetInfrastructure env = Inr infra"
    using assms c u by (auto simp: checker_runChecks_def early_end_def Let_def split: sum.splits)
  show ?thesis
    by (rule exI [of _ "ConvertToPlatformSpec infra (ctx0\<lparr>VCenters := vcs\<rparr>)"], rule exI [of _ "ops @ logout_all env ctx0"])
      (simp add: checker_runChecks_def round_context_def c u i Let_def)
qed

lemma run_jobs_successful:
  assumes "end_result (run_jobs env ctx ci ops) = Some (Inr rc)"
  shows "\<exists>nodes tr. chk_ListNodes env = Inr nodes \<and>
    tr = chk_schedule env (map (run_job env ctx) (round_jobs env nodes)) \<and>
    end_trace (run_jobs env ctx ci ops) = tr \<and>
    rc = add_results (trace_results tr) \<and> end_info (run_jobs env ctx ci ops) = info_run (trace_info tr) ci \<and>
    end_collector (run_jobs env ctx ci ops) =
      [CallStart] @ map CallAdd (chk_Finish env ctx (info_run (trace_info tr) ci)) @ [CallFinish]"
proof -
  obtain nodes where n: "chk_ListNodes env = Inr nodes"
    using assms by (auto simp: run_jobs_def enqueueNodeChecks_def Let_def split: sum.splits)
  have jobs: "enqueueClusterChecks env @ enqueue_nodes nodes = round_jobs env nodes"
    by (simp add: enqueueClusterChecks_def enqueue_nodes_eq round_jobs_def)
  have w: "chk_Wait env = None"
    using assms n by (auto simp: run_jobs_def enqueueNodeChecks_def Let_def split: option.splits)
  show ?thesis
    using assms n w
    by (simp add: jobs [symmetric] run_jobs_def enqueueNodeChecks_def Let_def fold_apply_event add_results_def)
qed

lemma round_ends:
  assumes "round_context env = Some ctx" "chk_ListNodes env = Inr nodes" "chk_Wait env = None"
  shows "\<exists>rc. end_result (checker_runChecks env ci) = Some (Inr rc)"
proof -
  obtain ops where "checker_runChecks env ci = run_jobs env ctx ci ops" using round_start [OF assms(1)] by blast
  with assms(2,3) show ?thesis by (simp add: run_jobs_def enqueueNodeChecks_def Let_def split: prod.split)
qed

lemma successful_round:
  assumes "end_result (checker_runChecks env ci) = Some (Inr rc)" "scheduler_ok env"
  shows "\<exists>ctx nodes tr. round_context env = Some ctx \<and> chk_ListNodes env = Inr nodes \<and>
    tr \<in> interleavings (map (run_job env ctx) (round_jobs env nodes)) \<and>
    rc = add_results (trace_results tr) \<and>
    end_info (checker_runChecks env ci) = info_run (trace_info tr) ci"
  using successful_start [OF assms(1)] run_jobs_successful [of env _ ci _ rc] assms(1)
    scheduler_interleaves [OF assms(2)] by metis

text \<open>When a check passes in a round.\<close>

definition cluster_check_passes :: "check_env \<Rightarrow> check_context \<Rightarrow> string \<Rightarrow> bool" where
  "cluster_check_passes env ctx name \<longleftrightarrow>
     (name \<in> set (chk_clusterChecks env) \<longrightarrow> fst (chk_ClusterCheck env ctx name) = None)"

definition node_check_passes :: "check_env \<Rightarrow> check_context \<Rightarrow> node list \<Rightarrow> string \<Rightarrow> bool" where
  "node_check_passes env ctx nodes name \<longleftrightarrow>
     (name \<in> set (chk_nodeChecks env) \<longrightarrow>
        (\<forall>n \<in> set nodes. isVSphereNode n \<longrightarrow>
           (\<exists>v. getVM env ctx n = Inr v \<and> fst (chk_NodeCheck env ctx name n v) = None)))"

definition reported_checks :: "check_env \<Rightarrow> node list \<Rightarrow> string set" where
  "reported_checks env nodes = set (chk_clusterChecks env) \<union>
     (if \<exists>n \<in> set nodes. isVSphereNode n then set (chk_nodeChecks env) else {})"

lemma round_results:
  assumes "tr \<in> interleavings (map (run_job env ctx) (round_jobs env nodes))"
  shows "res_Name ` set (trace_results tr) = reported_checks env nodes"
    "name \<in> reported_checks env nodes \<Longrightarrow>
      (\<forall>x \<in> set (trace_results tr). res_Name x = name \<longrightarrow> res_Error x = None) \<longleftrightarrow>
      cluster_check_passes env ctx name \<and> node_check_passes env ctx nodes name"
proof -
  note S = set_trace_interleaving [OF assms]
  show "res_Name ` set (trace_results tr) = reported_checks env nodes"
  proof -
    have names: "res_Name ` set (job_results env ctx j) =
        (case j of ClusterJob name \<Rightarrow> {name} | NodeJob n \<Rightarrow> set (chk_nodeChecks env))" for j
      by (cases j) (simp_all add: image_image)
    show ?thesis
      unfolding S image_UN names by (auto simp: round_jobs_def reported_checks_def)
  qed
  have node: "node_check_error env ctx m n = None \<longleftrightarrow>
      (\<exists>v. getVM env ctx n = Inr v \<and> fst (chk_NodeCheck env ctx m n v) = None)" for m n
    by (simp add: node_check_error_def split: sum.split)
  show "(\<forall>x \<in> set (trace_results tr). res_Name x = name \<longrightarrow> res_Error x = None) \<longleftrightarrow>
      cluster_check_passes env ctx name \<and> node_check_passes env ctx nodes name"
    unfolding S cluster_check_passes_def node_check_passes_def node [symmetric]
    by (auto simp: round_jobs_def ball_Un)
qed

section \<open>Properties\<close>

text \<open>
  C4: A round that completes reports exactly the checks it should, whatever the interleaving of
  the workers: every cluster check, and every node check as soon as one node is a vSphere VM; a
  node without the \<^verbatim>\<open>vsphere://\<close> prefix contributes nothing. A check is reported as passed
  exactly when the cluster check returned \<^verbatim>\<open>nil\<close>, respectively when the VM of every vSphere node
  was found and the node check returned \<^verbatim>\<open>nil\<close> for each of them.
\<close>

theorem round_reports_exactly:
  assumes "scheduler_ok env" "end_result (checker_runChecks env ci) = Some (Inr rc)"
    and "round_context env = Some ctx" "chk_ListNodes env = Inr nodes"
    and "iteration_of (results rc) names" "Collect_results rc names = (rs, err)"
  shows "distinct (map res_Name rs) \<and> res_Name ` set rs = reported_checks env nodes \<and>
    (\<forall>r \<in> set rs. res_Error r = None \<longleftrightarrow>
       cluster_check_passes env ctx (res_Name r) \<and> node_check_passes env ctx nodes (res_Name r))"
proof -
  obtain tr where tr: "tr \<in> interleavings (map (run_job env ctx) (round_jobs env nodes))"
    and rc: "rc = add_results (trace_results tr)"
    using successful_round [OF assms(2,1)] assms(3,4) by auto
  note sum = collect_summary [OF assms(5) [unfolded rc], folded rc, unfolded assms(6) fst_conv snd_conv]
  have names: "res_Name ` set rs = reported_checks env nodes"
    using sum(1,3) round_results(1) [OF tr] by (metis list.set_map)
  have "res_Error r = None \<longleftrightarrow>
       cluster_check_passes env ctx (res_Name r) \<and> node_check_passes env ctx nodes (res_Name r)"
    if "r \<in> set rs" for r
    using sum(4) that names round_results(2) [OF tr, of "res_Name r"] by blast
  then show ?thesis using names sum(1,2) by simp
qed

definition vsphere_node :: node where
  "vsphere_node = \<lparr>node_Name = ''n1'', Labels = Map.empty, ProviderID = ''vsphere://ABC''\<rparr>"

definition metal_node :: node where
  "metal_node = \<lparr>node_Name = ''n2'', Labels = Map.empty, ProviderID = ''baremetal://1''\<rparr>"

definition sample_vm :: vm where
  "sample_vm = \<lparr>vm_Config = Some \<lparr>ExtraConfig = [], DiskUuidEnabled = Some True, Config_Version = ''vmx-15''\<rparr>,
     vm_Host = Some ''h1'', vm_ResourcePool = None\<rparr>"

definition sample_env :: check_env where
  "sample_env = \<lparr>chk_connect = sample_connect_env, chk_UserSession = (\<lambda>_. Inr (Some ''u'')),
     chk_GetInfrastructure = Inr sample_infrastructure,
     chk_ListNodes = Inr [vsphere_node, metal_node],
     chk_FindByUuid = (\<lambda>_ uuid. Inr (if uuid = ''abc'' then Some ''vm-1'' else None)),
     chk_Properties = (\<lambda>_ _. Inr sample_vm),
     chk_clusterChecks = [''CheckTaskPermissions''], chk_nodeChecks = [''CheckNodeDiskUUID''],
     chk_ClusterCheck = (\<lambda>_ _. (Some (Errorf ''no permission''), [])),
     chk_NodeCheck = (\<lambda>_ _ n v. the (CheckNodeDiskUUID n v)), chk_Finish = (\<lambda>_ _. []),
     chk_schedule = concat, chk_done = 0, chk_Wait = None, chk_Logout = (\<lambda>_. None)\<rparr>"

lemma sample_env_ok: "scheduler_ok sample_env"
  by (rule sequential_scheduler) (simp add: sample_env_def)

lemma sample_round_context: "\<exists>ctx. round_context sample_env = Some ctx \<and> map fst (VCenters ctx) = [''vc1'']"
  using sample_connect
  by (auto simp: round_context_def sample_env_def ConvertToPlatformSpec_def)

lemma sample_round_ends:
  "\<exists>rc. end_result (checker_runChecks sample_env ci) = Some (Inr rc)"
proof -
  obtain ctx where "round_context sample_env = Some ctx" using sample_round_context by blast
  then show ?thesis by (rule round_ends) (simp_all add: sample_env_def)
qed

theorem round_reports_exactly_witness:
  "\<exists>rc names. end_result (checker_runChecks sample_env NewClusterInfo) = Some (Inr rc) \<and>
     res_Name ` set (fst (Collect_results rc names)) = {''CheckTaskPermissions'', ''CheckNodeDiskUUID''}"
proof -
  obtain ctx where ctx: "round_context sample_env = Some ctx" using sample_round_context by blast
  obtain rc where rc: "end_result (checker_runChecks sample_env NewClusterInfo) = Some (Inr rc)"
    using sample_round_ends by blast
  have nodes: "chk_ListNodes sample_env = Inr [vsphere_node, metal_node]" by (simp add: sample_env_def)
  obtain tr where "rc = add_results (trace_results tr)"
    using successful_round [OF rc sample_env_ok] by blast
  then have "finite (dom (results rc))" by (simp add: dom_add_results)
  then obtain names where names: "iteration_of (results rc) names" using iteration_of_finite by blast
  have "reported_checks sample_env [vsphere_node, metal_node]
      = {''CheckTaskPermissions'', ''CheckNodeDiskUUID''}"
    by (auto simp: reported_checks_def sample_env_def isVSphereNode_def vsphere_node_def)
  with round_reports_exactly [OF sample_env_ok rc ctx nodes names prod.collapse [symmetric]] rc
  show ?thesis by blast
qed

text \<open>
  \<^verbatim>\<open>CheckNodeProviderID\<close> can never fail in a round: only nodes with the prefix are checked.
\<close>

lemma provider_check_never_fails:
  "NodeJob n \<in> set (enqueue_nodes nodes) \<Longrightarrow> CheckNodeProviderID n v = (None, [])"
  by (auto simp: enqueue_nodes_eq isVSphereNode_def CheckNodeProviderID_def)

end
