(* ===== verification/Cache.thy ===== *)
theory Cache
  imports GoErrors
begin

text \<open>
  pkg/cache/cache.go: the cache of vCenter objects each round of checks gets for every vCenter.
  Every exported method holds the mutex for its whole body, so each is one operation on the
  cache. vCenter's answers are the record \<open>inventory_api\<close>; they are taken as constant during
  a round. A slice of cached datastores is only ever built by \<^verbatim>\<open>append\<close>, so it is \<^verbatim>\<open>nil\<close>
  exactly when it is empty.

  What a check relies on is stated as the locale of cached lookups: a lookup through a good
  cache returns what vCenter answers, and leaves the cache good. It is interpreted on every
  method of the cache.
\<close>

section \<open>The interface\<close>

locale cached_lookup =
  fixes get :: "'k \<Rightarrow> 'c \<Rightarrow> 'r \<times> 'c"
    and direct :: "'k \<Rightarrow> 'r"
    and good :: "'c \<Rightarrow> bool"
  assumes get_direct: "good c \<Longrightarrow> fst (get k c) = direct k"
    and get_good: "good c \<Longrightarrow> good (snd (get k c))"
begin

fun gets :: "'k list \<Rightarrow> 'c \<Rightarrow> 'r list \<times> 'c" where
  "gets [] c = ([], c)"
| "gets (k # ks) c =
     (let (r, c) = get k c; (rs, c) = gets ks c in (r # rs, c))"

lemma gets_transparent:
  "good c \<Longrightarrow> fst (gets ks c) = map direct ks \<and> good (snd (gets ks c))"
proof (induction ks arbitrary: c)
  case (Cons k ks)
  have "good (snd (get k c))" by (rule get_good [OF Cons.prems])
  from Cons.IH [OF this] get_direct [OF Cons.prems, of k] show ?case
    by (simp add: case_prod_beta Let_def)
qed simp

end

section \<open>State\<close>

record datastore_mo =
  ds_Ref :: string
  ds_Name :: string
  ds_InfoName :: string
  ds_InfoUrl :: string
  ds_SummaryUrl :: string
  ds_Type :: string

record storage_pod =
  pod_Name :: string
  pod_Children :: "string list"

record datacenter =
  dc_Ref :: string
  dc_Path :: string

record datastore_object =
  obj_Name :: string
  obj_Path :: string
  obj_Ref :: string

record inventory_api =
  api_Datacenter :: "string \<Rightarrow> go_error + datacenter"
  api_DatacenterList :: "go_error + string list"
  api_DatastoreList :: "datacenter \<Rightarrow> go_error + datastore_object list"
  api_DatastoreMos :: "datacenter \<Rightarrow> string list \<Rightarrow> go_error + datastore_mo list"
  api_PodView :: "go_error option"
  api_Pods :: "go_error + storage_pod list"

record cachedDatastore =
  dsPath :: string
  cds_ds :: datastore_object
  dsMo :: datastore_mo

record cachedDatacenter =
  cdc_dc :: datacenter
  dcPath :: string
  datastores :: "cachedDatastore list"

text \<open>
  The last field is not one of the struct: it records the calls of \<^verbatim>\<open>finder.Datacenter\<close>, by name,
  in their order, so that the number of calls made to vCenter can be stated.
\<close>

record vSphereCache =
  datacenters :: "string \<rightharpoonup> cachedDatacenter"
  storagePods :: "storage_pod list"
  asked :: "string list"

definition NewCheckCache :: vSphereCache where
  "NewCheckCache = \<lparr>datacenters = Map.empty, storagePods = [], asked = []\<rparr>"

section \<open>Operations\<close>

text \<open>The error of a datacenter that is not found names the ones that are known.\<close>

definition datacenter_error :: "inventory_api \<Rightarrow> string \<Rightarrow> go_error \<Rightarrow> go_error" where
  "datacenter_error api dcName err =
     (case err of
        NotFoundError _ \<Rightarrow>
          (case api_DatacenterList api of
             Inl _ \<Rightarrow> Errorf (''failed to access datacenter '' @ dcName @ '': '' @ error_text err)
           | Inr dcNames \<Rightarrow> Errorf (''failed to access datacenter '' @ dcName @ '': '' @ error_text err
                 @ ''.  Known datacenters: '' @ show_strings dcNames))
      | _ \<Rightarrow> Errorf (''failed to access datacenter '' @ dcName @ '': '' @ error_text err))"

definition getDatacenterLocked ::
  "inventory_api \<Rightarrow> string \<Rightarrow> vSphereCache \<Rightarrow> (go_error + cachedDatacenter) \<times> vSphereCache" where
  "getDatacenterLocked api dcName c =
     (case datacenters c dcName of
        Some cdc \<Rightarrow> (Inr cdc, c)
      | None \<Rightarrow>
        (let c = c\<lparr>asked := asked c @ [dcName]\<rparr> in
         case api_Datacenter api dcName of
           Inl err \<Rightarrow> (Inl (datacenter_error api dcName err), c)
         | Inr dcObject \<Rightarrow>
           (let cdc = \<lparr>cdc_dc = dcObject, dcPath = dc_Path dcObject, datastores = []\<rparr>
            in (Inr cdc, c\<lparr>datacenters := (datacenters c)(dcName \<mapsto> cdc)\<rparr>))))"

text \<open>The two nested loops that match datastores with their managed objects by name.\<close>

fun match_datastores ::
  "datastore_object list \<Rightarrow> datastore_mo list \<Rightarrow> cachedDatastore list \<times> go_error list" where
  "match_datastores [] mos = ([], [])"
| "match_datastores (ds # dss) mos =
     (let (cdss, errs) = match_datastores dss mos in
      case find (\<lambda>mo. ds_InfoName mo = obj_Name ds) mos of
        Some mo \<Rightarrow> (\<lparr>dsPath = obj_Path ds, cds_ds = ds, dsMo = mo\<rparr> # cdss, errs)
      | None \<Rightarrow> (cdss, Errorf (''cannot find managed object for datastore '' @ obj_Name ds) # errs))"

definition load_datastores :: "inventory_api \<Rightarrow> datacenter \<Rightarrow> go_error + cachedDatastore list" where
  "load_datastores api dc =
     (case api_DatastoreList api dc of
        Inl err \<Rightarrow> Inl err
      | Inr dss \<Rightarrow>
        (case api_DatastoreMos api dc (map obj_Ref dss) of
           Inl err \<Rightarrow> Inl err
         | Inr mos \<Rightarrow>
           (let (cdss, errs) = match_datastores dss mos in
            if errs \<noteq> [] then Inl (Aggregate errs) else Inr cdss)))"

definition getDatastoresLocked ::
  "inventory_api \<Rightarrow> string \<Rightarrow> vSphereCache \<Rightarrow> (go_error + cachedDatastore list) \<times> vSphereCache" where
  "getDatastoresLocked api dcName c =
     (case getDatacenterLocked api dcName c of
        (Inl err, c) \<Rightarrow> (Inl err, c)
      | (Inr cdc, c) \<Rightarrow>
        if datastores cdc \<noteq> [] then (Inr (datastores cdc), c)
        else (case load_datastores api (cdc_dc cdc) of
                Inl err \<Rightarrow> (Inl err, c)
              | Inr cdss \<Rightarrow>
                  (Inr cdss, c\<lparr>datacenters := (datacenters c)(dcName \<mapsto> cdc\<lparr>datastores := cdss\<rparr>)\<rparr>)))"

definition GetDatacenter ::
  "inventory_api \<Rightarrow> string \<Rightarrow> vSphereCache \<Rightarrow> (go_error + datacenter) \<times> vSphereCache" where
  "GetDatacenter api dcName c =
     (case getDatacenterLocked api dcName c of
        (Inl err, c) \<Rightarrow> (Inl err, c) | (Inr cdc, c) \<Rightarrow> (Inr (cdc_dc cdc), c))"

text \<open>The search of a method in the datastores of a datacenter, with its error.\<close>

definition search ::
  "inventory_api \<Rightarrow> string \<Rightarrow> (cachedDatastore \<Rightarrow> bool) \<Rightarrow> (cachedDatastore \<Rightarrow> 'r) \<Rightarrow> go_error
   \<Rightarrow> vSphereCache \<Rightarrow> (go_error + 'r) \<times> vSphereCache" where
  "search api dcName P f notFound c =
     (case getDatastoresLocked api dcName c of
        (Inl err, c) \<Rightarrow> (Inl err, c)
      | (Inr cdss, c) \<Rightarrow>
        (case find P cdss of Some cds \<Rightarrow> (Inr (f cds), c) | None \<Rightarrow> (Inl notFound, c)))"

definition named :: "string \<Rightarrow> cachedDatastore \<Rightarrow> bool" where
  "named dsName cds = (obj_Name (cds_ds cds) = dsName \<or> dsPath cds = dsName)"

definition GetDatastore ::
  "inventory_api \<Rightarrow> string \<times> string \<Rightarrow> vSphereCache \<Rightarrow> (go_error + datastore_object) \<times> vSphereCache" where
  "GetDatastore api k = (case k of (dcName, dsName) \<Rightarrow>
     search api dcName (named dsName) cds_ds
       (Errorf (''cannot find datastore '' @ dsName @ '' in datacenter '' @ dcName)))"

definition GetDatastoreByURL ::
  "inventory_api \<Rightarrow> string \<times> string \<Rightarrow> vSphereCache \<Rightarrow> (go_error + datastore_mo) \<times> vSphereCache" where
  "GetDatastoreByURL api k = (case k of (dcName, dsURL) \<Rightarrow>
     search api dcName (\<lambda>cds. ds_InfoUrl (dsMo cds) = dsURL) dsMo ErrDatastoreNotFound)"

definition GetDatastoreMo ::
  "inventory_api \<Rightarrow> string \<times> string \<Rightarrow> vSphereCache \<Rightarrow> (go_error + datastore_mo) \<times> vSphereCache" where
  "GetDatastoreMo api k = (case k of (dcName, dsName) \<Rightarrow>
     search api dcName (named dsName) dsMo
       (Errorf (''couldn't find Datastore named '' @ quote dsName @ '' in datacenter '' @ dcName)))"

definition GetDatastoreMoByReference ::
  "inventory_api \<Rightarrow> string \<times> string \<Rightarrow> vSphereCache \<Rightarrow> (go_error + datastore_mo) \<times> vSphereCache" where
  "GetDatastoreMoByReference api k = (case k of (dcName, ref) \<Rightarrow>
     search api dcName (\<lambda>cds. obj_Ref (cds_ds cds) = ref) dsMo
       (Errorf (''couldn't find Datastore with reference '' @ ref @ '' in datacenter '' @ dcName)))"

text \<open>Missing permissions on datastore clusters are no error, and are not cached.\<close>

definition GetStoragePods ::
  "inventory_api \<Rightarrow> vSphereCache \<Rightarrow> (go_error + storage_pod list) \<times> vSphereCache" where
  "GetStoragePods api c =
     (if storagePods c \<noteq> [] then (Inr (storagePods c), c)
      else case api_PodView api of
        Some err \<Rightarrow> (Inr [], c)
      | None \<Rightarrow>
        (case api_Pods api of
           Inl err \<Rightarrow> (Inr [], c)
         | Inr content \<Rightarrow> (Inr content, c\<lparr>storagePods := content\<rparr>)))"

section \<open>A good cache\<close>

text \<open>Every entry is what vCenter answers.\<close>

definition cache_good :: "inventory_api \<Rightarrow> vSphereCache \<Rightarrow> bool" where
  "cache_good api c \<longleftrightarrow>
     (\<forall>name cdc. datacenters c name = Some cdc \<longrightarrow>
        api_Datacenter api name = Inr (cdc_dc cdc) \<and> dcPath cdc = dc_Path (cdc_dc cdc) \<and>
        (datastores cdc \<noteq> [] \<longrightarrow> load_datastores api (cdc_dc cdc) = Inr (datastores cdc))) \<and>
     (storagePods c \<noteq> [] \<longrightarrow> api_PodView api = None \<and> api_Pods api = Inr (storagePods c))"

lemma cache_good_New [simp]: "cache_good api NewCheckCache"
  by (simp add: cache_good_def NewCheckCache_def)

definition direct_datacenter :: "inventory_api \<Rightarrow> string \<Rightarrow> go_error + datacenter" where
  "direct_datacenter api dcName =
     (case api_Datacenter api dcName of Inl err \<Rightarrow> Inl (datacenter_error api dcName err) | Inr dc \<Rightarrow> Inr dc)"

definition direct_datastores :: "inventory_api \<Rightarrow> string \<Rightarrow> go_error + cachedDatastore list" where
  "direct_datastores api dcName =
     (case direct_datacenter api dcName of Inl err \<Rightarrow> Inl err | Inr dc \<Rightarrow> load_datastores api dc)"

definition direct_search ::
  "inventory_api \<Rightarrow> string \<Rightarrow> (cachedDatastore \<Rightarrow> bool) \<Rightarrow> (cachedDatastore \<Rightarrow> 'r) \<Rightarrow> go_error \<Rightarrow> go_error + 'r" where
  "direct_search api dcName P f notFound =
     (case direct_datastores api dcName of
        Inl err \<Rightarrow> Inl err
      | Inr cdss \<Rightarrow> (case find P cdss of Some cds \<Rightarrow> Inr (f cds) | None \<Rightarrow> Inl notFound))"

definition direct_pods :: "inventory_api \<Rightarrow> go_error + storage_pod list" where
  "direct_pods api =
     (if api_PodView api = None then (case api_Pods api of Inl _ \<Rightarrow> Inr [] | Inr ps \<Rightarrow> Inr ps) else Inr [])"

lemma getDatacenterLocked_good:
  assumes "cache_good api c" "getDatacenterLocked api dcName c = (r, c')"
  shows "cache_good api c'" "r = Inl e \<Longrightarrow> direct_datacenter api dcName = Inl e"
    "r = Inr cdc \<Longrightarrow> direct_datacenter api dcName = Inr (cdc_dc cdc) \<and> datacenters c' dcName = Some cdc"
  using assms
  by (auto simp: getDatacenterLocked_def cache_good_def direct_datacenter_def Let_def
      split: option.splits sum.splits if_splits)

lemma getDatastoresLocked_good:
  assumes "cache_good api c"
  shows "fst (getDatastoresLocked api dcName c) = direct_datastores api dcName"
    "cache_good api (snd (getDatastoresLocked api dcName c))"
proof -
  obtain r c' where g: "getDatacenterLocked api dcName c = (r, c')"
    by (cases "getDatacenterLocked api dcName c") auto
  note G = getDatacenterLocked_good [OF assms g]
  have "fst (getDatastoresLocked api dcName c) = direct_datastores api dcName \<and>
    cache_good api (snd (getDatastoresLocked api dcName c))"
  proof (cases r)
    case (Inl e)
    with G g show ?thesis by (simp add: getDatastoresLocked_def direct_datastores_def)
  next
    case (Inr cdc)
    note D = G(3) [OF Inr]
    show ?thesis
    proof (cases "datastores cdc = []")
      case True
      then show ?thesis
        using G(1) D g Inr
        by (auto simp: getDatastoresLocked_def direct_datastores_def cache_good_def split: sum.split)
    next
      case False
      then have "load_datastores api (cdc_dc cdc) = Inr (datastores cdc)"
        using G(1) D by (auto simp: cache_good_def)
      then show ?thesis
        using False G(1) D g Inr by (simp add: getDatastoresLocked_def direct_datastores_def)
    qed
  qed
  then show "fst (getDatastoresLocked api dcName c) = direct_datastores api dcName"
    "cache_good api (snd (getDatastoresLocked api dcName c))" by simp_all
qed

lemma search_good:
  assumes "cache_good api c"
  shows "fst (search api dcName P f nf c) = direct_search api dcName P f nf"
    "cache_good api (snd (search api dcName P f nf c))"
  using getDatastoresLocked_good [OF assms, of dcName]
  by (cases "getDatastoresLocked api dcName c";
      auto simp: search_def direct_search_def split: sum.split option.split)+

section \<open>The methods keep the contract\<close>

lemma GetDatacenter_good:
  assumes "cache_good api c"
  shows "fst (GetDatacenter api k c) = direct_datacenter api k" "cache_good api (snd (GetDatacenter api k c))"
proof -
  obtain r c' where g: "getDatacenterLocked api k c = (r, c')" by (cases "getDatacenterLocked api k c") auto
  note G = getDatacenterLocked_good [OF assms g]
  show "fst (GetDatacenter api k c) = direct_datacenter api k" "cache_good api (snd (GetDatacenter api k c))"
    using G by (cases r; simp add: GetDatacenter_def g)+
qed

interpretation dc: cached_lookup "GetDatacenter api" "direct_datacenter api" "cache_good api" for api
  by unfold_locales (auto simp: GetDatacenter_good)

definition direct_ds :: "inventory_api \<Rightarrow> string \<times> string \<Rightarrow> go_error + datastore_object" where
  "direct_ds api k = (case k of (dcName, dsName) \<Rightarrow> direct_search api dcName (named dsName) cds_ds
     (Errorf (''cannot find datastore '' @ dsName @ '' in datacenter '' @ dcName)))"

definition direct_url :: "inventory_api \<Rightarrow> string \<times> string \<Rightarrow> go_error + datastore_mo" where
  "direct_url api k = (case k of (dcName, dsURL) \<Rightarrow>
     direct_search api dcName (\<lambda>cds. ds_InfoUrl (dsMo cds) = dsURL) dsMo ErrDatastoreNotFound)"

definition direct_mo :: "inventory_api \<Rightarrow> string \<times> string \<Rightarrow> go_error + datastore_mo" where
  "direct_mo api k = (case k of (dcName, dsName) \<Rightarrow> direct_search api dcName (named dsName) dsMo
     (Errorf (''couldn't find Datastore named '' @ quote dsName @ '' in datacenter '' @ dcName)))"

definition direct_ref :: "inventory_api \<Rightarrow> string \<times> string \<Rightarrow> go_error + datastore_mo" where
  "direct_ref api k = (case k of (dcName, ref) \<Rightarrow>
     direct_search api dcName (\<lambda>cds. obj_Ref (cds_ds cds) = ref) dsMo
       (Errorf (''couldn't find Datastore with reference '' @ ref @ '' in datacenter '' @ dcName)))"

interpretation ds: cached_lookup "GetDatastore api" "direct_ds api" "cache_good api" for api
  by unfold_locales (auto simp: GetDatastore_def direct_ds_def search_good split: prod.splits)

interpretation url: cached_lookup "GetDatastoreByURL api" "direct_url api" "cache_good api" for api
  by unfold_locales (auto simp: GetDatastoreByURL_def direct_url_def search_good split: prod.splits)

interpretation mo: cached_lookup "GetDatastoreMo api" "direct_mo api" "cache_good api" for api
  by unfold_locales (auto simp: GetDatastoreMo_def direct_mo_def search_good split: prod.splits)

interpretation ref: cached_lookup "GetDatastoreMoByReference api" "direct_ref api" "cache_good api" for api
  by unfold_locales (auto simp: GetDatastoreMoByReference_def direct_ref_def search_good split: prod.splits)

lemma GetStoragePods_good:
  assumes "cache_good api c"
  shows "fst (GetStoragePods api c) = direct_pods api" "cache_good api (snd (GetStoragePods api c))"
  using assms
  by (auto simp: GetStoragePods_def direct_pods_def cache_good_def split: option.split sum.split)

text \<open>
  The accessors of pkg/check/util.go. They only pick the cache of a vCenter, so the checks that are
  modelled with a function from keys to answers (\<open>ds_env\<close>, \<open>inventory\<close>) see what a good cache gives.
\<close>

definition getDatacenter ::
  "inventory_api \<Rightarrow> string \<Rightarrow> vSphereCache \<Rightarrow> (go_error + datacenter) \<times> vSphereCache" where
  [simp]: "getDatacenter api dcName = GetDatacenter api dcName"

definition getDataStoreMoByName ::
  "inventory_api \<Rightarrow> string \<Rightarrow> string \<Rightarrow> vSphereCache \<Rightarrow> (go_error + datastore_mo) \<times> vSphereCache" where
  "getDataStoreMoByName api datastoreName dcName = GetDatastoreMo api (dcName, datastoreName)"

definition getDatastore ::
  "inventory_api \<Rightarrow> string \<Rightarrow> string \<Rightarrow> vSphereCache \<Rightarrow> (go_error + datastore_mo) \<times> vSphereCache" where
  "getDatastore api dcName ref = GetDatastoreMoByReference api (dcName, ref)"

lemma accessors_functional:
  assumes "cache_good api c"
  shows "fst (getDataStoreMoByName api name dc c) = direct_mo api (dc, name)"
    "fst (getDatastore api dc ref c) = direct_ref api (dc, ref)"
    "cache_good api (snd (getDataStoreMoByName api name dc c))" "cache_good api (snd (getDatastore api dc ref c))"
  using mo.get_direct ref.get_direct mo.get_good ref.get_good assms
  by (simp_all add: getDataStoreMoByName_def getDatastore_def)

section \<open>All methods together\<close>

datatype cache_op =
    OpDatacenter string
  | OpDatastore "string \<times> string"
  | OpByURL "string \<times> string"
  | OpMo "string \<times> string"
  | OpByReference "string \<times> string"
  | OpPods

datatype cache_answer =
    ADatacenter "go_error + datacenter"
  | ADatastore "go_error + datastore_object"
  | AMo "go_error + datastore_mo"
  | APods "go_error + storage_pod list"

fun cache_do :: "inventory_api \<Rightarrow> cache_op \<Rightarrow> vSphereCache \<Rightarrow> cache_answer \<times> vSphereCache" where
  "cache_do api (OpDatacenter k) c = apfst ADatacenter (GetDatacenter api k c)"
| "cache_do api (OpDatastore k) c = apfst ADatastore (GetDatastore api k c)"
| "cache_do api (OpByURL k) c = apfst AMo (GetDatastoreByURL api k c)"
| "cache_do api (OpMo k) c = apfst AMo (GetDatastoreMo api k c)"
| "cache_do api (OpByReference k) c = apfst AMo (GetDatastoreMoByReference api k c)"
| "cache_do api OpPods c = apfst APods (GetStoragePods api c)"

fun direct_answer :: "inventory_api \<Rightarrow> cache_op \<Rightarrow> cache_answer" where
  "direct_answer api (OpDatacenter k) = ADatacenter (direct_datacenter api k)"
| "direct_answer api (OpDatastore k) = ADatastore (direct_ds api k)"
| "direct_answer api (OpByURL k) = AMo (direct_url api k)"
| "direct_answer api (OpMo k) = AMo (direct_mo api k)"
| "direct_answer api (OpByReference k) = AMo (direct_ref api k)"
| "direct_answer api OpPods = APods (direct_pods api)"

interpretation all: cached_lookup "cache_do api" "direct_answer api" "cache_good api" for api
proof unfold_locales
  fix c k
  assume c: "cache_good api c"
  show "fst (cache_do api k c) = direct_answer api k"
    using c by (cases k) (simp_all add: dc.get_direct ds.get_direct url.get_direct mo.get_direct
        ref.get_direct GetStoragePods_good)
  show "cache_good api (snd (cache_do api k c))"
    using c by (cases k) (simp_all add: dc.get_good ds.get_good url.get_good mo.get_good
        ref.get_good GetStoragePods_good)
qed

text \<open>The answers to a sequence of calls, from the empty cache of a round.\<close>

fun cache_run :: "inventory_api \<Rightarrow> cache_op list \<Rightarrow> vSphereCache \<Rightarrow> cache_answer list" where
  "cache_run api [] c = []"
| "cache_run api (x # ops) c =
     fst (cache_do api x c) # cache_run api ops (snd (cache_do api x c))"

lemma cache_run_gets: "cache_run api ops c = fst (all.gets api ops c)"
  by (induction ops arbitrary: c) (simp_all add: case_prod_beta Let_def)

text \<open>
  C30: The cache is transparent: whatever calls the checks of a round make, in whatever order their
  locks serialize them, each is answered as if vCenter had been asked directly, errors included.
\<close>

theorem cache_transparent:
  "cache_run api ops NewCheckCache = map (direct_answer api) ops"
  unfolding cache_run_gets using all.gets_transparent [OF cache_good_New] by blast

section \<open>Each datacenter is loaded once\<close>

text \<open>The datacenter a call asks for, and whether it makes vCenter load it.\<close>

fun op_datacenter :: "cache_op \<Rightarrow> string option" where
  "op_datacenter (OpDatacenter k) = Some k"
| "op_datacenter (OpDatastore k) = Some (fst k)"
| "op_datacenter (OpByURL k) = Some (fst k)"
| "op_datacenter (OpMo k) = Some (fst k)"
| "op_datacenter (OpByReference k) = Some (fst k)"
| "op_datacenter OpPods = None"

definition dc_cached :: "string \<Rightarrow> vSphereCache \<Rightarrow> bool" where
  "dc_cached name c \<longleftrightarrow> datacenters c name \<noteq> None"

text \<open>The cache after a sequence of calls.\<close>

definition cache_after :: "inventory_api \<Rightarrow> cache_op list \<Rightarrow> vSphereCache \<Rightarrow> vSphereCache" where
  "cache_after api ops c = fold (\<lambda>x c. snd (cache_do api x c)) ops c"

text \<open>What one call adds to the calls made, and to the datacenters known.\<close>

definition asks :: "vSphereCache \<Rightarrow> string option \<Rightarrow> string list" where
  "asks c k = (case k of None \<Rightarrow> [] | Some n \<Rightarrow> if dc_cached n c then [] else [n])"

definition dc_exists :: "inventory_api \<Rightarrow> string \<Rightarrow> bool" where
  "dc_exists api name = (case api_Datacenter api name of Inl _ \<Rightarrow> False | Inr _ \<Rightarrow> True)"

lemma getDatacenterLocked_asks:
  "asked (snd (getDatacenterLocked api n c)) = asked c @ asks c (Some n)"
  "dc_cached name (snd (getDatacenterLocked api n c)) \<longleftrightarrow> dc_cached name c \<or> n = name \<and> dc_exists api name"
  by (auto simp: asks_def dc_exists_def dc_cached_def getDatacenterLocked_def Let_def
      split: option.splits sum.splits)

lemma getDatacenterLocked_cached:
  "getDatacenterLocked api n c = (Inr cdc, c') \<Longrightarrow> dc_cached n c'"
  by (auto simp: dc_cached_def getDatacenterLocked_def Let_def split: option.splits sum.splits)

lemma getDatastoresLocked_asks:
  "asked (snd (getDatastoresLocked api n c)) = asked c @ asks c (Some n)"
  "dc_cached name (snd (getDatastoresLocked api n c)) \<longleftrightarrow> dc_cached name c \<or> n = name \<and> dc_exists api name"
proof -
  obtain r c' where g: "getDatacenterLocked api n c = (r, c')" by (cases "getDatacenterLocked api n c") auto
  have "asked (snd (getDatastoresLocked api n c)) = asked c'"
    "dc_cached name (snd (getDatastoresLocked api n c)) \<longleftrightarrow> dc_cached name c'"
    using getDatacenterLocked_cached [of api n c _ c'] g
    by (auto simp: getDatastoresLocked_def dc_cached_def split: sum.splits)
  then show "asked (snd (getDatastoresLocked api n c)) = asked c @ asks c (Some n)"
    "dc_cached name (snd (getDatastoresLocked api n c)) \<longleftrightarrow> dc_cached name c \<or> n = name \<and> dc_exists api name"
    using getDatacenterLocked_asks [where api = api and n = n and c = c] g by auto
qed

lemma search_state: "snd (search api n P f nf c) = snd (getDatastoresLocked api n c)"
  by (auto simp: search_def split: prod.splits sum.splits option.splits)

lemma GetDatacenter_state: "snd (GetDatacenter api n c) = snd (getDatacenterLocked api n c)"
  by (auto simp: GetDatacenter_def split: prod.splits sum.splits)

lemma GetStoragePods_state:
  "asked (snd (GetStoragePods api c)) = asked c" "dc_cached name (snd (GetStoragePods api c)) \<longleftrightarrow> dc_cached name c"
  by (auto simp: GetStoragePods_def dc_cached_def split: option.splits sum.splits)

lemma cache_do_asks:
  "asked (snd (cache_do api x c)) = asked c @ asks c (op_datacenter x)"
  "dc_cached name (snd (cache_do api x c)) \<longleftrightarrow>
     dc_cached name c \<or> op_datacenter x = Some name \<and> dc_exists api name"
proof -
  note state = search_state GetDatacenter_state GetDatastore_def GetDatastoreByURL_def GetDatastoreMo_def
    GetDatastoreMoByReference_def
  show "asked (snd (cache_do api x c)) = asked c @ asks c (op_datacenter x)"
    by (cases x) (auto simp: state getDatacenterLocked_asks getDatastoresLocked_asks GetStoragePods_state
        asks_def [of c None] split: prod.split)
  show "dc_cached name (snd (cache_do api x c)) \<longleftrightarrow>
      dc_cached name c \<or> op_datacenter x = Some name \<and> dc_exists api name"
    by (cases x) (auto simp: state getDatacenterLocked_asks getDatastoresLocked_asks GetStoragePods_state
        split: prod.split)
qed

lemma cache_after_asks:
  "count_list (asked (cache_after api ops c)) name = count_list (asked c) name
     + (if dc_cached name c then 0
        else if dc_exists api name then (if Some name \<in> op_datacenter ` set ops then 1 else 0)
        else length (filter (\<lambda>x. op_datacenter x = Some name) ops))"
  unfolding cache_after_def
proof (induction ops arbitrary: c)
  case (Cons x ops)
  show ?case
    unfolding fold_Cons comp_def Cons.IH
    by (cases "op_datacenter x") (auto simp: cache_do_asks asks_def)
qed simp

text \<open>
  C31: In a round, vCenter is asked for an existing datacenter exactly once if any check needs it or
  its datastores, however many do, and not at all otherwise; a datacenter that cannot be loaded is
  not remembered, so vCenter is asked again by every check that needs it.
\<close>

theorem datacenter_loaded_once:
  "count_list (asked (cache_after api ops NewCheckCache)) name =
     (case api_Datacenter api name of
        Inr d \<Rightarrow> (if Some name \<in> op_datacenter ` set ops then 1 else 0)
      | Inl err \<Rightarrow> length (filter (\<lambda>x. op_datacenter x = Some name) ops))"
  unfolding cache_after_asks
  by (auto simp: NewCheckCache_def dc_cached_def dc_exists_def split: sum.split)

definition one_datacenter :: inventory_api where
  "one_datacenter = \<lparr>api_Datacenter = (\<lambda>n. if n = ''dc'' then Inr \<lparr>dc_Ref = ''d-1'', dc_Path = ''/dc''\<rparr>
       else Inl (NotFoundError ''no such datacenter'')),
     api_DatacenterList = Inr [''dc''], api_DatastoreList = (\<lambda>_. Inr []), api_DatastoreMos = (\<lambda>_ _. Inr []),
     api_PodView = None, api_Pods = Inr []\<rparr>"

theorem datacenter_loaded_once_witness:
  "count_list (asked (cache_after one_datacenter
     [OpDatacenter ''dc'', OpMo (''dc'', ''ds''), OpDatacenter ''dx'', OpDatacenter ''dc'', OpByURL (''dx'', ''u'')]
     NewCheckCache)) ''dc'' = 1 \<and>
   count_list (asked (cache_after one_datacenter
     [OpDatacenter ''dc'', OpMo (''dc'', ''ds''), OpDatacenter ''dx'', OpDatacenter ''dc'', OpByURL (''dx'', ''u'')]
     NewCheckCache)) ''dx'' = 2"
  unfolding datacenter_loaded_once by (simp add: one_datacenter_def)

end
