(* ===== verification/ClusterChecks.thy ===== *)
theory ClusterChecks
  imports Cache NodeChecks
begin

text \<open>
  The remaining checks of the cluster: \<^verbatim>\<open>CheckFolderPermissions\<close> of pkg/check/folder.go,
  \<^verbatim>\<open>CheckTaskPermissions\<close> of tasks.go, \<^verbatim>\<open>CountPVTypes\<close> of count_pv_types.go and
  \<^verbatim>\<open>CollectClusterInfo\<close> of info.go. The folder check goes through the cache of each vCenter
  (\<open>Cache\<close>), so its state is the caches, by the name of their vCenter; that it does what a check
  without caches does is shown with the contract of the cache.
\<close>

section \<open>Folders\<close>

text \<open>\<^verbatim>\<open>path.Base\<close>, and the \<^verbatim>\<open>Name()\<close> of a govmomi object, which is the base of its path.\<close>

definition path_base :: "string \<Rightarrow> string" where
  "path_base p =
     (if p = [] then ''.''
      else let stripped = rev (dropWhile (\<lambda>c. c = CHR ''/'') (rev p));
               base = rev (takeWhile (\<lambda>c. c \<noteq> CHR ''/'') (rev stripped))
           in if base = [] then ''/'' else base)"

definition object_name :: "string \<Rightarrow> string" where
  "object_name inventoryPath = (if inventoryPath = [] then [] else path_base inventoryPath)"

datatype browse_result = SearchResults | ArrayOfSearchResults nat | OtherResult string

record folder_env =
  fo_api :: "vcenter \<Rightarrow> inventory_api"
  fo_Browser :: "vcenter \<Rightarrow> datastore_object \<Rightarrow> go_error option"
  fo_Search :: "vcenter \<Rightarrow> datastore_object \<Rightarrow> string \<Rightarrow> go_error option"
  fo_Wait :: "vcenter \<Rightarrow> datastore_object \<Rightarrow> string \<Rightarrow> go_error + browse_result"

type_synonym caches = "string \<Rightarrow> vSphereCache"

fun IsFileNotFound :: "go_error \<Rightarrow> bool" where
  "IsFileNotFound (FileNotFoundFault s) = True"
| "IsFileNotFound e = False"

text \<open>A search that does not start is no error, whatever it failed for.\<close>

definition listDirectory ::
  "folder_env \<Rightarrow> vcenter \<Rightarrow> datastore_object \<Rightarrow> string \<Rightarrow> bool \<Rightarrow> go_error option" where
  "listDirectory env vc ds p tolerateNotFound =
     (case fo_Browser env vc ds of
        Some err \<Rightarrow> Some (Errorf (''failed to create browser for datastore '' @ obj_Name ds @ '': '' @ error_text err))
      | None \<Rightarrow>
        (case fo_Search env vc ds p of
           Some err \<Rightarrow> if tolerateNotFound \<and> IsFileNotFound err then None else None
         | None \<Rightarrow>
           (case fo_Wait env vc ds p of
              Inl err \<Rightarrow>
                if tolerateNotFound \<and> IsFileNotFound err then None
                else Some (Errorf (''failed to list datastore '' @ obj_Name ds @ '' at path '' @ p @ '': ''
                             @ error_text err @ '' ''))
            | Inr SearchResults \<Rightarrow> None
            | Inr (ArrayOfSearchResults n) \<Rightarrow> None
            | Inr (OtherResult t) \<Rightarrow> Some (Errorf (''uknown data received from datastore '' @ obj_Name ds
                                      @ '' browser: '' @ t)))))"

text \<open>The two calls of \<^verbatim>\<open>listDirectory\<close> for the datastore of a failure domain.\<close>

definition list_both :: "folder_env \<Rightarrow> vcenter \<Rightarrow> datastore_object \<Rightarrow> go_error option" where
  "list_both env vc ds =
     (case listDirectory env vc ds ''/'' False of
        Some err \<Rightarrow> Some err
      | None \<Rightarrow> (case listDirectory env vc ds ''/kubevols'' True of Some err \<Rightarrow> Some err | None \<Rightarrow> None))"

definition getDataStoreByName ::
  "inventory_api \<Rightarrow> string \<Rightarrow> datacenter \<Rightarrow> vSphereCache \<Rightarrow> (go_error + datastore_object) \<times> vSphereCache" where
  [simp]: "getDataStoreByName api dsName dc = GetDatastore api (object_name (dc_Path dc), dsName)"

fun folder_loop ::
  "folder_env \<Rightarrow> check_context \<Rightarrow> failure_domain list \<Rightarrow> caches \<Rightarrow> go_error option \<times> caches" where
  "folder_loop env ctx [] cs = (None, cs)"
| "folder_loop env ctx (fd # fds) cs =
     (case map_of (VCenters ctx) (Server fd) of
        None \<Rightarrow> (Some (Errorf (''unable to check folder permissions for failure domain '' @ fd_Name fd
                  @ '': vCenter '' @ Server fd @ '' no found'')), cs)
      | Some vc \<Rightarrow>
        (let api = fo_api env vc; (r, c) = getDatacenter api (Datacenter (Topology fd)) (cs (VCenterName vc)) in
         case r of
           Inl err \<Rightarrow> (Some (Errorf (''unable to check folder permissions for datacenter ''
                        @ Datacenter (Topology fd) @ '': '' @ error_text err)), cs(VCenterName vc := c))
         | Inr dc \<Rightarrow>
           (let (r, c) = getDataStoreByName api (Datastore (Topology fd)) dc c;
                cs = cs(VCenterName vc := c) in
            case r of
              Inl err \<Rightarrow> (Some (Errorf (''failed to access datastore '' @ Datastore (Topology fd)
                           @ '': '' @ error_text err)), cs)
            | Inr ds \<Rightarrow>
              (case list_both env vc ds of
                 Some err \<Rightarrow> (Some err, cs)
               | None \<Rightarrow> folder_loop env ctx fds cs))))"

definition CheckFolderPermissions ::
  "folder_env \<Rightarrow> check_context \<Rightarrow> platform_spec \<Rightarrow> caches \<Rightarrow> go_error option \<times> caches" where
  "CheckFolderPermissions env ctx spec cs = folder_loop env ctx (FailureDomains spec) cs"

section \<open>Tasks\<close>

record task_env =
  ta_CreateTaskView :: "vcenter \<Rightarrow> go_error option"
  ta_Collect :: "vcenter \<Rightarrow> go_error + nat list"

fun task_loop :: "task_env \<Rightarrow> vcenter list \<Rightarrow> go_error option" where
  "task_loop env [] = None"
| "task_loop env (vc # vcs) =
     (case ta_CreateTaskView env vc of
        Some err \<Rightarrow> Some (Errorf (''error creating task view: '' @ error_text err))
      | None \<Rightarrow>
        (case ta_Collect env vc of
           Inl err \<Rightarrow> Some (Errorf (''error listing recent tasks: '' @ error_text err))
         | Inr pages \<Rightarrow> task_loop env vcs))"

definition CheckTaskPermissions :: "task_env \<Rightarrow> check_context \<Rightarrow> go_error option" where
  "CheckTaskPermissions env ctx = task_loop env (map snd (VCenters ctx))"

section \<open>Volumes\<close>

text \<open>
  A persistent volume: the driver and handle of its CSI source, and the number of terms of
  \<^verbatim>\<open>nodeAffinity.required\<close>.
\<close>

record persistent_volume =
  pv_CSI :: "(string \<times> string) option"
  pv_Terms :: "nat option"

definition vSphereCSIDdriver :: string where "vSphereCSIDdriver = ''csi.vsphere.vmware.com''"

definition rwxVolumeRegx :: "string \<Rightarrow> bool" where
  "rwxVolumeRegx handle = contains_substring ''file:'' handle"

fun volume_loop :: "persistent_volume list \<Rightarrow> nat \<times> nat \<Rightarrow> nat \<times> nat" where
  "volume_loop [] acc = acc"
| "volume_loop (pv # pvs) (rwxCount, zonalPVCount) =
     (case pv_CSI pv of
        None \<Rightarrow> volume_loop pvs (rwxCount, zonalPVCount)
      | Some (driver, volumeHandle) \<Rightarrow>
        if driver = vSphereCSIDdriver then
          volume_loop pvs
            (if rwxVolumeRegx volumeHandle then rwxCount + 1 else rwxCount,
             case pv_Terms pv of
               None \<Rightarrow> zonalPVCount
             | Some terms \<Rightarrow> if terms > 0 then zonalPVCount + 1 else zonalPVCount)
        else volume_loop pvs (rwxCount, zonalPVCount))"

definition countVolumeTypes :: "go_error + persistent_volume list \<Rightarrow> go_error + nat \<times> nat" where
  "countVolumeTypes answer =
     (case answer of Inl err \<Rightarrow> Inl err | Inr pvs \<Rightarrow> Inr (volume_loop pvs (0, 0)))"

definition CountPVTypes :: "go_error + persistent_volume list \<Rightarrow> go_error option \<times> gauge list" where
  "CountPVTypes answer =
     (case countVolumeTypes answer of
        Inl err \<Rightarrow> (Some err, [])
      | Inr (rwxPVCount, zonalPVCount) \<Rightarrow>
          (None, [\<lparr>g_name = ''vsphere_rwx_volumes_total'', g_labels = [], g_value = rwxPVCount\<rparr>,
                  \<lparr>g_name = ''vsphere_zonal_volumes_total'', g_labels = [], g_value = zonalPVCount\<rparr>]))"

section \<open>vCenter information\<close>

record about_info =
  about_Version :: string
  about_ApiVersion :: string
  about_Build :: string
  about_InstanceUuid :: string

fun vcenter_info_loop ::
  "(vcenter \<Rightarrow> about_info) \<Rightarrow> vcenter list \<Rightarrow> info_op list \<times> gauge list" where
  "vcenter_info_loop about [] = ([], [])"
| "vcenter_info_loop about (vc # vcs) =
     (let a = about vc; (ops, gs) = vcenter_info_loop about vcs in
      (OpSetVCenter (VCenterName vc) (about_Version a) (about_ApiVersion a) # ops,
       \<lparr>g_name = ''vsphere_vcenter_info'',
         g_labels = [about_Version a, about_ApiVersion a, about_InstanceUuid a, about_Build a],
         g_value = 1\<rparr> # gs))"

definition collectVCenterInfo ::
  "(vcenter \<Rightarrow> about_info) \<Rightarrow> check_context \<Rightarrow> info_op list \<times> gauge list" where
  "collectVCenterInfo about ctx = vcenter_info_loop about (map snd (VCenters ctx))"

text \<open>The metric is reset first, so the gauges are all there are after the call.\<close>

definition CollectClusterInfo ::
  "(vcenter \<Rightarrow> about_info) \<Rightarrow> check_context \<Rightarrow> node_call \<times> gauge list" where
  "CollectClusterInfo about ctx =
     (let (ops, gs) = collectVCenterInfo about ctx in ((None, ops), gs))"

section \<open>The folder check through caches\<close>

text \<open>The check as it would be without caches.\<close>

fun folder_direct :: "folder_env \<Rightarrow> check_context \<Rightarrow> failure_domain list \<Rightarrow> go_error option" where
  "folder_direct env ctx [] = None"
| "folder_direct env ctx (fd # fds) =
     (case map_of (VCenters ctx) (Server fd) of
        None \<Rightarrow> Some (Errorf (''unable to check folder permissions for failure domain '' @ fd_Name fd
                  @ '': vCenter '' @ Server fd @ '' no found''))
      | Some vc \<Rightarrow>
        (case direct_datacenter (fo_api env vc) (Datacenter (Topology fd)) of
           Inl err \<Rightarrow> Some (Errorf (''unable to check folder permissions for datacenter ''
                        @ Datacenter (Topology fd) @ '': '' @ error_text err))
         | Inr dc \<Rightarrow>
           (case direct_ds (fo_api env vc) (object_name (dc_Path dc), Datastore (Topology fd)) of
              Inl err \<Rightarrow> Some (Errorf (''failed to access datastore '' @ Datastore (Topology fd)
                           @ '': '' @ error_text err))
            | Inr ds \<Rightarrow>
              (case list_both env vc ds of Some err \<Rightarrow> Some err | None \<Rightarrow> folder_direct env ctx fds))))"

definition caches_good :: "folder_env \<Rightarrow> check_context \<Rightarrow> caches \<Rightarrow> bool" where
  "caches_good env ctx cs \<longleftrightarrow>
     (\<forall>(name, vc) \<in> set (VCenters ctx). cache_good (fo_api env vc) (cs (VCenterName vc)))"

lemma caches_good_New: "caches_good env ctx (\<lambda>_. NewCheckCache)"
  by (simp add: caches_good_def)

lemma caches_goodD:
  "caches_good env ctx cs \<Longrightarrow> (name, vc) \<in> set (VCenters ctx) \<Longrightarrow> cache_good (fo_api env vc) (cs (VCenterName vc))"
  by (auto simp: caches_good_def)

lemma wf_context_same:
  assumes "wf_context ctx" "(name, vc) \<in> set (VCenters ctx)" "(name', vc') \<in> set (VCenters ctx)"
    and "VCenterName vc = VCenterName vc'"
  shows "vc = vc'"
proof -
  have named: "VCenterName v = n" if "(n, v) \<in> set (VCenters ctx)" for n v
    using assms(1) that by (auto simp: wf_context_def)
  have "name = name'" using named [OF assms(2)] named [OF assms(3)] assms(4) by (simp only:)
  moreover have "distinct (map fst (VCenters ctx))" using assms(1) by (simp add: wf_context_def)
  ultimately show ?thesis using assms(2,3) eq_key_imp_eq_value by fast
qed

lemma caches_good_update:
  assumes "wf_context ctx" "caches_good env ctx cs" "(name, vc) \<in> set (VCenters ctx)"
    and "cache_good (fo_api env vc) c"
  shows "caches_good env ctx (cs(VCenterName vc := c))"
  unfolding caches_good_def
proof clarify
  fix name' vc' assume vc': "(name', vc') \<in> set (VCenters ctx)"
  show "cache_good (fo_api env vc') ((cs(VCenterName vc := c)) (VCenterName vc'))"
  proof (cases "VCenterName vc = VCenterName vc'")
    case True
    then show ?thesis using wf_context_same [OF assms(1,3) vc' True] assms(4) by simp
  next
    case False
    then show ?thesis using caches_goodD [OF assms(2) vc'] by simp
  qed
qed

lemma folder_loop_refines:
  assumes "wf_context ctx" "caches_good env ctx cs"
  shows "fst (folder_loop env ctx fds cs) = folder_direct env ctx fds \<and>
    caches_good env ctx (snd (folder_loop env ctx fds cs))"
  using assms(2)
proof (induction fds arbitrary: cs)
  case (Cons fd fds)
  show ?case
  proof (cases "map_of (VCenters ctx) (Server fd)")
    case None
    then show ?thesis using Cons.prems by simp
  next
    case (Some vc)
    then have vc: "(Server fd, vc) \<in> set (VCenters ctx)" by (rule map_of_SomeD)
    let ?api = "fo_api env vc" and ?dc = "Datacenter (Topology fd)"
    obtain r c where d: "GetDatacenter ?api ?dc (cs (VCenterName vc)) = (r, c)" by fastforce
    have r: "r = direct_datacenter ?api ?dc" and c: "cache_good ?api c"
      using dc.get_direct [OF caches_goodD [OF Cons.prems vc], of ?dc]
        dc.get_good [OF caches_goodD [OF Cons.prems vc], of ?dc] d by simp_all
    show ?thesis
    proof (cases r)
      case (Inl err)
      then show ?thesis
        using Some d r caches_good_update [OF assms(1) Cons.prems vc c] by (simp add: fun_upd_def)
    next
      case (Inr dco)
      then have dco: "direct_datacenter ?api ?dc = Inr dco" "GetDatacenter ?api ?dc (cs (VCenterName vc)) = (Inr dco, c)"
        using r d by simp_all
      let ?k = "(object_name (dc_Path dco), Datastore (Topology fd))"
      obtain r' c' where g: "GetDatastore ?api ?k c = (r', c')" by fastforce
      have r': "r' = direct_ds ?api ?k" and c': "cache_good ?api c'"
        using ds.get_direct [OF c, of ?k] ds.get_good [OF c, of ?k] g by simp_all
      note good = caches_good_update [OF assms(1) Cons.prems vc c']
      show ?thesis
      proof (cases r')
        case (Inl err)
        then have "direct_ds ?api ?k = Inl err" "GetDatastore ?api ?k c = (Inl err, c')" using g r' by simp_all
        then show ?thesis using Some dco good by (simp add: Let_def fun_upd_def)
      next
        case (Inr dso)
        then have "direct_ds ?api ?k = Inr dso" "GetDatastore ?api ?k c = (Inr dso, c')" using g r' by simp_all
        then show ?thesis using Some dco good Cons.IH [OF good]
          by (cases "list_both env vc dso") (simp_all add: Let_def fun_upd_def)
      qed
    qed
  qed
qed simp

text \<open>What listing a directory needs, and what the check wants of a failure domain.\<close>

definition browsable :: "folder_env \<Rightarrow> vcenter \<Rightarrow> datastore_object \<Rightarrow> string \<Rightarrow> bool \<Rightarrow> bool" where
  "browsable env vc ds p tolerate \<longleftrightarrow>
     fo_Browser env vc ds = None \<and>
     (fo_Search env vc ds p = None \<longrightarrow>
        (case fo_Wait env vc ds p of Inl err \<Rightarrow> tolerate \<and> IsFileNotFound err
         | Inr res \<Rightarrow> \<not> (\<exists>t. res = OtherResult t)))"

definition folder_fine :: "folder_env \<Rightarrow> check_context \<Rightarrow> failure_domain \<Rightarrow> bool" where
  "folder_fine env ctx fd \<longleftrightarrow>
     (\<exists>vc dc ds. map_of (VCenters ctx) (Server fd) = Some vc \<and>
        direct_datacenter (fo_api env vc) (Datacenter (Topology fd)) = Inr dc \<and>
        direct_ds (fo_api env vc) (object_name (dc_Path dc), Datastore (Topology fd)) = Inr ds \<and>
        browsable env vc ds ''/'' False \<and> browsable env vc ds ''/kubevols'' True)"

lemma listDirectory_None: "listDirectory env vc ds p tol = None \<longleftrightarrow> browsable env vc ds p tol"
  by (simp add: listDirectory_def browsable_def split: option.split sum.split browse_result.split)

lemma list_both_None:
  "list_both env vc ds = None \<longleftrightarrow> browsable env vc ds ''/'' False \<and> browsable env vc ds ''/kubevols'' True"
  unfolding listDirectory_None [symmetric] by (simp add: list_both_def split: option.split)

lemma folder_direct_passes: "folder_direct env ctx fds = None \<longleftrightarrow> (\<forall>fd \<in> set fds. folder_fine env ctx fd)"
proof (induction fds)
  case (Cons fd fds)
  have "folder_fine env ctx fd \<longleftrightarrow>
     (\<exists>vc dc ds. map_of (VCenters ctx) (Server fd) = Some vc \<and>
        direct_datacenter (fo_api env vc) (Datacenter (Topology fd)) = Inr dc \<and>
        direct_ds (fo_api env vc) (object_name (dc_Path dc), Datastore (Topology fd)) = Inr ds \<and>
        list_both env vc ds = None)"
    unfolding folder_fine_def list_both_None by blast
  then show ?case using Cons.IH by (simp split: option.split sum.split)
qed simp

section \<open>The other checks\<close>

lemma CheckTaskPermissions_passes:
  "CheckTaskPermissions env ctx = None \<longleftrightarrow>
     (\<forall>vc \<in> snd ` set (VCenters ctx). ta_CreateTaskView env vc = None \<and> (\<exists>pages. ta_Collect env vc = Inr pages))"
proof -
  have "task_loop env vcs = None \<longleftrightarrow>
      (\<forall>vc \<in> set vcs. ta_CreateTaskView env vc = None \<and> (\<exists>pages. ta_Collect env vc = Inr pages))" for vcs
    by (induction vcs) (auto split: option.split sum.split)
  then show ?thesis by (simp add: CheckTaskPermissions_def)
qed

definition vsphere_volume :: "persistent_volume \<Rightarrow> bool" where
  "vsphere_volume pv \<longleftrightarrow> (\<exists>handle. pv_CSI pv = Some (vSphereCSIDdriver, handle))"

definition file_volume :: "persistent_volume \<Rightarrow> bool" where
  "file_volume pv \<longleftrightarrow> (\<exists>handle. pv_CSI pv = Some (vSphereCSIDdriver, handle) \<and> sublist ''file:'' handle)"

definition zonal_volume :: "persistent_volume \<Rightarrow> bool" where
  "zonal_volume pv \<longleftrightarrow> vsphere_volume pv \<and> (\<exists>n. pv_Terms pv = Some (Suc n))"

lemma volume_loop_eq:
  "volume_loop pvs (r, z) = (r + length (filter file_volume pvs), z + length (filter zonal_volume pvs))"
proof (induction pvs arbitrary: r z)
  case (Cons pv pvs)
  have terms: "(\<exists>n. pv_Terms pv = Some (Suc n)) \<longleftrightarrow> (case pv_Terms pv of None \<Rightarrow> False | Some n \<Rightarrow> 0 < n)"
    by (auto split: option.split simp: gr0_conv_Suc)
  show ?case
  proof (cases "vsphere_volume pv")
    case False
    then show ?thesis
      using Cons by (auto simp: file_volume_def zonal_volume_def vsphere_volume_def split: option.split)
  next
    case True
    then obtain handle where h: "pv_CSI pv = Some (vSphereCSIDdriver, handle)" by (auto simp: vsphere_volume_def)
    have f: "file_volume pv \<longleftrightarrow> rwxVolumeRegx handle"
      by (simp add: file_volume_def h rwxVolumeRegx_def contains_substring_iff)
    have z: "zonal_volume pv \<longleftrightarrow> (case pv_Terms pv of None \<Rightarrow> False | Some n \<Rightarrow> 0 < n)"
      using True terms by (simp add: zonal_volume_def)
    show ?thesis by (simp add: h f z Cons split: option.split)
  qed
qed simp

text \<open>What the check of vCenter information leaves in \<^verbatim>\<open>ClusterInfo\<close>, whatever runs beside it.\<close>

fun vcenter_op :: "info_op \<Rightarrow> bool" where
  "vcenter_op (OpSetVCenter h v a) = True"
| "vcenter_op OpReset = True"
| "vcenter_op x = False"

definition vcenter_part :: "cluster_info \<Rightarrow> string list \<times> (string \<rightharpoonup> string) \<times> (string \<rightharpoonup> string)" where
  "vcenter_part c = (vcenterHostnames c, vcenterVersion c, vcenterAPIVersion c)"

lemma vcenter_part_step:
  "vcenter_part c = vcenter_part d \<Longrightarrow> vcenter_part (info_step x c) = vcenter_part (info_step x d)"
  "\<not> vcenter_op x \<Longrightarrow> vcenter_part (info_step x c) = vcenter_part c"
  by (cases x; simp add: info_ops vcenter_part_def)+

lemma vcenter_part_run:
  "vcenter_part c = vcenter_part d \<Longrightarrow>
   vcenter_part (info_run ops c) = vcenter_part (info_run (filter vcenter_op ops) d)"
proof (induction ops arbitrary: c d)
  case (Cons x ops)
  show ?case
  proof (cases "vcenter_op x")
    case True
    then show ?thesis using Cons.IH [OF vcenter_part_step(1) [OF Cons.prems]] by simp
  next
    case False
    have "vcenter_part (info_step x c) = vcenter_part d"
      unfolding vcenter_part_step(2) [OF False] by (rule Cons.prems)
    then show ?thesis using Cons.IH False by simp
  qed
qed simp

lemma vcenter_info_ops:
  "fst (vcenter_info_loop about vcs) =
     map (\<lambda>vc. OpSetVCenter (VCenterName vc) (about_Version (about vc)) (about_ApiVersion (about vc))) vcs"
  by (induction vcs) (auto simp: Let_def split: prod.split)

lemma vcenter_info_run:
  assumes "distinct (map VCenterName vcs)" "set (map VCenterName vcs) \<inter> dom (vcenterVersion c) = {}"
  shows "vcenterHostnames (info_run (fst (vcenter_info_loop about vcs)) c) = vcenterHostnames c @ map VCenterName vcs \<and>
    (\<forall>vc \<in> set vcs. GetVCenterVersion (info_run (fst (vcenter_info_loop about vcs)) c) (VCenterName vc)
       = (about_Version (about vc), about_ApiVersion (about vc))) \<and>
    (\<forall>h. h \<notin> set (map VCenterName vcs) \<longrightarrow>
       GetVCenterVersion (info_run (fst (vcenter_info_loop about vcs)) c) h = GetVCenterVersion c h)"
  using assms
proof (induction vcs arbitrary: c)
  case (Cons v vcs)
  let ?c = "SetVCenterVersion (VCenterName v) (about_Version (about v)) (about_ApiVersion (about v)) c"
  have new: "vcenterVersion c (VCenterName v) = None" using Cons.prems(2) by (auto simp: domIff)
  have disj: "distinct (map VCenterName vcs)" "set (map VCenterName vcs) \<inter> dom (vcenterVersion ?c) = {}"
    using Cons.prems by (auto simp: SetVCenterVersion_def Let_def)
  have run: "info_run (fst (vcenter_info_loop about (v # vcs))) c = info_run (fst (vcenter_info_loop about vcs)) ?c"
    by (simp add: vcenter_info_ops del: vcenter_info_loop.simps)
  have here: "GetVCenterVersion ?c (VCenterName v) = (about_Version (about v), about_ApiVersion (about v))"
    "h \<noteq> VCenterName v \<Longrightarrow> GetVCenterVersion ?c h = GetVCenterVersion c h" for h
    by (simp_all add: GetVCenterVersion_def SetVCenterVersion_def str_at_def Let_def)
  have names: "vcenterHostnames ?c = vcenterHostnames c @ [VCenterName v]"
    by (simp add: SetVCenterVersion_def new Let_def)
  have fresh: "VCenterName v \<notin> set (map VCenterName vcs)" using Cons.prems(1) by simp
  note IH = Cons.IH [OF disj]
  have first: "GetVCenterVersion (info_run (fst (vcenter_info_loop about vcs)) ?c) (VCenterName v)
      = (about_Version (about v), about_ApiVersion (about v))"
    unfolding here(1) [symmetric] by (rule conjunct2 [OF conjunct2 [OF IH], rule_format, OF fresh])
  let ?d = "info_run (fst (vcenter_info_loop about vcs)) ?c"
  show ?case unfolding run
  proof (intro conjI ballI allI impI)
    show "vcenterHostnames ?d = vcenterHostnames c @ map VCenterName (v # vcs)"
      using conjunct1 [OF IH] names by simp
  next
    fix vc assume vc: "vc \<in> set (v # vcs)"
    show "GetVCenterVersion ?d (VCenterName vc) = (about_Version (about vc), about_ApiVersion (about vc))"
    proof (cases "vc = v")
      case True
      show ?thesis unfolding True by (rule first)
    next
      case False
      then have "vc \<in> set vcs" using vc by simp
      then show ?thesis using IH by blast
    qed
  next
    fix h assume "h \<notin> set (map VCenterName (v # vcs))"
    then have h: "h \<notin> set (map VCenterName vcs)" "h \<noteq> VCenterName v" by simp_all
    have "GetVCenterVersion ?d h = GetVCenterVersion ?c h" using IH h(1) by blast
    also have "\<dots> = GetVCenterVersion c h" by (rule here(2) [OF h(2)])
    finally show "GetVCenterVersion ?d h = GetVCenterVersion c h" .
  qed
qed simp

lemma vcenter_part_eq:
  "vcenter_part c = vcenter_part d \<Longrightarrow>
   GetVCenterHostnames c = GetVCenterHostnames d \<and> GetVCenterVersion c h = GetVCenterVersion d h"
  by (simp add: vcenter_part_def GetVCenterHostnames_def GetVCenterVersion_def)

section \<open>Properties\<close>

text \<open>
  C32: The folder check through the caches refines the check without them: from any caches that hold
  only what their vCenters answer it returns what asking vCenter every time returns, for any
  number of failure domains on any vCenters, and it leaves such caches for the checks after it.
\<close>

theorem folder_check_refines:
  assumes "wf_context ctx" "caches_good env ctx cs"
  shows "fst (CheckFolderPermissions env ctx spec cs) = folder_direct env ctx (FailureDomains spec) \<and>
    caches_good env ctx (snd (CheckFolderPermissions env ctx spec cs))"
  using folder_loop_refines [OF assms] by (simp add: CheckFolderPermissions_def)

text \<open>
  With the caches of a new round the folder check passes exactly when, for every failure domain,
  the vCenter is connected, its datacenter is found and, in the datacenter of that base name, its
  datastore, the datastore has a browser, and a search of \<^verbatim>\<open>/\<close> and of \<^verbatim>\<open>/kubevols\<close> either cannot
  be started or ends with search results; only for \<^verbatim>\<open>/kubevols\<close> a missing directory will do.
\<close>

theorem folder_check_exact:
  assumes "wf_context ctx"
  shows "fst (CheckFolderPermissions env ctx spec (\<lambda>_. NewCheckCache)) = None \<longleftrightarrow>
    (\<forall>fd \<in> set (FailureDomains spec). folder_fine env ctx fd)"
  using folder_loop_refines [OF assms caches_good_New, of env "FailureDomains spec"]
  by (simp add: CheckFolderPermissions_def folder_direct_passes)

text \<open>
  The volume metrics count the persistent volumes of the vSphere CSI driver whose handle has
  \<^verbatim>\<open>file:\<close> in it, and those with at least one required node affinity term; volumes of other
  drivers and in-tree volumes are not counted.
\<close>

theorem volume_counts_exact:
  "CountPVTypes (Inr pvs) = (None,
     [\<lparr>g_name = ''vsphere_rwx_volumes_total'', g_labels = [], g_value = length (filter file_volume pvs)\<rparr>,
      \<lparr>g_name = ''vsphere_zonal_volumes_total'', g_labels = [], g_value = length (filter zonal_volume pvs)\<rparr>])"
  by (simp add: CountPVTypes_def countVolumeTypes_def volume_loop_eq)

text \<open>
  C40: After a round, \<^verbatim>\<open>ClusterInfo\<close> lists every connected vCenter once, with the version and API
  version it reports, however the operations of the other checks of the round interleave with
  those of the check: the version gate of the controller sees every vCenter.
\<close>

theorem vcenter_versions_collected:
  assumes "wf_context ctx" "tr \<in> shuffles (snd (fst (CollectClusterInfo about ctx))) others"
    and "\<forall>x \<in> set others. \<not> vcenter_op x" "(name, vc) \<in> set (VCenters ctx)"
  shows "GetVCenterHostnames (info_run tr NewClusterInfo) = map fst (VCenters ctx) \<and>
    GetVCenterVersion (info_run tr NewClusterInfo) name = (about_Version (about vc), about_ApiVersion (about vc))"
proof -
  let ?vcs = "map snd (VCenters ctx)" and ?ops = "fst (vcenter_info_loop about (map snd (VCenters ctx)))"
  have ops: "snd (fst (CollectClusterInfo about ctx)) = ?ops"
    by (simp add: CollectClusterInfo_def collectVCenterInfo_def split: prod.split)
  have "filter vcenter_op tr \<in> shuffles (filter vcenter_op ?ops) (filter vcenter_op others)"
    using assms(2) unfolding ops filter_shuffles [symmetric] by (rule imageI)
  moreover have "filter vcenter_op others = []" using assms(3) by (simp add: filter_empty_conv)
  moreover have "filter vcenter_op ?ops = ?ops" by (simp add: vcenter_info_ops filter_id_conv)
  ultimately have only: "filter vcenter_op tr = ?ops" by simp
  have part: "vcenter_part (info_run tr NewClusterInfo) = vcenter_part (info_run ?ops NewClusterInfo)"
    using vcenter_part_run [OF refl, of tr NewClusterInfo] only by simp
  have names: "map VCenterName ?vcs = map fst (VCenters ctx)"
    using assms(1) by (auto simp: wf_context_def)
  have d: "distinct (map VCenterName ?vcs)" unfolding names using assms(1) by (simp add: wf_context_def)
  have e: "set (map VCenterName ?vcs) \<inter> dom (vcenterVersion NewClusterInfo) = {}" by (simp add: NewClusterInfo_def)
  note R = vcenter_info_run [OF d e]
  have vc: "vc \<in> set ?vcs" "VCenterName vc = name"
    using assms(1,4) by (force simp: wf_context_def)+
  have "GetVCenterHostnames (info_run ?ops NewClusterInfo) = map fst (VCenters ctx)"
    using conjunct1 [OF R] names by (simp add: GetVCenterHostnames_def NewClusterInfo_def)
  moreover have "GetVCenterVersion (info_run ?ops NewClusterInfo) name = (about_Version (about vc), about_ApiVersion (about vc))"
    using R vc by blast
  ultimately show ?thesis using vcenter_part_eq [OF part, of name] by simp
qed

definition one_datastore :: inventory_api where
  "one_datastore = one_datacenter\<lparr>
     api_DatastoreList := (\<lambda>_. Inr [\<lparr>obj_Name = ''ds'', obj_Path = ''/dc/datastore/ds'', obj_Ref = ''ds-1''\<rparr>]),
     api_DatastoreMos := (\<lambda>_ _. Inr [\<lparr>ds_Ref = ''ds-1'', ds_Name = ''ds'', ds_InfoName = ''ds'', ds_InfoUrl = ''u'',
       ds_SummaryUrl = ''u'', ds_Type = ''VMFS''\<rparr>])\<rparr>"

definition folder_sample :: folder_env where
  "folder_sample = \<lparr>fo_api = (\<lambda>_. one_datastore), fo_Browser = (\<lambda>_ _. None), fo_Search = (\<lambda>_ _ _. None),
     fo_Wait = (\<lambda>_ _ p. if p = ''/'' then Inr SearchResults else Inl (FileNotFoundFault ''kubevols''))\<rparr>"

lemma sample_ctx_wf: "wf_context sample_ctx"
  by (simp add: wf_context_def sample_ctx_def)

lemma one_datastore_found:
  "direct_datacenter one_datastore ''dc'' = Inr \<lparr>dc_Ref = ''d-1'', dc_Path = ''/dc''\<rparr>"
  "object_name ''/dc'' = ''dc''"
  "direct_ds one_datastore (''dc'', ''/dc/datastore/ds'')
     = Inr \<lparr>obj_Name = ''ds'', obj_Path = ''/dc/datastore/ds'', obj_Ref = ''ds-1''\<rparr>"
  by (simp_all add: direct_datacenter_def one_datastore_def one_datacenter_def object_name_def path_base_def
      Let_def direct_ds_def direct_search_def direct_datastores_def load_datastores_def named_def)

lemma folder_sample_fine: "s \<in> {''vc1'', ''vc2''} \<Longrightarrow> folder_fine folder_sample sample_ctx (sample_domain z s)"
  unfolding folder_fine_def
  by (auto simp: sample_domain_def sample_topology_def sample_ctx_def folder_sample_def one_datastore_found
      browsable_def)

theorem folder_check_exact_witness:
  "fst (CheckFolderPermissions folder_sample sample_ctx sample_spec (\<lambda>_. NewCheckCache)) = None"
  unfolding folder_check_exact [OF sample_ctx_wf] using folder_sample_fine by (simp add: sample_spec_def)

theorem folder_check_refines_witness:
  "fst (CheckFolderPermissions folder_sample sample_ctx sample_spec (\<lambda>_. NewCheckCache)) =
     folder_direct folder_sample sample_ctx (FailureDomains sample_spec)"
  by (rule folder_check_refines [OF sample_ctx_wf caches_good_New, THEN conjunct1])

definition about_sample :: "vcenter \<Rightarrow> about_info" where
  "about_sample vc = \<lparr>about_Version = ''8.0.2'', about_ApiVersion = ''8.0.2.0'', about_Build = ''1'',
     about_InstanceUuid = VCenterName vc\<rparr>"

theorem vcenter_versions_collected_witness:
  "GetVCenterVersion (info_run [OpSetVCenter ''vc1'' ''8.0.2'' ''8.0.2.0'', OpSetHW ''vmx-15'',
       OpSetVCenter ''vc2'' ''8.0.2'' ''8.0.2.0''] NewClusterInfo) ''vc2'' = (''8.0.2'', ''8.0.2.0'')"
proof -
  let ?tr = "[OpSetVCenter ''vc1'' ''8.0.2'' ''8.0.2.0'', OpSetHW ''vmx-15'', OpSetVCenter ''vc2'' ''8.0.2'' ''8.0.2.0'']"
  have "?tr \<in> shuffles (snd (fst (CollectClusterInfo about_sample sample_ctx))) [OpSetHW ''vmx-15'']"
    by (simp add: CollectClusterInfo_def collectVCenterInfo_def sample_ctx_def about_sample_def
        Cons_in_shuffles_iff)
  then show ?thesis
    using vcenter_versions_collected [OF sample_ctx_wf, of ?tr about_sample "[OpSetHW ''vmx-15'']" "''vc2''"
        "\<lparr>VCenterName = ''vc2'', Username = ''u''\<rparr>"]
    by (simp add: sample_ctx_def about_sample_def)
qed

end
