(* ===== verification/Conformance.thy ===== *)
theory Conformance
  imports Fixtures Operator NodePerf NodeChecks Checker MetricsCollector ClusterChecks
begin

text \<open>
  The tables of the program's own unit tests, replayed on the model: for each row the definitions
  here give what the test expects of the code. A row has the name of the test case, its inputs and
  the expected outcome; where a test matches an error against a pattern the row has the whole text.
\<close>

definition outcome :: "go_error option \<Rightarrow> string" where
  "outcome err = (case err of None \<Rightarrow> [] | Some e \<Rightarrow> error_text e)"

lemma digit_two: "digit_char (Suc (Suc 0)) = CHR ''2''"
  by (metis digit_chars(4) numeral_2_eq_2)

section \<open>pkg/check/infra_config\_test.go\<close>

definition rename_server :: "nat \<Rightarrow> string \<Rightarrow> infra_modifier" where
  "rename_server i name infra = infra\<lparr>spec_VSphere := map_option (\<lambda>s. s
     \<lparr>spec_VCenters := (spec_VCenters s)[i := (spec_VCenters s ! i)\<lparr>spec_Server := name\<rparr>],
      FailureDomains := (FailureDomains s)[i := (FailureDomains s ! i)\<lparr>Server := name\<rparr>]\<rparr>) (spec_VSphere infra)\<rparr>"

definition first_only :: infra_modifier where
  "first_only infra = infra\<lparr>spec_VSphere := map_option (\<lambda>s. s
     \<lparr>spec_VCenters := take 1 (spec_VCenters s), FailureDomains := take 1 (FailureDomains s)\<rparr>) (spec_VSphere infra)\<rparr>"

definition first_domain_only :: infra_modifier where
  "first_domain_only infra = infra\<lparr>spec_VSphere := map_option (\<lambda>s. s
     \<lparr>FailureDomains := take 1 (FailureDomains s)\<rparr>) (spec_VSphere infra)\<rparr>"

definition add_domain :: "failure_domain \<Rightarrow> infra_modifier" where
  "add_domain fd infra = infra\<lparr>spec_VSphere := map_option (\<lambda>s. s
     \<lparr>FailureDomains := FailureDomains s @ [fd]\<rparr>) (spec_VSphere infra)\<rparr>"

definition RandoFD :: failure_domain where
  "RandoFD = fixture_domain ''RandoFD'' [] [] ''RandoVC'' (fixture_topology [] ''DC0'' ''LocalDS_0'')"

lemmas modifier_defs = rename_server_def first_only_def first_domain_only_def add_domain_def RandoFD_def

definition CheckInfraConfig_tests :: "(string \<times> vsphere_config \<times> infrastructure \<times> string) list" where
  "CheckInfraConfig_tests =
    [(''good config no FD (ini)'', simple_config_ini, Infrastructure [], ''''),
     (''good config with FD (ini)'', simple_config_ini, InfrastructureWithFailureDomain [], ''''),
     (''good config single vcenter (yaml)'', config_single_vcenter_yaml,
        InfrastructureWithMultiVCenters [first_only], ''''),
     (''good config multi vcenter (yaml)'', simple_config_yaml, InfrastructureWithMultiVCenters [], ''''),
     (''vcenter mismatch infra vs provider (ini)'', simple_config_ini,
        InfrastructureWithFailureDomain [rename_server 0 ''RandoVC''],
        ''Infra-Config: Infrastructure instance and cloud provider ConfigMap openshift-config/cloud-provider-config do not match.  Infrastructure has [RandoVC] and the ConfigMap has [dc0]''),
     (''vcenter mismatch infra vs provider (yaml)'', config_single_vcenter_yaml,
        InfrastructureWithMultiVCenters [first_only, rename_server 0 ''RandoVC''],
        ''Infra-Config: Infrastructure instance and cloud provider ConfigMap openshift-config/cloud-provider-config do not match.  Infrastructure has [RandoVC] and the ConfigMap has [vcenter.test.openshift.com]''),
     (''vcenter mismatch infra vs provider multi vcenter (yaml)'', config_single_vcenter_yaml,
        InfrastructureWithMultiVCenters [rename_server 1 ''RandoVC''],
        ''Infra-Config: Infrastructure instance and cloud provider ConfigMap openshift-config/cloud-provider-config do not match.  Infrastructure has 2 vCenters [vcenter.test.openshift.com RandoVC] and the ConfigMap has 1 vCenters [vcenter.test.openshift.com]''),
     (''failure domain reference missing vcenter (ini)'', simple_config_ini,
        InfrastructureWithFailureDomain [add_domain RandoFD],
        ''Infra-Config: Infrastructure failure domain RandoFD references the server RandoVC but is not found in the vCenter section [dc0]''),
     (''failure domain reference missing vcenter (yaml)'', simple_config_yaml,
        InfrastructureWithMultiVCenters [add_domain RandoFD],
        ''Infra-Config: Infrastructure failure domain RandoFD references the server RandoVC but is not found in the vCenter section [vcenter.test.openshift.com vcenter2.test.openshift.com]''),
     (''vCenter not used (ini)'', config_multi_vcenter_ini, InfrastructureWithMultiVCenters [first_domain_only],
        ''Infra-Config: vCenter vcenter2.test.openshift.com is configured in the infrastructure instance but not used by any failure domains''),
     (''vCenter not used (yaml)'', simple_config_yaml, InfrastructureWithMultiVCenters [first_domain_only],
        ''Infra-Config: vCenter vcenter2.test.openshift.com is configured in the infrastructure instance but not used by any failure domains'')]"

lemma CheckInfraConfig_conforms:
  "list_all (\<lambda>(name, cfg, infra, expectErr). outcome (CheckInfraConfig (Inr infra) cfg) = expectErr)
     CheckInfraConfig_tests"
  unfolding CheckInfraConfig_tests_def list.pred_inject prod.case
  by (intro conjI; simp add: fixture_defs config_defs modifier_defs outcome_def CheckInfraConfig_def
      checkVCenters_def checkFailureDomains_def getInfraVCenterNames_def getProviderConfigVCenterNames_def
      CloudConfigNamespace_def show_strings_def join_def digit_two Let_def go_simps)

section \<open>pkg/check/datacenter\_consistency\_test.go\<close>

definition set_domain :: "nat \<Rightarrow> (failure_domain \<Rightarrow> failure_domain) \<Rightarrow> infra_modifier" where
  "set_domain i f infra = infra\<lparr>spec_VSphere := map_option (\<lambda>s. s
     \<lparr>FailureDomains := (FailureDomains s)[i := f (FailureDomains s ! i)]\<rparr>) (spec_VSphere infra)\<rparr>"

definition set_datacenter :: "nat \<Rightarrow> string \<Rightarrow> infra_modifier" where
  "set_datacenter i dc = set_domain i (\<lambda>fd. fd\<lparr>Topology := (Topology fd)\<lparr>Datacenter := dc\<rparr>\<rparr>)"

definition set_listed :: "nat \<Rightarrow> string list \<Rightarrow> infra_modifier" where
  "set_listed i dcs infra = infra\<lparr>spec_VSphere := map_option (\<lambda>s. s
     \<lparr>spec_VCenters := (spec_VCenters s)[i := (spec_VCenters s ! i)\<lparr>spec_Datacenters := dcs\<rparr>]\<rparr>) (spec_VSphere infra)\<rparr>"

lemmas datacenter_modifier_defs = set_domain_def set_datacenter_def set_listed_def add_domain_def

text \<open>The rows of \<^verbatim>\<open>TestCheckDatacenterConsistency\<close> without an error.\<close>

definition consistent_datacenters :: "(string \<times> vsphere_config \<times> infrastructure) list" where
  "consistent_datacenters =
    [(''legacy config (no failure domains)'', simple_config_ini, Infrastructure []),
     (''all datacenters present in cloud.conf (ini)'', simple_config_ini, InfrastructureWithFailureDomain []),
     (''all datacenters present in cloud.conf (yaml)'', simple_config_yaml,
        InfrastructureWithMultiVCenters [set_datacenter 0 ''cidatacenter'', set_datacenter 1 ''IBMCloud'',
          set_listed 0 [''cidatacenter''], set_listed 1 [''IBMCloud'']]),
     (''vCenter not in cloud.conf is skipped (handled by CheckInfraConfig)'', simple_config_ini,
        InfrastructureWithFailureDomain [set_domain 0 (\<lambda>fd. fd\<lparr>Server := ''unknown-vcenter''\<rparr>)])]"

lemma consistent_datacenters_conform:
  "list_all (\<lambda>(name, cfg, infra). CheckDatacenterConsistency (Inr infra) cfg = None) consistent_datacenters"
  unfolding consistent_datacenters_def list.pred_inject prod.case
  by (intro conjI; simp add: fixture_defs config_defs datacenter_modifier_defs
      CheckDatacenterConsistency_def parseDatacenters_def go_simps)

definition parseDatacenters_tests :: "(string \<times> string list) list" where
  "parseDatacenters_tests = [(''DC0'', [''DC0'']), (''DC0,DC1'', [''DC0'', ''DC1'']),
     ('' DC0 , DC1 '', [''DC0'', ''DC1'']), ([], [])]"

lemma parseDatacenters_conforms:
  "list_all (\<lambda>(input, expected). parseDatacenters input = expected) parseDatacenters_tests"
  by (simp add: parseDatacenters_tests_def parseDatacenters_def go_simps)

section \<open>pkg/check/util\_test.go\<close>

definition problem_infra :: infrastructure where
  "problem_infra = \<lparr>CloudConfig_Name = ''cloud-provider-config'', CloudConfig_Key = ''config'',
     spec_VSphere = Some \<lparr>spec_VCenters = [\<lparr>spec_Server = ''foobar.com'', spec_Datacenters = [''dc443'']\<rparr>],
       FailureDomains = []\<rparr>, PlatformStatus = Some ''VSphere''\<rparr>"

lemma MissingFailureDomains_conforms:
  "\<exists>spec fd fds. PlatformSpec (simulated_context u problem_infra problematic_config_ini) = Some spec
     \<and> FailureDomains spec = fd # fds
     \<and> Datacenter (Topology fd) = ''dc443'' \<and> Datastore (Topology fd) = ''/foobar/datastore''"
  by (simp add: simulated_context_def ConvertToPlatformSpec_def platform_spec_of_def problem_infra_def
      config_defs vCentersToMap_def addFailureDomainsToPlatformSpec_def Let_def)

definition labelled :: "string \<Rightarrow> string \<Rightarrow> string \<Rightarrow> string \<Rightarrow> node" where
  "labelled regionLabel region zoneLabel zone =
     (DefaultNodes ! 0)\<lparr>Labels := [regionLabel \<mapsto> region, zoneLabel \<mapsto> zone]\<rparr>"

definition topology_node :: "string \<Rightarrow> string \<Rightarrow> node" where
  "topology_node region zone = labelled LabelTopologyRegion region LabelTopologyZone zone"

definition beta_node :: "string \<Rightarrow> string \<Rightarrow> node" where
  "beta_node region zone = labelled LabelFailureDomainBetaRegion region LabelFailureDomainBetaZone zone"

text \<open>Every failure domain and the only vCenter moved to the server of the YAML configuration.\<close>

definition all_at :: "string \<Rightarrow> infra_modifier" where
  "all_at server infra = infra\<lparr>spec_VSphere := map_option (\<lambda>s. s
     \<lparr>FailureDomains := map (\<lambda>fd. fd\<lparr>Server := server\<rparr>) (FailureDomains s),
      spec_VCenters := (take 1 (spec_VCenters s))[0 := (spec_VCenters s ! 0)\<lparr>spec_Server := server\<rparr>]\<rparr>) (spec_VSphere infra)\<rparr>"

definition no_match :: "string \<Rightarrow> string \<Rightarrow> string" where
  "no_match region zone = ''unable to determine vcenter for node DC0_H0_VM0: no failure domain matched region=''
     @ region @ '' zone='' @ zone"

definition GetVCenter_tests :: "(string \<times> vsphere_config \<times> infrastructure \<times> node \<times> (string + string)) list" where
  "GetVCenter_tests =
    [(''no platform spec'', simple_config_ini, Infrastructure [], DefaultNodes ! 0, Inr ''dc0''),
     (''platform spec with one failure domain (ini)'', simple_config_ini,
        InfrastructureWithFailureDomain [], DefaultNodes ! 0, Inr ''dc0''),
     (''platform spec with one failure domain (yaml)'', config_single_vcenter_yaml,
        InfrastructureWithMultiVCenters [first_only], DefaultNodes ! 0, Inr ''vcenter.test.openshift.com''),
     (''platform spec with multiple failure domains (ini)'', simple_config_ini,
        InfrastructureWithMultipleFailureDomain [], topology_node ''west'' ''west-1a'', Inr ''dc0''),
     (''platform spec with multiple failure domains (yaml)'', config_single_vcenter_yaml,
        InfrastructureWithMultipleFailureDomain [all_at ''vcenter.test.openshift.com''],
        topology_node ''west'' ''west-1a'', Inr ''vcenter.test.openshift.com''),
     (''platform spec with multiple failure domains beta labels (ini)'', simple_config_ini,
        InfrastructureWithMultipleFailureDomain [], beta_node ''east'' ''east-1a'', Inr ''dc0''),
     (''platform spec with multiple failure domains beta labels (yaml)'', config_single_vcenter_yaml,
        InfrastructureWithMultipleFailureDomain [all_at ''vcenter.test.openshift.com''],
        beta_node ''east'' ''east-1a'', Inr ''vcenter.test.openshift.com''),
     (''platform spec with multiple failure domains unknown fd (ini)'', simple_config_ini,
        InfrastructureWithMultipleFailureDomain [], topology_node ''foo'' ''bar'', Inl (no_match ''foo'' ''bar'')),
     (''platform spec with multiple failure domains unknown fd (yaml)'', config_single_vcenter_yaml,
        InfrastructureWithMultipleFailureDomain [all_at ''vcenter.test.openshift.com''],
        topology_node ''foo'' ''bar'', Inl (no_match ''foo'' ''bar'')),
     (''platform spec with multiple failure domains unknown fd beta labels (ini)'', simple_config_ini,
        InfrastructureWithMultipleFailureDomain [], beta_node ''foo'' ''bar'', Inl (no_match ''foo'' ''bar'')),
     (''platform spec with multiple failure domains no labels'', simple_config_ini,
        InfrastructureWithFailureDomain [], DefaultNodes ! 0, Inr ''dc0''),
     (''platform spec with multiple vcenters'', simple_config_yaml,
        InfrastructureWithMultiVCenters [], beta_node ''east'' ''east-1a'', Inr ''vcenter.test.openshift.com''),
     (''platform spec with multiple vcenters unknown fd'', simple_config_yaml,
        InfrastructureWithMultiVCenters [], beta_node ''foo'' ''bar'', Inl (no_match ''foo'' ''bar'')),
     (''platform spec with multiple vcenters no labels'', simple_config_yaml,
        InfrastructureWithMultiVCenters [], DefaultNodes ! 0,
        Inl ''failure domain labels missing from node DC0_H0_VM0 when there are more than one failure domains configured''),
     (''single FD after reduction - GA labels match remaining FD (ini)'', simple_config_ini,
        InfrastructureWithFailureDomain [], topology_node ''east'' ''east-1a'', Inr ''dc0''),
     (''single FD after reduction - beta labels match remaining FD (ini)'', simple_config_ini,
        InfrastructureWithFailureDomain [], beta_node ''east'' ''east-1a'', Inr ''dc0''),
     (''single FD after reduction - GA labels match remaining FD (yaml)'', config_single_vcenter_yaml,
        InfrastructureWithMultiVCenters [first_only], topology_node ''east'' ''east-1a'',
        Inr ''vcenter.test.openshift.com''),
     (''single FD after reduction - labels present but don'' @ [CHR 0x27] @ ''t match (falls back to first FD)'',
        simple_config_ini, InfrastructureWithFailureDomain [],
        topology_node ''unknown-region'' ''unknown-zone'', Inr ''dc0''),
     (''multiple FDs - labels present but match no FD returns error (ini)'', simple_config_ini,
        InfrastructureWithMultipleFailureDomain [], topology_node ''removed-region'' ''removed-zone'',
        Inl (no_match ''removed-region'' ''removed-zone''))]"

lemmas node_defs = DefaultNodes_def defaultVMs_def Node_def WithProviderID_def topology_node_def beta_node_def labelled_def

lemma GetVCenter_conforms:
  "list_all (\<lambda>(name, cfg, infra, n, expected).
       map_sum error_text VCenterName (GetVCenter (simulated_context u infra cfg) n) = expected)
     GetVCenter_tests"
  unfolding GetVCenter_tests_def list.pred_inject prod.case
  by (intro conjI; simp add: fixture_defs config_defs node_defs modifier_defs all_at_def no_match_def
      simulated_context_def ConvertToPlatformSpec_def platform_spec_of_def vCentersToMap_def
      convertIntreeToPlatformSpec_def addFailureDomainsToPlatformSpec_def GetVCenter_def node_region_def
      node_zone_def label_def LabelTopologyRegion_def LabelTopologyZone_def LabelFailureDomainBetaRegion_def
      LabelFailureDomainBetaZone_def vcenter_at_def first_domain_def only_vcenter_def empty_spec_def Let_def)

text \<open>The rows with errors: the two texts of the check, and the errors of each row.\<close>

definition not_in_config :: "string \<Rightarrow> string \<Rightarrow> string \<Rightarrow> string \<Rightarrow> string" where
  "not_in_config fd dc vc listed = ''Datacenter-Consistency: failure domain '' @ quote fd
     @ '' (infrastructure.config.openshift.io/cluster) requires datacenter '' @ quote dc
     @ '' on vCenter '' @ quote vc @ '', but it is not listed in the cloud provider config (datacenters = '' @ quote listed
     @ '' in vsphere-csi-config-secret, namespace openshift-cluster-csi-drivers). Add '' @ quote dc
     @ '' to the datacenters list in the cloud-provider-config ConfigMap in the openshift-config namespace.''"

definition not_in_spec :: "string \<Rightarrow> string \<Rightarrow> string \<Rightarrow> string \<Rightarrow> string" where
  "not_in_spec fd dc vc listed = ''Datacenter-Consistency: failure domain '' @ quote fd
     @ '' references datacenter '' @ quote dc @ '' on vCenter '' @ quote vc
     @ '', but it is not listed in the vcenters section of infrastructure.config.openshift.io/cluster (datacenters = ''
     @ ''['' @ listed @ '']'' @ ''). Add '' @ quote dc @ '' to the datacenters list for vCenter '' @ quote vc
     @ '' in the Infrastructure CR.''"

definition DcMissing :: failure_domain where
  "DcMissing = fixture_domain ''us-west-1'' [] [] ''dc0'' (fixture_topology [] ''DC-MISSING'' [])"

definition inconsistent_datacenters :: "(string \<times> vsphere_config \<times> infrastructure \<times> string list) list" where
  "inconsistent_datacenters =
    [(''one datacenter missing from cloud.conf (ini)'', simple_config_ini,
        InfrastructureWithFailureDomain [add_domain DcMissing],
        [not_in_config ''us-west-1'' ''DC-MISSING'' ''dc0'' ''DC0'', not_in_spec ''us-west-1'' ''DC-MISSING'' ''dc0'' ''DC0'']),
     (''one datacenter missing from cloud.conf (yaml)'', simple_config_yaml,
        InfrastructureWithMultiVCenters [set_datacenter 1 ''DC-MISSING''],
        [not_in_config ''failure-domain-1'' ''DC0'' ''vcenter.test.openshift.com'' ''cidatacenter'',
         not_in_config ''failure-domain-2'' ''DC-MISSING'' ''vcenter2.test.openshift.com'' ''IBMCloud'',
         not_in_spec ''failure-domain-2'' ''DC-MISSING'' ''vcenter2.test.openshift.com'' ''DC1'']),
     (''multiple datacenters missing from cloud.conf'', simple_config_yaml,
        InfrastructureWithMultiVCenters [set_datacenter 0 ''MISSING-1'', set_datacenter 1 ''MISSING-2''],
        [not_in_config ''failure-domain-1'' ''MISSING-1'' ''vcenter.test.openshift.com'' ''cidatacenter'',
         not_in_config ''failure-domain-2'' ''MISSING-2'' ''vcenter2.test.openshift.com'' ''IBMCloud'',
         not_in_spec ''failure-domain-1'' ''MISSING-1'' ''vcenter.test.openshift.com'' ''DC0'',
         not_in_spec ''failure-domain-2'' ''MISSING-2'' ''vcenter2.test.openshift.com'' ''DC1'']),
     (''datacenter missing from vCenters section in infra CR'', simple_config_ini,
        InfrastructureWithFailureDomain [set_listed 0 [''OTHER-DC'']],
        [not_in_spec ''dc0'' ''DC0'' ''dc0'' ''OTHER-DC'']),
     (''datacenter missing from vCenters section in multi-vCenter infra CR'', simple_config_yaml,
        InfrastructureWithMultiVCenters [set_datacenter 0 ''cidatacenter'', set_datacenter 1 ''IBMCloud'',
          set_listed 0 [''cidatacenter''], set_listed 1 [''OTHER-DC'']],
        [not_in_spec ''failure-domain-2'' ''IBMCloud'' ''vcenter2.test.openshift.com'' ''OTHER-DC''])]"

lemma inconsistent_datacenters_conform:
  "list_all (\<lambda>(name, cfg, infra, texts).
       CheckDatacenterConsistency (Inr infra) cfg = Some (join (map Errorf texts))) inconsistent_datacenters"
  unfolding inconsistent_datacenters_def list.pred_inject prod.case
  by (intro conjI; simp add: fixture_defs config_defs datacenter_modifier_defs DcMissing_def
      not_in_config_def not_in_spec_def CheckDatacenterConsistency_def parseDatacenters_def
      CloudConfigNamespace_def show_strings_def Let_def go_simps)

section \<open>pkg/check/node\_perf\_test.go, node\_provider\_test.go, node\_uuid\_test.go\<close>

definition createNode :: "string \<Rightarrow> string list \<Rightarrow> node" where
  "createNode name roles = \<lparr>node_Name = name,
     Labels = map_of (map (\<lambda>role. (''node-role.kubernetes.io/'' @ role, [])) roles), ProviderID = []\<rparr>"

definition createMetricCheckDef :: "bool \<Rightarrow> bool \<Rightarrow> MetricCheckDef" where
  "createMetricCheckDef master work = \<lparr>errorLevel = 0, metricName = ''disk.fake.test'', errorEventMessage = [],
     checkMasters = master, checkWorkers = work\<rparr>"

definition checkNodePerf_tests :: "(string \<times> node \<times> MetricCheckDef \<times> bool) list" where
  "checkNodePerf_tests =
    [(''master node checked'', createNode ''master-node-0'' [''master''], createMetricCheckDef True False, True),
     (''worker node not checked'', createNode ''worker-node-0'' [''worker''], createMetricCheckDef True False, False),
     (''worker node checked'', createNode ''worker-node-0'' [''worker''], createMetricCheckDef True True, True),
     (''infra node'', createNode ''infra-node-0'' [''infra''], createMetricCheckDef True False, False),
     (''master/worker node check master flag'', createNode ''master-node-0'' [''master'', ''worker''],
        createMetricCheckDef True False, True),
     (''master/worker node check master and worker'', createNode ''master-node-0'' [''master'', ''worker''],
        createMetricCheckDef True True, True),
     (''infra/worker node not checked'', createNode ''infra-node-0'' [''infra'', ''worker''],
        createMetricCheckDef True False, False),
     (''infra/worker node checked'', createNode ''infra-node-0'' [''infra'', ''worker''],
        createMetricCheckDef True True, True)]"

lemma checkNodePerf_conforms:
  "list_all (\<lambda>(name, n, mcd, expected). checkNodePerf n mcd = expected) checkNodePerf_tests"
  by (simp add: checkNodePerf_tests_def checkNodePerf_def createNode_def createMetricCheckDef_def
      master_label_def worker_label_def)

lemma CheckNodeProviderID_conforms:
  "fst (CheckNodeProviderID (Node ''vm1'' [WithProviderID ''3fd46873-7ff8-4a3f-a144-b7678def1010'']) v) = None"
  "fst (CheckNodeProviderID (Node ''vm2'' []) v) \<noteq> None"
  by (simp_all add: CheckNodeProviderID_def Node_def WithProviderID_def)

lemma CheckNodeDiskUUID_conforms:
  assumes "vm_Config v = Some config" "DiskUuidEnabled config = Some enabled"
  shows "map_option (\<lambda>(err, ops). err = None) (CheckNodeDiskUUID (DefaultNodes ! 0) v) = Some enabled"
  using assms by (simp add: CheckNodeDiskUUID_def)

section \<open>pkg/check/node\_hw\_version\_test.go, node\_cbt\_test.go\<close>

text \<open>
  What \<^verbatim>\<open>ClusterInfo\<close> holds after a loop of one of these checks through the VMs of the nodes, given by
  their hardware version and \<^verbatim>\<open>ctkEnabled\<close> property.
\<close>

definition test_vm :: "string \<Rightarrow> string option \<Rightarrow> vm" where
  "test_vm hw cbt = \<lparr>vm_Config = Some \<lparr>
       ExtraConfig = (case cbt of None \<Rightarrow> [] | Some val \<Rightarrow> [(''ctkEnabled'', val)]),
       DiskUuidEnabled = None, Config_Version = hw\<rparr>,
     vm_Host = None, vm_ResourcePool = None\<rparr>"

definition check_loop :: "(node \<Rightarrow> vm \<Rightarrow> node_call option) \<Rightarrow> vm list \<Rightarrow> cluster_info" where
  "check_loop check vms = info_run (concat (map (\<lambda>v.
     case check (DefaultNodes ! 0) v of None \<Rightarrow> [] | Some (err, ops) \<Rightarrow> ops) vms)) NewClusterInfo"

definition hw_version_tests :: "(string \<times> string list \<times> (string \<times> nat) list) list" where
  "hw_version_tests =
    [(''hw ver 13'', [''vmx-13'', ''vmx-13''], [(''vmx-13'', 2)]),
     (''hw ver 15'', [''vmx-15'', ''vmx-13''], [(''vmx-13'', 1), (''vmx-15'', 1)]),
     (''if hardware version of nodes change'', [''vmx-15'', ''vmx-15''], [(''vmx-15'', 2)])]"

lemma CollectNodeHWVersion_conforms:
  "list_all (\<lambda>(name, hws, expected).
       finish_hw_versions (check_loop CollectNodeHWVersion (map (\<lambda>hw. test_vm hw None) hws)) (map fst expected)
         = map (\<lambda>(hw, k). \<lparr>g_name = ''vsphere_node_hw_version_total'', g_labels = [hw], g_value = k\<rparr>) expected
       \<and> dom (hwVersions (check_loop CollectNodeHWVersion (map (\<lambda>hw. test_vm hw None) hws))) = fst ` set expected)
     hw_version_tests"
  unfolding hw_version_tests_def list.pred_inject prod.case
  by (intro conjI; simp add: finish_hw_versions_def check_loop_def test_vm_def CollectNodeHWVersion_def
      info_run_def info_ops NewClusterInfo_def GetHardwareVersion_def range_map_def map_incr_def insert_commute)

definition cbt_tests :: "(string \<times> string option list \<times> (string \<times> nat) list) list" where
  "cbt_tests =
    [(''All Not Set'', [None, None, None], [(''disabled'', 3)]),
     (''All Disabled'', [Some ''FALSE'', Some ''FALSE'', Some ''FALSE''], [(''disabled'', 3)]),
     (''All Enabled'', [Some ''TRUE'', Some ''TRUE'', Some ''TRUE''], [(''enabled'', 3)]),
     (''Mismatch'', [Some ''FALSE'', Some ''TRUE'', None], [(''disabled'', 2), (''enabled'', 1)]),
     (''One not set with others disabled'', [None, Some ''FALSE'', Some ''FALSE''], [(''disabled'', 3)]),
     (''One not set with others enabled'', [None, Some ''TRUE'', Some ''TRUE''], [(''disabled'', 1), (''enabled'', 2)])]"

lemma equal_fold_booleans: "equal_fold ''TRUE'' ''TRUE''" "\<not> equal_fold ''FALSE'' ''TRUE''"
  by (simp_all add: equal_fold_def to_lower_def lower_char_def char_of_def bit_Suc_0_iff)

lemma CollectNodeCBT_conforms:
  "list_all (\<lambda>(name, cbts, expected).
       finish_cbt (check_loop CollectNodeCBT (map (test_vm ''vmx-13'') cbts)) (map fst expected)
         = map (\<lambda>(e, k). \<lparr>g_name = ''vsphere_vm_cbt_checks'', g_labels = [e], g_value = k\<rparr>) expected
       \<and> dom (cbtEnabled (check_loop CollectNodeCBT (map (test_vm ''vmx-13'') cbts))) = fst ` set expected)
     cbt_tests"
  unfolding cbt_tests_def list.pred_inject prod.case
  by (intro conjI; simp add: finish_cbt_def check_loop_def test_vm_def CollectNodeCBT_def CbtProperty_def
      cbtEnabledKey_def cbtDisabledKey_def equal_fold_booleans info_run_def info_ops NewClusterInfo_def
      GetCbtData_def range_map_def map_incr_def insert_commute)

text \<open>
  Two of these rows say that an error is expected, one with its text, when the nodes disagree. The
  check has none to report, whatever the VM, and the test never looks at what its rows expect.
\<close>

lemma CollectNodeCBT_no_error: "CollectNodeCBT n v = Some (err, ops) \<Longrightarrow> err = None"
  by (auto simp: CollectNodeCBT_def)

section \<open>pkg/check/count\_pv\_types\_test.go and pkg/metrics/collector\_test.go\<close>

lemma countVolumeTypes_conforms:
  "countVolumeTypes (pvLister (FakeKubeClient (Infrastructure []) DefaultNodes ([] :: string list)
      [\<lparr>pv_CSI = Some (vSphereCSIDdriver, ''file:blahblah''), pv_Terms = None\<rparr>,
       \<lparr>pv_CSI = Some (vSphereCSIDdriver, ''blahblah''), pv_Terms = Some 1\<rparr>])) = Inr (1, 1)"
  by (simp add: countVolumeTypes_def FakeKubeClient_def rwxVolumeRegx_def)

text \<open>The calls of each row on a collector that has the emitted metric, and what is scraped then.\<close>

definition Collector_tests :: "(string \<times> (string \<times> string) collector_call list \<times> (string \<times> string) list) list" where
  "Collector_tests =
    [(''should report old metrics when checks are still running'', [CallStart], [(''7.0'', ''7.0.2'')]),
     (''marking metrics stale twice should still result in metrics being reported'', [CallStart, CallStart],
        [(''7.0'', ''7.0.2'')]),
     (''finishing all checks should result in fresh metrics'', [CallStart, CallAdd (''8.0'', ''8.0.2''), CallFinish],
        [(''8.0'', ''8.0.2'')])]"

lemma Collector_conforms:
  "list_all (\<lambda>(name, calls, expected).
       CollectWithStability (collector_run ([CallAdd (''7.0'', ''7.0.2''), CallFinish] @ calls) NewMetricsCollector)
         = expected) Collector_tests"
  by (simp add: Collector_tests_def collector_run_def CollectWithStability_def NewMetricsCollector_def
      AddMetric_def StartMetricCollection_def FinishedAllChecks_def)

section \<open>pkg/operator/vsphere\_check\_test.go\<close>

definition isVSphereNode_tests :: "(string \<times> string \<times> bool) list" where
  "isVSphereNode_tests =
    [(''vSphere providerID'', ''vsphere://265104de-1472-547c-b873-6dc7883fb6cb'', True),
     (''empty providerID (e.g. bare metal node)'', [], False),
     (''other cloud provider'', ''aws://i-0123456789abcdef0'', False),
     (''bare UUID without prefix'', ''265104de-1472-547c-b873-6dc7883fb6cb'', False),
     (''wrong prefix case'', ''VSphere://265104de-1472-547c-b873-6dc7883fb6cb'', False),
     (''single slash'', ''vsphere:/265104de-1472-547c-b873-6dc7883fb6cb'', False)]"

lemma isVSphereNode_conforms:
  "list_all (\<lambda>(name, i, expected). isVSphereNode (Node ''test-node'' [WithProviderID i]) = expected)
     isVSphereNode_tests"
  by (simp add: isVSphereNode_tests_def isVSphereNode_def Node_def WithProviderID_def)

lemma enqueueNodeChecks_conforms:
  assumes "chk_ListNodes env = nodeLister (FakeKubeClient infra (DefaultNodes
      @ [Node ''baremetal-0'' [], Node ''other-cloud-0'' [WithProviderID ''aws://i-0123456789abcdef0'']]) scs pvs)"
  shows "enqueueNodeChecks env = Inr (map NodeJob DefaultNodes)"
  using assms
  by (simp add: enqueueNodeChecks_def FakeKubeClient_def node_defs isVSphereNode_def)

section \<open>pkg/operator/operator\_test.go\<close>

definition test_info :: "string \<Rightarrow> string \<Rightarrow> string \<Rightarrow> string \<Rightarrow> string \<Rightarrow> cluster_info" where
  "test_info host_version host_api_version vcenter_api_version vcenter_version hardware = MakeClusterInfo
     [''host_name'' \<mapsto> ''foo.bar'', ''host_version'' \<mapsto> host_version, ''host_api_version'' \<mapsto> host_api_version,
      ''vcenter_api_version'' \<mapsto> vcenter_api_version, ''vcenter_version'' \<mapsto> vcenter_version,
      ''hw_version'' \<mapsto> hardware]"

definition checkForDeprecation_tests :: "(string \<times> cluster_info \<times> string \<times> bool) list" where
  "checkForDeprecation_tests =
    [(''on Vsphere 6.5 platform with older HW version'',
        test_info ''6.5.0'' ''6.5'' ''6.5'' ''6.5.0'' ''vmx-13'', ''vmx-13'', True),
     (''on Vsphere 6.5 host with everything else latest'',
        test_info ''6.5.0'' ''6.5'' ''7.0.1'' ''7.0.1'' ''vmx-15'', ''vmx-15'', True),
     (''on Vsphere 7 platform with HW 15'',
        test_info ''7.0.1'' ''7.0.1.2'' ''7.0.1.2'' ''7.0.1'' ''vmx-15'', ''vmx-15'', False),
     (''on Vsphere 7 platform with HW 17'',
        test_info ''7.0.1'' ''7.0.1.2'' ''7.0.1.2'' ''7.0.1'' ''vmx-17'', ''vmx-17'', False),
     (''on Vsphere 7 platform with HW 13'',
        test_info ''7.0.1'' ''7.0.1.2'' ''7.0.1.2'' ''7.0.1'' ''vmx-13'', ''vmx-13'', True),
     (''on Vsphere 7 platform with older vcenter'',
        test_info ''7.0.1'' ''7.0.1.2'' ''6.7.0'' ''7.0.1'' ''vmx-15'', ''vmx-15'', True),
     (''on Vsphere 6.7u3 platform with latest everything'',
        test_info ''6.7.0'' ''6.7.3'' ''6.7.3'' ''6.7.0'' ''vmx-15'', ''vmx-15'', False),
     (''on Vsphere 6.7u3 platform with older hardware version'',
        test_info ''6.7.0'' ''6.7.3'' ''6.7.3'' ''6.7.0'' ''vmx-13'', ''vmx-13'', True)]"

lemma test_versions_too_old:
  "too_old ''6.7.3'' ''6.5''" "too_old ''6.7.3'' ''6.7.0''" "\<not> too_old ''6.7.3'' ''6.7.3''"
  "\<not> too_old ''6.7.3'' ''7.0.1''" "\<not> too_old ''6.7.3'' ''7.0.1.2''"
  using isMinimumVersion_short [of 6 5] isMinimumVersion_dotted [of 6 7 0] isMinimumVersion_dotted [of 6 7 3]
    isMinimumVersion_dotted [of 7 0 1] isMinimumVersion_longer [of 7 0 1 "''2''"]
  by (simp_all add: too_old_def max_uint64_def dotted_def go_simps)

lemma test_hardware_too_old: "hw_too_old ''vmx-13''" "\<not> hw_too_old ''vmx-15''" "\<not> hw_too_old ''vmx-17''"
  using hw_too_old_vmx [of 13] hw_too_old_vmx [of 15] hw_too_old_vmx [of 17]
  by (simp_all add: go_simps)

lemma deprecated_info:
  "fst (checkForDeprecation (test_info hv hapi vapi vv hw) [''foo.bar''] [hw]) \<longleftrightarrow>
     too_old ''6.7.3'' hapi \<or> hw_too_old hw \<or> too_old ''6.7.3'' vapi"
proof -
  have "iteration_of (esxiVersions (test_info hv hapi vapi vv hw)) [''foo.bar'']"
    "iteration_of (hwVersions (test_info hv hapi vapi vv hw)) [hw]"
    by (simp_all add: iteration_of_def test_info_def MakeClusterInfo_def str_at_def)
  from checkForDeprecation_iff [OF this] show ?thesis
    by (simp add: test_info_def MakeClusterInfo_def str_at_def minHostVersion_def minVCenterVersion_def)
qed

lemma checkForDeprecation_conforms:
  "list_all (\<lambda>(name, info, hw, expected). fst (checkForDeprecation info [''foo.bar''] [hw]) = expected)
     checkForDeprecation_tests"
  by (simp add: checkForDeprecation_tests_def deprecated_info test_versions_too_old test_hardware_too_old)

text \<open>
  The fake checker of these tests reports one result, and the version of a vCenter when it has one.
  (With an error the code returns the collector too, but the caller does not look at it.)
\<close>

definition testvSphereChecker :: "string \<Rightarrow> string \<Rightarrow> go_error option \<Rightarrow> go_error option \<Rightarrow> checker" where
  "testvSphereChecker version api err checkErr silenced info =
     (case err of Some e \<Rightarrow> Inl e
        | None \<Rightarrow> Inr (AddResult \<lparr>res_Name = ''FakeCheck'', res_Error = checkErr\<rparr> NewResultsCollector),
      if version \<noteq> [] then SetVCenterVersion ''dc0'' version api info else info)"

definition testInfra :: infrastructure where
  "testInfra = \<lparr>CloudConfig_Name = [], CloudConfig_Key = [], spec_VSphere = None, PlatformStatus = Some ''VSphere''\<rparr>"

definition test_input :: "int \<Rightarrow> rat \<Rightarrow> rat \<Rightarrow> checker \<Rightarrow> string list \<Rightarrow> string list \<Rightarrow> sync_input" where
  "test_input now draw1 draw2 chk hosts hws = \<lparr>in_OperatorState = Inr Managed, in_Infrastructure = Inr testInfra,
     in_ClusterCSIDriver = Inr [], in_nowSync = now, in_nowCheck = now, in_draw1 = draw1, in_draw2 = draw2,
     in_checker = chk, in_names = [''FakeCheck''], in_hosts = hosts, in_hws = hws, in_updateErr = None\<rparr>"

text \<open>
  \<^verbatim>\<open>TestSyncChecks\<close>: the error of the checks, the cluster, whether the next check is due, and what is
  expected: whether checks were performed, the upgrade block and whether there is an error.
\<close>

definition recent_info :: cluster_info where
  "recent_info = test_info ''7.0.1'' ''7.0.1.2'' ''7.0.1.2'' ''7.0.1'' ''vmx-15''"

definition old_info :: cluster_info where
  "old_info = test_info ''6.7.0'' ''6.7.3'' ''6.7.3'' ''6.7.0'' ''vmx-13''"

definition SyncChecks_tests ::
  "(string \<times> go_error option \<times> cluster_info \<times> string \<times> bool \<times> bool \<times> bool \<times> bool) list" where
  "SyncChecks_tests =
    [(''when no error running checks and latest version'', None, recent_info, ''vmx-15'', True, True, False, False),
     (''when there was an error running checks'', Some (Errorf ''error running checks''), recent_info, ''vmx-15'',
        True, True, False, True),
     (''when no checks were ran'', None, test_info [] [] [] [] [], [], False, False, False, False),
     (''when cluster was deprecated'', None, old_info, ''vmx-13'', True, True, True, False),
     (''when cluster is deprecated and check had errors'', Some (Errorf ''error running checks''), old_info, ''vmx-13'',
        True, True, True, True)]"

lemma ex_fst_eq: "(\<exists>r. p = (b, r)) \<longleftrightarrow> fst p = b"
  by (cases p) simp

lemma deprecated_infos:
  "\<exists>r. checkForDeprecation old_info [''foo.bar''] [''vmx-13''] = (True, r)"
  "\<exists>r. checkForDeprecation recent_info [''foo.bar''] [''vmx-15''] = (False, r)"
  unfolding ex_fst_eq
  by (simp_all add: recent_info_def old_info_def deprecated_info test_versions_too_old test_hardware_too_old)

lemma SyncChecks_conforms:
  assumes "0 < now"
  shows "list_all (\<lambda>(name, err, info, hw, perform, performed, deprecated, failed).
     let inp = test_input now draw1 draw2 (testvSphereChecker [] [] err None) [''foo.bar''] [hw];
         c = NewVSphereProblemDetectorController\<lparr>nextCheck := if perform then 0 else now + 10 * second\<rparr>;
         (dly, r, done) = fst (runSyncChecks inp c info)
     in done = performed \<and> blockUpgrade r = deprecated \<and> (checkError r \<noteq> None) = failed
        \<and> (\<not> perform \<longrightarrow> dly = 0) \<and> (perform \<and> err = None \<and> \<not> deprecated \<longrightarrow> dly = Cap defaultBackoff))
     SyncChecks_tests"
proof -
  obtain r1 r2 where d: "checkForDeprecation old_info [''foo.bar''] [''vmx-13''] = (True, r1)"
    "checkForDeprecation recent_info [''foo.bar''] [''vmx-15''] = (False, r2)"
    using deprecated_infos by blast
  show ?thesis
    unfolding SyncChecks_tests_def list.pred_inject prod.case
    using assms
    by (intro conjI; simp add: runSyncChecks_def runChecks_def test_input_def testvSphereChecker_def
        NewVSphereProblemDetectorController_def AddResult_def NewResultsCollector_def Collect_results_def
        new_aggregate_def second_def d Let_def split: prod.splits)
qed

text \<open>\<^verbatim>\<open>TestSync\<close>: the error of a check, the error of the run, and the message of the one condition.\<close>

definition Sync_tests :: "(string \<times> go_error option \<times> go_error option \<times> string) list" where
  "Sync_tests =
    [(''sync with no errors'', None, None, []),
     (''error in a single check'', Some (Errorf ''Mock check failure''), None, ''Mock check failure''),
     (''error in runCheck'', None, Some (Errorf ''Mock check failure''), ''Mock check failure'')]"

definition conditions :: "effect list \<Rightarrow> condition list" where
  "conditions effs = concat (map (\<lambda>e. case e of UpdateStatus cnd \<Rightarrow> [cnd] | _ \<Rightarrow> []) effs)"

lemma Sync_conforms:
  assumes "0 < now"
  shows "list_all (\<lambda>(name, mockCheckError, runCheckError, msg).
     let (res, c, effs) = sync (test_input now draw1 draw2
           (testvSphereChecker ''7.0.3'' ''7.0.3'' runCheckError mockCheckError) [] []) NewVSphereProblemDetectorController
     in res = Returned None
        \<and> map (\<lambda>cnd. (cnd_Status cnd, cnd_Message cnd)) (conditions effs) = [(''True'', msg)])
     Sync_tests"
  unfolding Sync_tests_def list.pred_inject prod.case
  using assms
  by (intro conjI; simp add: sync_def platformSupported_def testInfra_def Managed_def Removed_def
      VSpherePlatformType_def checkStateChange_def updateConditions_def availableCnd_def conditions_def
      runSyncChecks_def runChecks_def test_input_def testvSphereChecker_def reportResults_def
      NewVSphereProblemDetectorController_def AddResult_def NewResultsCollector_def Collect_results_def
      collect_one_def JoinErrors_def new_aggregate_def Let_def split: prod.splits if_splits)

end
