(* ===== verification/OperatorDelays.thy ===== *)
theory OperatorDelays
  imports Operator
begin

text \<open>
  When the controller checks and when it checks again: the delay each round of checks leads
  to, on every path through \<^verbatim>\<open>runChecks\<close> and \<^verbatim>\<open>runSyncChecks\<close>, the invariant of the
  controller's state over any sequence of \<^verbatim>\<open>sync\<close> calls, and the spacing of the rounds
  that follows from it.
\<close>

section \<open>The delay of one round\<close>

text \<open>
  A reference for the delay, as a table: \<open>failed\<close> is an error of the checker itself,
  \<open>err\<close> an error a check reported, \<open>block\<close> the deprecation decision; \<open>d1\<close> is the
  backoff step taken at the start, \<open>d2\<close> the first step of a fresh backoff.
\<close>

definition delay_table :: "bool \<Rightarrow> bool \<Rightarrow> bool \<Rightarrow> bool \<Rightarrow> duration \<Rightarrow> duration \<Rightarrow> duration" where
  "delay_table silenced failed err block d1 d2 =
     (if failed then d1
      else if silenced then 24 * hour
      else if err then d1
      else if block then d2
      else hour)"

text \<open>The answers a round of checks gets, read off the input.\<close>

definition round_answer :: "sync_input \<Rightarrow> operator_state \<Rightarrow> (go_error + result_collector) \<times> cluster_info" where
  "round_answer inp c = in_checker inp (Silenced c) NewClusterInfo"

definition round_failed :: "sync_input \<Rightarrow> operator_state \<Rightarrow> bool" where
  "round_failed inp c \<longleftrightarrow> (\<exists>e. fst (round_answer inp c) = Inl e)"

definition round_error :: "sync_input \<Rightarrow> operator_state \<Rightarrow> go_error option" where
  "round_error inp c = (case fst (round_answer inp c) of
     Inl e \<Rightarrow> Some e | Inr rc \<Rightarrow> snd (Collect_results rc (in_names inp)))"

definition round_blocks :: "sync_input \<Rightarrow> operator_state \<Rightarrow> bool" where
  "round_blocks inp c =
     fst (checkForDeprecation (snd (round_answer inp c)) (in_hosts inp) (in_hws inp))"

lemmas round_defs = round_answer_def round_failed_def round_error_def round_blocks_def

lemma runChecks_round:
  "runChecks inp c NewClusterInfo =
    ((delay_table (Silenced c) (round_failed inp c) (round_error inp c \<noteq> None) False
        (fst (Step (in_draw1 inp) (op_backoff c))) 0, round_error inp c),
     c\<lparr>op_backoff := (if round_failed inp c \<or> round_error inp c \<noteq> None \<and> \<not> Silenced c
                      then snd (Step (in_draw1 inp) (op_backoff c)) else defaultBackoff),
       lastCheck := in_nowCheck inp\<rparr>,
     snd (round_answer inp c),
     (case fst (round_answer inp c) of
        Inl e \<Rightarrow> []
      | Inr rc \<Rightarrow> if Silenced c then [] else reportResults (fst (Collect_results rc (in_names inp)))))"
  by (auto simp: runChecks_def round_defs delay_table_def silencedCap_def defaultBackoff_def Let_def
      split: sum.splits prod.splits)

lemma runSyncChecks_performs:
  "snd (snd (fst (runSyncChecks inp c ci))) \<longleftrightarrow> nextCheck c < in_nowSync inp"
  by (auto simp: runSyncChecks_def Let_def split: prod.splits)

lemma runSyncChecks_skip:
  "\<not> nextCheck c < in_nowSync inp \<Longrightarrow>
   runSyncChecks inp c ci = ((0, \<lparr>checkError = None, blockUpgrade = False, blockUpgradeReason = []\<rparr>, False), c, [])"
  by (simp add: runSyncChecks_def)

text \<open>The backoff a round leaves behind, and its delay, as the table says.\<close>

definition blocked_only :: "sync_input \<Rightarrow> operator_state \<Rightarrow> bool" where
  "blocked_only inp c \<longleftrightarrow> round_blocks inp c \<and> round_error inp c = None \<and> \<not> Silenced c"

definition backoff_after :: "sync_input \<Rightarrow> operator_state \<Rightarrow> backoff" where
  "backoff_after inp c =
     (if round_failed inp c \<or> round_error inp c \<noteq> None \<and> \<not> Silenced c
      then snd (Step (in_draw1 inp) (op_backoff c))
      else if blocked_only inp c then snd (Step (in_draw2 inp) defaultBackoff)
      else defaultBackoff)"

definition delay_after :: "sync_input \<Rightarrow> operator_state \<Rightarrow> duration" where
  "delay_after inp c =
     delay_table (Silenced c) (round_failed inp c) (round_error inp c \<noteq> None) (round_blocks inp c)
       (fst (Step (in_draw1 inp) (op_backoff c))) (fst (Step (in_draw2 inp) defaultBackoff))"

lemma round_failed_error: "round_failed inp c \<Longrightarrow> round_error inp c \<noteq> None"
  by (auto simp: round_failed_def round_error_def)

lemma runSyncChecks_round:
  assumes "nextCheck c < in_nowSync inp"
  shows "\<exists>r effs. runSyncChecks inp c NewClusterInfo =
      ((delay_after inp c, r, True), c\<lparr>op_backoff := backoff_after inp c, lastCheck := in_nowCheck inp\<rparr>, effs)
      \<and> checkError r = round_error inp c \<and> blockUpgrade r = round_blocks inp c"
  using assms round_failed_error [of inp c]
  by (auto simp: runSyncChecks_def runChecks_round delay_after_def backoff_after_def blocked_only_def
      round_blocks_def delay_table_def Let_def split: prod.splits)

section \<open>The invariant of the controller\<close>

definition min_delay :: duration where "min_delay = minute"
definition max_delay :: duration where "max_delay = 24 * hour"

definition op_inv :: "operator_state \<Rightarrow> bool" where
  "op_inv c \<longleftrightarrow> (\<exists>n. op_backoff c = nth_backoff n) \<and>
     (nextCheck c = 0 \<and> lastCheck c = 0
      \<or> lastCheck c + min_delay \<le> nextCheck c \<and> nextCheck c \<le> lastCheck c + max_delay)"

definition input_ok :: "sync_input \<Rightarrow> bool" where
  "input_ok inp \<longleftrightarrow> draw_ok (in_draw1 inp) \<and> draw_ok (in_draw2 inp)"

lemma op_inv_New [simp]: "op_inv NewVSphereProblemDetectorController"
  by (simp add: op_inv_def NewVSphereProblemDetectorController_def)
    (metis nth_backoff_0)

lemma Step_default_bounds:
  assumes "draw_ok d"
  shows "minute \<le> fst (Step d defaultBackoff)" "fst (Step d defaultBackoff) \<le> minute + minute div 100"
  using Step_nth_backoff_bounds [OF assms, of 0]
  by (simp_all add: nth_backoff_0 durations)

lemma Step_any_bounds:
  assumes "draw_ok d"
  shows "minute \<le> fst (Step d (nth_backoff n))" "fst (Step d (nth_backoff n)) \<le> hour + hour div 100"
proof -
  have "minute * 1 \<le> minute * 2 ^ n" by (intro mult_left_mono) (auto simp: durations)
  then have lo: "minute \<le> min (minute * 2 ^ n) hour" by (simp add: durations)
  have hi: "min (minute * 2 ^ n) hour + min (minute * 2 ^ n) hour div 100 \<le> hour + hour div 100"
    by (intro add_mono zdiv_mono1) auto
  show "minute \<le> fst (Step d (nth_backoff n))" "fst (Step d (nth_backoff n)) \<le> hour + hour div 100"
    using Step_nth_backoff_bounds [OF assms, of n] lo hi by linarith+
qed

lemma delay_after_bounds:
  assumes "input_ok inp" "op_backoff c = nth_backoff n"
  shows "min_delay \<le> delay_after inp c" "delay_after inp c \<le> max_delay"
  using Step_any_bounds [of "in_draw1 inp" n] Step_default_bounds [of "in_draw2 inp"] assms
  by (auto simp: delay_after_def delay_table_def input_ok_def min_delay_def max_delay_def durations)

lemma backoff_after_nth:
  assumes "op_backoff c = nth_backoff n"
  shows "\<exists>m. backoff_after inp c = nth_backoff m"
  using assms snd_Step_nth_backoff [of "in_draw1 inp" n] snd_Step_nth_backoff [of "in_draw2 inp" 0]
  by (auto simp: backoff_after_def nth_backoff_0 intro: exI [of _ "0 :: nat"])

lemma sync_admits_fields:
  assumes "sync_admits inp c = Some c'"
  shows "nextCheck c' = nextCheck c" "lastCheck c' = lastCheck c" "op_backoff c' = op_backoff c"
  using assms by (auto simp: sync_admits_def split: sum.splits bool.splits if_splits)

lemma sync_skips:
  assumes "sync_admits inp c = Some c'" "\<not> nextCheck c < in_nowSync inp"
  shows "sync inp c = (Returned None, c', [])"
  using assms by (simp add: sync_admitted runSyncChecks_skip sync_admits_fields)

lemma sync_performs:
  assumes "sync_admits inp c = Some c'" "nextCheck c < in_nowSync inp"
  shows "\<exists>r effs. sync inp c =
      (Returned (in_updateErr inp),
       c'\<lparr>op_backoff := backoff_after inp c', lastCheck := in_nowCheck inp,
         nextCheck := in_nowCheck inp + delay_after inp c'\<rparr>,
       effs @ [QueueAddAfter (delay_after inp c'), UpdateStatus (availableCnd r)])
      \<and> performed_check inp c = Some (delay_after inp c', r)
      \<and> checkError r = round_error inp c' \<and> blockUpgrade r = round_blocks inp c'"
proof -
  have "nextCheck c' < in_nowSync inp" using assms by (simp add: sync_admits_fields)
  from runSyncChecks_round [OF this] show ?thesis
    using assms by (auto simp: sync_admitted performed_check_def)
qed

lemma performed_check_iff:
  "performed_check inp c \<noteq> None \<longleftrightarrow> sync_admits inp c \<noteq> None \<and> nextCheck c < in_nowSync inp"
proof (cases "sync_admits inp c")
  case None
  then show ?thesis by (simp add: performed_check_def)
next
  case (Some c')
  then show ?thesis
    using runSyncChecks_performs [of inp c' NewClusterInfo] sync_admits_fields [OF Some]
    by (auto simp: performed_check_def split: prod.splits)
qed

lemma sync_inv:
  assumes "op_inv c" "input_ok inp"
  shows "op_inv (fst (snd (sync inp c)))"
proof (cases "sync_admits inp c")
  case None
  then show ?thesis using assms(1) by (simp add: op_inv_def sync_refused)
next
  case (Some c')
  note fields = sync_admits_fields [OF Some]
  obtain n where n: "op_backoff c' = nth_backoff n" using assms(1) fields by (auto simp: op_inv_def)
  show ?thesis
  proof (cases "nextCheck c < in_nowSync inp")
    case True
    then show ?thesis
      using sync_performs [OF Some True] delay_after_bounds [OF assms(2) n] backoff_after_nth [OF n]
      by (auto simp: op_inv_def)
  next
    case False
    then show ?thesis using sync_skips [OF Some False] assms(1) fields by (simp add: op_inv_def)
  qed
qed

end
