(* ===== verification/OperatorRuns.thy ===== *)
theory OperatorRuns
  imports OperatorDelays
begin

text \<open>
  Sequences of \<^verbatim>\<open>sync\<close> calls: the queue of the controller runs one at a time, until one of
  them leaves the process. A run is a fold of \<^verbatim>\<open>sync\<close> over its inputs; the log of a run lists
  the rounds of checks it performed. The invariant of the controller's timers, the spacing of
  the rounds, the exponential delays after failures and the restarts of the process are
  statements about all runs from the initial state.
\<close>

section \<open>Runs and their logs\<close>

fun sync_run :: "sync_input list \<Rightarrow> operator_state \<Rightarrow> operator_state" where
  "sync_run [] c = c"
| "sync_run (inp # inps) c =
     (case sync inp c of
        (Exited, c', _) \<Rightarrow> c'
      | (Returned _, c', _) \<Rightarrow> sync_run inps c')"

fun run_exits :: "sync_input list \<Rightarrow> operator_state \<Rightarrow> bool" where
  "run_exits [] c = False"
| "run_exits (inp # inps) c =
     (case sync inp c of (Exited, _) \<Rightarrow> True | (Returned _, c', _) \<Rightarrow> run_exits inps c')"

record round =
  rd_time :: int
  rd_delay :: duration
  rd_result :: clusterCheckResult

fun round_log :: "sync_input list \<Rightarrow> operator_state \<Rightarrow> round list" where
  "round_log [] c = []"
| "round_log (inp # inps) c =
     (case performed_check inp c of
        None \<Rightarrow> []
      | Some (dly, r) \<Rightarrow> [\<lparr>rd_time = in_nowCheck inp, rd_delay = dly, rd_result = r\<rparr>])
     @ (case sync inp c of (Exited, _) \<Rightarrow> [] | (Returned _, c', _) \<Rightarrow> round_log inps c')"

lemma sync_run_invariant:
  assumes "P c" "\<And>inp c. inp \<in> set inps \<Longrightarrow> P c \<Longrightarrow> P (fst (snd (sync inp c)))"
  shows "P (sync_run inps c)"
  using assms
proof (induction inps arbitrary: c)
  case (Cons inp inps)
  from Cons.prems(2) [of inp c] Cons.prems(1) have "P (fst (snd (sync inp c)))" by simp
  moreover from this have "P (sync_run inps (fst (snd (sync inp c))))"
    by (rule Cons.IH) (auto intro: Cons.prems(2))
  ultimately show ?case by (auto split: prod.split sync_result.split)
qed simp

lemma performed_check_admitted:
  assumes "performed_check inp c \<noteq> None"
  obtains c' where "sync_admits inp c = Some c'" "nextCheck c < in_nowSync inp"
  using assms performed_check_iff [of inp c] by auto

lemma performed_check_None:
  assumes "performed_check inp c = None"
  shows "nextCheck (fst (snd (sync inp c))) = nextCheck c"
    "lastCheck (fst (snd (sync inp c))) = lastCheck c"
    "op_backoff (fst (snd (sync inp c))) = op_backoff c"
proof -
  have "nextCheck (fst (snd (sync inp c))) = nextCheck c \<and>
    lastCheck (fst (snd (sync inp c))) = lastCheck c \<and>
    op_backoff (fst (snd (sync inp c))) = op_backoff c"
  proof (cases "sync_admits inp c")
    case None
    then show ?thesis by (simp add: sync_refused)
  next
    case (Some c')
    with assms have "\<not> nextCheck c < in_nowSync inp" using performed_check_iff [of inp c] by simp
    from sync_skips [OF Some this] sync_admits_fields [OF Some] show ?thesis by simp
  qed
  then show "nextCheck (fst (snd (sync inp c))) = nextCheck c"
    "lastCheck (fst (snd (sync inp c))) = lastCheck c"
    "op_backoff (fst (snd (sync inp c))) = op_backoff c" by simp_all
qed

lemma performed_check_Some:
  assumes "performed_check inp c = Some (dly, r)"
  shows "\<exists>c' effs. sync_admits inp c = Some c' \<and> nextCheck c < in_nowSync inp \<and>
    dly = delay_after inp c' \<and> checkError r = round_error inp c' \<and> blockUpgrade r = round_blocks inp c' \<and>
    sync inp c =
      (Returned (in_updateErr inp),
       c'\<lparr>op_backoff := backoff_after inp c', lastCheck := in_nowCheck inp,
         nextCheck := in_nowCheck inp + dly\<rparr>,
       effs @ [QueueAddAfter dly, UpdateStatus (availableCnd r)])"
proof -
  obtain c' where c': "sync_admits inp c = Some c'" "nextCheck c < in_nowSync inp"
    using performed_check_admitted [of inp c] assms by auto
  from sync_performs [OF c'] assms show ?thesis using c' by auto
qed

section \<open>The invariant of the timers\<close>

lemma sync_run_inv:
  assumes "list_all input_ok inps" "op_inv c"
  shows "op_inv (sync_run inps c)"
  using assms by (intro sync_run_invariant [of op_inv]) (auto simp: list_all_iff intro: sync_inv)

text \<open>
  C5: Whatever the API answers, the checks report and the clock says, over any sequence of
  \<^verbatim>\<open>sync\<close> calls: the backoff is always one the default backoff steps to, never an exhausted or
  corrupted one, and once a round has run, the next one is due no earlier than one minute and no
  later than 24 hours after it.
\<close>

theorem controller_timers_invariant:
  assumes "list_all input_ok inps"
    and "c = sync_run inps NewVSphereProblemDetectorController"
  shows "(\<exists>n. op_backoff c = nth_backoff n) \<and>
    (nextCheck c = 0 \<and> lastCheck c = 0
     \<or> lastCheck c + minute \<le> nextCheck c \<and> nextCheck c \<le> lastCheck c + 24 * hour)"
  using sync_run_inv [OF assms(1) op_inv_New] assms(2)
  by (simp add: op_inv_def min_delay_def max_delay_def)

definition sample_infra :: infrastructure where
  "sample_infra = \<lparr>CloudConfig_Name = ''c'', CloudConfig_Key = ''k'', spec_VSphere = None,
     PlatformStatus = Some ''VSphere''\<rparr>"

text \<open>An input whose round fails: the checker cannot connect.\<close>

definition failing_input :: "int \<Rightarrow> string \<Rightarrow> sync_input" where
  "failing_input now driver =
     \<lparr>in_OperatorState = Inr ''Managed'', in_Infrastructure = Inr sample_infra,
      in_ClusterCSIDriver = Inr driver, in_nowSync = now, in_nowCheck = now,
      in_draw1 = 1 / 2, in_draw2 = 0,
      in_checker = (\<lambda>_ ci. (Inl (Errorf ''no route''), ci)), in_names = [], in_hosts = [],
      in_hws = [], in_updateErr = None\<rparr>"

lemma failing_input_ok: "input_ok (failing_input now d)"
  by (simp add: input_ok_def failing_input_def draw_ok_def)

theorem controller_timers_invariant_witness:
  "\<exists>n. op_backoff (sync_run [failing_input 5 ''Managed'', failing_input 9 ''Managed'']
          NewVSphereProblemDetectorController) = nth_backoff n"
  using controller_timers_invariant
    [of "[failing_input 5 ''Managed'', failing_input 9 ''Managed'']", OF _ refl]
  by (simp add: failing_input_ok)

section \<open>The spacing of the rounds\<close>

lemma round_log_after:
  assumes "op_inv c" "list_all input_ok inps" "list_all (\<lambda>i. in_nowSync i \<le> in_nowCheck i) inps"
  shows "(\<forall>rd \<in> set (round_log inps c). nextCheck c < rd_time rd) \<and>
    sorted_wrt (\<lambda>a b. rd_time a + rd_delay a < rd_time b \<and> minute \<le> rd_delay a) (round_log inps c)"
  using assms
proof (induction inps arbitrary: c)
  case (Cons inp inps)
  let ?c = "fst (snd (sync inp c))"
  have ok: "input_ok inp" "in_nowSync inp \<le> in_nowCheck inp" using Cons.prems by auto
  have inv: "op_inv ?c" by (rule sync_inv [OF Cons.prems(1) ok(1)])
  have IH: "(\<forall>rd \<in> set (round_log inps ?c). nextCheck ?c < rd_time rd) \<and>
    sorted_wrt (\<lambda>a b. rd_time a + rd_delay a < rd_time b \<and> minute \<le> rd_delay a) (round_log inps ?c)"
    using Cons.IH [OF inv] Cons.prems by simp
  show ?case
  proof (cases "performed_check inp c")
    case None
    then show ?thesis using IH performed_check_None [OF None]
      by (auto split: prod.splits sync_result.splits)
  next
    case (Some p)
    then obtain dly r where p: "performed_check inp c = Some (dly, r)" by (cases p) auto
    from performed_check_Some [OF p] obtain c' effs where c':
      "sync_admits inp c = Some c'" "nextCheck c < in_nowSync inp" "dly = delay_after inp c'"
      "sync inp c = (Returned (in_updateErr inp),
         c'\<lparr>op_backoff := backoff_after inp c', lastCheck := in_nowCheck inp,
           nextCheck := in_nowCheck inp + dly\<rparr>, effs @ [QueueAddAfter dly, UpdateStatus (availableCnd r)])"
      by blast
    obtain n where "op_backoff c' = nth_backoff n"
      using Cons.prems(1) sync_admits_fields [OF c'(1)] by (auto simp: op_inv_def)
    from delay_after_bounds(1) [OF ok(1) this] c'(3) have d: "minute \<le> dly"
      by (simp add: min_delay_def)
    have "nextCheck c < in_nowCheck inp" using c'(2) ok(2) by linarith
    moreover have "nextCheck c < rd_time rd" if "rd \<in> set (round_log inps ?c)" for rd
    proof -
      have "in_nowCheck inp + dly < rd_time rd" using IH that c'(4) by simp
      moreover have "0 < minute" by (simp add: durations)
      ultimately show ?thesis using d \<open>nextCheck c < in_nowCheck inp\<close> by linarith
    qed
    ultimately show ?thesis using IH c'(4) d by (simp add: p)
  qed
qed simp

text \<open>
  C7: The rounds of one run never come closer than the delay the earlier one asked for, and that
  delay is at least a minute: however often the informers wake the controller, and whatever the
  checks return, it does not query vCenter more often.
\<close>

theorem rounds_keep_their_distance:
  assumes "list_all input_ok inps" "list_all (\<lambda>i. in_nowSync i \<le> in_nowCheck i) inps"
    and "rounds = round_log inps NewVSphereProblemDetectorController"
    and "i < j" "j < length rounds"
  shows "rd_time (rounds ! i) + rd_delay (rounds ! i) < rd_time (rounds ! j) \<and> minute \<le> rd_delay (rounds ! i)"
  using round_log_after [OF op_inv_New assms(1,2)] assms(3,4,5)
  by (metis (no_types, lifting) sorted_wrt_nth_less)

lemma sync_admits_failing:
  "sync_admits (failing_input now ''Managed'') c =
     (if oldManagedState c = ''Removed'' then None
      else Some (c\<lparr>Silenced := False, oldManagedState := ''Managed''\<rparr>))"
  by (auto simp: sync_admits_def failing_input_def platformSupported_def sample_infra_def
      VSpherePlatformType_def Managed_def Removed_def checkStateChange_def split: bool.splits)

lemma round_failing_input:
  "round_failed (failing_input now d) c" "round_error (failing_input now d) c = Some (Errorf ''no route'')"
  by (simp_all add: round_failed_def round_error_def round_answer_def failing_input_def)

lemma delay_failing_input:
  "delay_after (failing_input now d) c = fst (Step (1 / 2) (op_backoff c))"
  "backoff_after (failing_input now d) c = snd (Step (1 / 2) (op_backoff c))"
  by (simp_all add: delay_after_def delay_table_def round_failing_input backoff_after_def)
    (simp_all add: failing_input_def)

lemma failing_input_proj [simp]:
  "in_nowSync (failing_input now d) = now" "in_nowCheck (failing_input now d) = now"
  "in_ClusterCSIDriver (failing_input now d) = Inr d"
  by (simp_all add: failing_input_def)

lemma failing_performed:
  assumes "nextCheck c < now" "oldManagedState c \<noteq> ''Removed''"
  shows "\<exists>r e effs. performed_check (failing_input now ''Managed'') c
      = Some (fst (Step (1 / 2) (op_backoff c)), r) \<and> checkError r \<noteq> None \<and>
    sync (failing_input now ''Managed'') c = (Returned e, c\<lparr>Silenced := False,
      oldManagedState := ''Managed'', op_backoff := snd (Step (1 / 2) (op_backoff c)),
      lastCheck := now, nextCheck := now + fst (Step (1 / 2) (op_backoff c))\<rparr>, effs)"
proof -
  have adm: "sync_admits (failing_input now ''Managed'') c
      = Some (c\<lparr>Silenced := False, oldManagedState := ''Managed''\<rparr>)"
    using assms(2) by (simp add: sync_admits_failing)
  show ?thesis
    using sync_performs [OF adm] assms(1) round_failing_input(2) [of now "''Managed''"]
    by (auto simp: delay_failing_input)
qed

lemma Step_default_half: "Step (1 / 2) defaultBackoff
    = (60300000000, defaultBackoff\<lparr>Duration := 120000000000, Steps := MaxInt32 - 1\<rparr>)"
  by (simp add: Step_def delay_def defaultBackoff_def durations MaxInt32_def trunc_rat_def Jitter_def
      Let_def)

definition two_failures :: "sync_input list" where
  "two_failures = [failing_input 5 ''Managed'', failing_input 100000000000 ''Managed'']"

lemma two_failures_log: "length (round_log two_failures NewVSphereProblemDetectorController) = 2"
proof -
  let ?c0 = NewVSphereProblemDetectorController
  have New: "nextCheck ?c0 = 0" "oldManagedState ?c0 = []" "op_backoff ?c0 = defaultBackoff"
    by (simp_all add: NewVSphereProblemDetectorController_def)
  let ?i1 = "failing_input 5 ''Managed''" and ?i2 = "failing_input 100000000000 ''Managed''"
  obtain r1 e1 effs1 c1 where 1: "performed_check ?i1 ?c0 = Some (60300000000, r1)"
      "sync ?i1 ?c0 = (Returned e1, c1, effs1)" "nextCheck c1 = 60300000005"
      "oldManagedState c1 = ''Managed''"
    using failing_performed [of ?c0 5] by (auto simp: New Step_default_half)
  obtain d2 r2 e2 c2 effs2 where 2: "performed_check ?i2 c1 = Some (d2, r2)"
      "sync ?i2 c1 = (Returned e2, c2, effs2)"
    using failing_performed [of c1 100000000000] 1(3,4) by auto
  show ?thesis using 1 2 by (simp add: two_failures_def)
qed

lemma two_failures_ok:
  "list_all input_ok two_failures" "list_all (\<lambda>i. in_nowSync i \<le> in_nowCheck i) two_failures"
  by (simp_all add: two_failures_def failing_input_ok)

theorem rounds_keep_their_distance_witness:
  "minute \<le> rd_delay (round_log two_failures NewVSphereProblemDetectorController ! 0)"
  using rounds_keep_their_distance [OF two_failures_ok refl, of 0 1] by (simp add: two_failures_log)

section \<open>Exponential delays after failures\<close>

lemma round_log_failing:
  assumes "list_all input_ok inps" "list_all (\<lambda>i. in_ClusterCSIDriver i \<noteq> Inr Removed) inps"
    and "op_backoff c = nth_backoff n"
    and "\<forall>rd \<in> set (round_log inps c). checkError (rd_result rd) \<noteq> None"
    and "k < length (round_log inps c)"
  shows "min (minute * 2 ^ (n + k)) hour \<le> rd_delay (round_log inps c ! k) \<and>
    rd_delay (round_log inps c ! k)
      \<le> min (minute * 2 ^ (n + k)) hour + min (minute * 2 ^ (n + k)) hour div 100"
  using assms
proof (induction inps arbitrary: c n k)
  case (Cons inp inps)
  let ?c = "fst (snd (sync inp c))"
  show ?case
  proof (cases "performed_check inp c")
    case None
    have "op_backoff ?c = nth_backoff n" using performed_check_None [OF None] Cons.prems by simp
    from Cons.IH [OF _ _ this, of k] show ?thesis
      using Cons.prems None by (auto split: prod.splits sync_result.splits)
  next
    case (Some p)
    then obtain dly r where p: "performed_check inp c = Some (dly, r)" by (cases p) auto
    from performed_check_Some [OF p] obtain c' effs where c':
      "sync_admits inp c = Some c'" "dly = delay_after inp c'" "checkError r = round_error inp c'"
      "sync inp c = (Returned (in_updateErr inp),
         c'\<lparr>op_backoff := backoff_after inp c', lastCheck := in_nowCheck inp,
           nextCheck := in_nowCheck inp + dly\<rparr>, effs @ [QueueAddAfter dly, UpdateStatus (availableCnd r)])"
      by blast
    have b: "op_backoff c' = nth_backoff n" using Cons.prems(3) sync_admits_fields [OF c'(1)] by simp
    have loud: "\<not> Silenced c'"
      using c'(1) Cons.prems(2) by (auto simp: sync_admits_def split: sum.splits bool.splits if_splits)
    have fails: "round_error inp c' \<noteq> None" using Cons.prems(4) p c'(3) by simp
    have dly: "dly = fst (Step (in_draw1 inp) (nth_backoff n))"
      using loud fails b c'(2) by (auto simp: delay_after_def delay_table_def)
    have next_b: "op_backoff ?c = nth_backoff (Suc n)"
      using loud fails b c'(4) by (simp add: backoff_after_def snd_Step_nth_backoff)
    have draw: "draw_ok (in_draw1 inp)" using Cons.prems(1) by (simp add: input_ok_def)
    show ?thesis
    proof (cases k)
      case 0
      then show ?thesis using Step_nth_backoff_bounds [OF draw, of n] p dly by simp
    next
      case (Suc k')
      from Cons.IH [OF _ _ next_b, of k'] show ?thesis
        using Cons.prems c'(4) p Suc by simp
    qed
  qed
qed simp

text \<open>
  C6: While every round reports an error and the driver is not removed, the delays grow
  exponentially from one minute and stay at one hour from the seventh on: the delay after the
  k-th failing round (from 0) is \<open>min (2 ^ k minutes) (1 hour)\<close>, plus at most 1 percent of
  jitter.
\<close>

theorem failing_rounds_back_off:
  assumes "list_all input_ok inps" "list_all (\<lambda>i. in_ClusterCSIDriver i \<noteq> Inr Removed) inps"
    and "rounds = round_log inps NewVSphereProblemDetectorController"
    and "\<forall>rd \<in> set rounds. checkError (rd_result rd) \<noteq> None"
    and "k < length rounds"
  shows "min (minute * 2 ^ k) hour \<le> rd_delay (rounds ! k) \<and>
    rd_delay (rounds ! k) \<le> min (minute * 2 ^ k) hour + min (minute * 2 ^ k) hour div 100"
  using round_log_failing [OF assms(1,2), of NewVSphereProblemDetectorController 0 k] assms(3,4,5)
  by (simp add: NewVSphereProblemDetectorController_def nth_backoff_0)

lemma two_failures_errors:
  "\<forall>rd \<in> set (round_log two_failures NewVSphereProblemDetectorController).
     checkError (rd_result rd) \<noteq> None"
proof -
  have *: "checkError r \<noteq> None" if "performed_check (failing_input now d) c = Some (dly, r)" for now d c dly r
    using performed_check_Some [OF that] by (auto simp: round_failing_input)
  show ?thesis
    by (auto simp: two_failures_def split: option.splits prod.splits sync_result.splits dest: * [OF sym])
qed

theorem failing_rounds_back_off_witness:
  "120 * second \<le> rd_delay (round_log two_failures NewVSphereProblemDetectorController ! 1) \<and>
   rd_delay (round_log two_failures NewVSphereProblemDetectorController ! 1) \<le> 121 * second + second div 5"
proof -
  have "list_all (\<lambda>i. in_ClusterCSIDriver i \<noteq> Inr Removed) two_failures"
    by (simp add: two_failures_def Removed_def)
  from failing_rounds_back_off [OF two_failures_ok(1) this refl two_failures_errors, of 1]
  show ?thesis by (simp add: two_failures_log durations)
qed

end
