(* ===== verification/OperatorEffects.thy ===== *)
theory OperatorEffects
  imports OperatorRuns
begin

text \<open>
  What a call of \<^verbatim>\<open>sync\<close> does to the outside: the events, the metric, the condition, the
  timer that wakes the controller up again, and the restart of the process.
\<close>

section \<open>The effects of a round\<close>

definition round_events :: "sync_input \<Rightarrow> operator_state \<Rightarrow> effect list" where
  "round_events inp c = (case fst (round_answer inp c) of
     Inl _ \<Rightarrow> []
   | Inr rc \<Rightarrow> if Silenced c then [] else reportResults (fst (Collect_results rc (in_names inp))))"

lemma availableCnd_checkError:
  "availableCnd r = availableCnd \<lparr>checkError = checkError r, blockUpgrade = b, blockUpgradeReason = s\<rparr>"
  by (simp add: availableCnd_def Let_def)

lemma runSyncChecks_effects:
  assumes "nextCheck c < in_nowSync inp"
  shows "snd (snd (runSyncChecks inp c NewClusterInfo)) =
    round_events inp c @ [SyncErrorGauge (if round_error inp c \<noteq> None then 1 else 0)]"
  using assms
  by (auto simp: runSyncChecks_def runChecks_round round_events_def Let_def split: prod.splits)

lemma sync_effects:
  assumes "sync_admits inp c = Some c'" "nextCheck c < in_nowSync inp"
  shows "snd (snd (sync inp c)) = round_events inp c' @
    [SyncErrorGauge (if round_error inp c' \<noteq> None then 1 else 0),
     QueueAddAfter (delay_after inp c'),
     UpdateStatus (availableCnd \<lparr>checkError = round_error inp c', blockUpgrade = False,
       blockUpgradeReason = []\<rparr>)]"
proof -
  have next': "nextCheck c' < in_nowSync inp" using assms by (simp add: sync_admits_fields)
  from runSyncChecks_round [OF next'] obtain r effs where
    r: "runSyncChecks inp c' NewClusterInfo = ((delay_after inp c', r, True),
          c'\<lparr>op_backoff := backoff_after inp c', lastCheck := in_nowCheck inp\<rparr>, effs)"
      "checkError r = round_error inp c'" by blast
  from runSyncChecks_effects [OF next'] r(1)
  have "effs = round_events inp c' @ [SyncErrorGauge (if round_error inp c' \<noteq> None then 1 else 0)]"
    by simp
  then show ?thesis
    using r availableCnd_checkError [of r False "[]"] by (simp add: sync_admitted [OF assms(1)])
qed

lemma sync_admits_driver:
  assumes "sync_admits inp c = Some c'"
  shows "in_ClusterCSIDriver inp = Inr (oldManagedState c')" "Silenced c' = (oldManagedState c' = Removed)"
    "in_OperatorState inp = Inr Managed" "platformSupported (in_Infrastructure inp) = Inr True"
    "\<not> fst (checkStateChange (oldManagedState c') c)"
  using assms by (auto simp: sync_admits_def split: sum.splits bool.splits if_splits)

definition is_event :: "effect \<Rightarrow> bool" where
  "is_event e = (case e of WarningEvent _ _ \<Rightarrow> True | NormalEvent _ _ \<Rightarrow> True | _ \<Rightarrow> False)"

lemma round_events_are_events: "filter is_event (round_events inp c) = round_events inp c"
  by (auto simp: round_events_def reportResults_def is_event_def filter_id_conv
      split: sum.splits option.splits)

section \<open>Properties\<close>

text \<open>
  The timing of a round, on every path: the controller remembers when the round started,
  schedules the next one and the wake-up for the same delay, and that delay is the pre-computed
  backoff step when the checker fails or a check reports an error, 24 hours when the driver is
  removed and the checker answered, the first step of a fresh backoff when only the deprecation
  check complains, and one hour otherwise; the backoff restarts unless the round failed.
\<close>

theorem round_schedules_by_table:
  assumes "performed_check inp c = Some (dly, r)" "in_ClusterCSIDriver inp = Inr d"
    and "sync inp c = (res, c', effs)"
    and "failed = (\<exists>e. fst (in_checker inp (d = Removed) NewClusterInfo) = Inl e)"
  shows "dly = delay_table (d = Removed) failed (checkError r \<noteq> None) (blockUpgrade r)
             (fst (Step (in_draw1 inp) (op_backoff c))) (fst (Step (in_draw2 inp) defaultBackoff))
       \<and> lastCheck c' = in_nowCheck inp \<and> nextCheck c' = in_nowCheck inp + dly
       \<and> QueueAddAfter dly \<in> set effs
       \<and> (SyncErrorGauge (if checkError r = None then 0 else 1)) \<in> set effs
       \<and> op_backoff c' =
           (if failed \<or> checkError r \<noteq> None \<and> d \<noteq> Removed then snd (Step (in_draw1 inp) (op_backoff c))
            else if blockUpgrade r \<and> checkError r = None \<and> d \<noteq> Removed
            then snd (Step (in_draw2 inp) defaultBackoff)
            else defaultBackoff)"
proof -
  from performed_check_Some [OF assms(1)] obtain c1 effs1 where
    adm: "sync_admits inp c = Some c1" and now: "nextCheck c < in_nowSync inp"
    and dly: "dly = delay_after inp c1" and r: "checkError r = round_error inp c1" "blockUpgrade r = round_blocks inp c1"
    and s: "sync inp c = (Returned (in_updateErr inp),
       c1\<lparr>op_backoff := backoff_after inp c1, lastCheck := in_nowCheck inp,
         nextCheck := in_nowCheck inp + dly\<rparr>,
       effs1 @ [QueueAddAfter dly, UpdateStatus (availableCnd r)])"
    by blast
  note fields = sync_admits_fields [OF adm]
  have sil: "Silenced c1 = (d = Removed)" using sync_admits_driver [OF adm] assms(2) by simp
  have failed: "failed = round_failed inp c1"
    using assms(4) sil by (simp add: round_failed_def round_answer_def)
  have c': "c' = c1\<lparr>op_backoff := backoff_after inp c1, lastCheck := in_nowCheck inp,
         nextCheck := in_nowCheck inp + dly\<rparr>" using s assms(3) by simp
  have eff: "QueueAddAfter dly \<in> set effs"
    "SyncErrorGauge (if checkError r = None then 0 else 1) \<in> set effs"
    using sync_effects [OF adm now] assms(3) dly r by simp_all
  have "dly = delay_table (d = Removed) failed (checkError r \<noteq> None) (blockUpgrade r)
             (fst (Step (in_draw1 inp) (op_backoff c))) (fst (Step (in_draw2 inp) defaultBackoff))"
    using dly r sil failed fields by (simp add: delay_after_def)
  moreover have "op_backoff c' =
           (if failed \<or> checkError r \<noteq> None \<and> d \<noteq> Removed then snd (Step (in_draw1 inp) (op_backoff c))
            else if blockUpgrade r \<and> checkError r = None \<and> d \<noteq> Removed
            then snd (Step (in_draw2 inp) defaultBackoff)
            else defaultBackoff)"
    using c' r sil failed fields by (auto simp: backoff_after_def blocked_only_def)
  ultimately show ?thesis using c' eff by simp
qed

lemma first_failure_performed:
  "\<exists>r. performed_check (failing_input 5 ''Managed'') NewVSphereProblemDetectorController
     = Some (60300000000, r)"
  using failing_performed [of NewVSphereProblemDetectorController 5]
  by (auto simp: NewVSphereProblemDetectorController_def Step_default_half)

theorem round_schedules_by_table_witness:
  "nextCheck (fst (snd (sync (failing_input 5 ''Managed'') NewVSphereProblemDetectorController)))
     = 60300000005"
proof -
  obtain r where r: "performed_check (failing_input 5 ''Managed'') NewVSphereProblemDetectorController
     = Some (60300000000, r)" using first_failure_performed by blast
  obtain res c' effs where
    s: "sync (failing_input 5 ''Managed'') NewVSphereProblemDetectorController = (res, c', effs)"
    by (cases "sync (failing_input 5 ''Managed'') NewVSphereProblemDetectorController") auto
  from round_schedules_by_table [OF r _ s refl] show ?thesis using s by simp
qed

text \<open>The timers a call starts, by their delays.\<close>

definition timers :: "effect list \<Rightarrow> duration list" where
  "timers effs = concat (map (\<lambda>e. case e of QueueAddAfter w \<Rightarrow> [w] | _ \<Rightarrow> []) effs)"

lemma timers_simps [simp]:
  "timers (xs @ ys) = timers xs @ timers ys" "timers [SyncErrorGauge g, QueueAddAfter w, UpdateStatus cnd] = [w]"
  by (simp_all add: timers_def)

lemma timers_events: "timers (round_events inp c) = []"
  by (auto simp: timers_def round_events_def reportResults_def split: sum.split option.split)

lemma round_log_Nil:
  "round_log inps c = [] \<Longrightarrow> nextCheck (sync_run inps c) = nextCheck c"
proof (induction inps arbitrary: c)
  case (Cons inp inps)
  have none: "performed_check inp c = None" using Cons.prems by (auto split: option.splits)
  obtain res c1 effs where s: "sync inp c = (res, c1, effs)" by (cases "sync inp c") auto
  have "nextCheck c1 = nextCheck c" using performed_check_None(1) [OF none] s by simp
  then show ?case using Cons s none by (cases res) auto
qed simp

text \<open>
  C8: The wake-up the controller schedules is not lost. A round starts exactly one timer, of the delay
  to the next check. The timer is started after the round read the clock; when it fires, its delay
  later, a call of \<^verbatim>\<open>sync\<close> that passes the gate runs the checks, unless a call before it, on
  another occasion, has already run them: no round is skipped because the timer came too early.
\<close>

theorem wake_up_not_lost:
  assumes "performed_check inp c = Some (dly, r)"
    and "sync inp c = (res, c', effs)"
  shows "\<exists>w. timers effs = [w] \<and> nextCheck c' = in_nowCheck inp + w \<and>
    (\<forall>before inp' timer_start.
       in_nowCheck inp < timer_start \<and> timer_start + w \<le> in_nowSync inp' \<and>
       round_log before c' = [] \<and> sync_admits inp' (sync_run before c') \<noteq> None \<longrightarrow>
       performed_check inp' (sync_run before c') \<noteq> None)"
proof (intro exI conjI allI impI)
  from performed_check_Some [OF assms(1)] obtain c1 where adm: "sync_admits inp c = Some c1"
    and now: "nextCheck c < in_nowSync inp" and dly: "dly = delay_after inp c1"
    and c': "nextCheck c' = in_nowCheck inp + dly"
    using assms(2) by auto
  show "timers effs = [dly]"
    using sync_effects [OF adm now] assms(2) by (simp add: timers_events dly)
  show "nextCheck c' = in_nowCheck inp + dly" by (rule c')
  fix before inp' timer_start
  assume later: "in_nowCheck inp < timer_start \<and> timer_start + dly \<le> in_nowSync inp' \<and>
    round_log before c' = [] \<and> sync_admits inp' (sync_run before c') \<noteq> None"
  then have "nextCheck (sync_run before c') < in_nowSync inp'"
    using round_log_Nil [of before c'] c' by simp
  with later show "performed_check inp' (sync_run before c') \<noteq> None"
    by (simp only: performed_check_iff simp_thms)
qed

theorem wake_up_not_lost_witness:
  "timers (snd (snd (sync (failing_input 5 ''Managed'') NewVSphereProblemDetectorController))) = [60300000000] \<and>
   performed_check (failing_input 60300000006 ''Managed'')
     (fst (snd (sync (failing_input 5 ''Managed'') NewVSphereProblemDetectorController))) \<noteq> None"
proof -
  let ?inp = "failing_input 5 ''Managed''" and ?c = NewVSphereProblemDetectorController
  obtain r where r: "performed_check ?inp ?c = Some (60300000000, r)"
    using first_failure_performed by blast
  have "oldManagedState (fst (snd (sync ?inp ?c))) = ''Managed''"
    and due: "nextCheck (fst (snd (sync ?inp ?c))) = 5 + 60300000000"
    using failing_performed [of ?c 5] by (auto simp: NewVSphereProblemDetectorController_def Step_default_half)
  then have adm: "sync_admits (failing_input 60300000006 ''Managed'') (fst (snd (sync ?inp ?c))) \<noteq> None"
    by (simp add: sync_admits_failing)
  obtain res c' effs where s: "sync ?inp ?c = (res, c', effs)" by (cases "sync ?inp ?c") auto
  obtain w where w: "timers effs = [w]" "nextCheck c' = in_nowCheck ?inp + w"
    and wake: "\<And>before inp' timer_start. in_nowCheck ?inp < timer_start \<and> timer_start + w \<le> in_nowSync inp' \<and>
       round_log before c' = [] \<and> sync_admits inp' (sync_run before c') \<noteq> None \<Longrightarrow>
       performed_check inp' (sync_run before c') \<noteq> None"
    using wake_up_not_lost [OF r s] by blast
  have "w = 60300000000" using w(2) due s by (simp add: failing_input_def)
  moreover from this have "performed_check (failing_input 60300000006 ''Managed'') c' \<noteq> None"
    using wake [of 6 "failing_input 60300000006 ''Managed''" "[]"] adm s by (simp add: failing_input_def)
  ultimately show ?thesis using w(1) s by simp
qed

text \<open>
  C9: The gate. When the operator is not managed, the platform is not vSphere, the driver changed
  between managed and removed, a lister failed, or the next check is not due yet, a call of
  \<^verbatim>\<open>sync\<close> starts no check, sends no event, sets no metric, updates no condition and leaves the
  timers and the backoff alone; the only effect it can have is to leave the process.
\<close>

theorem gate_closed_no_effect:
  assumes "\<not> (in_OperatorState inp = Inr Managed \<and>
      platformSupported (in_Infrastructure inp) = Inr True \<and>
      (\<exists>d. in_ClusterCSIDriver inp = Inr d \<and>
           (oldManagedState c, d) \<notin> {(Managed, Removed), (Removed, Managed)}) \<and>
      nextCheck c < in_nowSync inp)"
    and "sync inp c = (res, c', effs)"
  shows "performed_check inp c = None \<and> set effs \<subseteq> {ProcessExit} \<and>
    lastCheck c' = lastCheck c \<and> nextCheck c' = nextCheck c \<and> op_backoff c' = op_backoff c"
proof -
  have none: "performed_check inp c = None"
  proof (rule ccontr)
    assume "performed_check inp c \<noteq> None"
    then obtain c1 where c1: "sync_admits inp c = Some c1" "nextCheck c < in_nowSync inp"
      by (rule performed_check_admitted)
    from sync_admits_driver [OF c1(1)] c1(2) assms(1) show False
      by (auto simp: checkStateChange_def Managed_def Removed_def split: if_splits)
  qed
  have "set effs \<subseteq> {ProcessExit}"
  proof (cases "sync_admits inp c")
    case None
    then show ?thesis using sync_refused(4) [OF None] assms(2) by simp
  next
    case (Some c1)
    with none have "\<not> nextCheck c < in_nowSync inp" using performed_check_iff [of inp c] by simp
    from sync_skips [OF Some this] assms(2) show ?thesis by simp
  qed
  with none performed_check_None [OF none] assms(2) show ?thesis by simp
qed

theorem gate_closed_no_effect_witness:
  "performed_check (failing_input 0 ''Managed'') NewVSphereProblemDetectorController = None"
proof -
  have "\<not> nextCheck NewVSphereProblemDetectorController < in_nowSync (failing_input 0 ''Managed'')"
    by (simp add: NewVSphereProblemDetectorController_def)
  then show ?thesis
    using gate_closed_no_effect [of "failing_input 0 ''Managed''" NewVSphereProblemDetectorController]
    by (metis prod_cases3)
qed

text \<open>
  When the administrator removed the driver (\<^verbatim>\<open>log.Silenced\<close>), a round sends no event at
  all, and unless the checker itself failed the next round is a day away with a fresh backoff,
  whatever the checks reported and whatever the versions say.
\<close>

theorem removed_driver_is_silent:
  assumes "in_ClusterCSIDriver inp = Inr Removed"
    and "performed_check inp c = Some (dly, r)"
    and "sync inp c = (res, c', effs)"
  shows "filter is_event effs = [] \<and>
    ((\<exists>rc. fst (in_checker inp True NewClusterInfo) = Inr rc) \<longrightarrow>
       dly = 24 * hour \<and> op_backoff c' = defaultBackoff)"
proof -
  from performed_check_Some [OF assms(2)] obtain c1 where
    adm: "sync_admits inp c = Some c1" and now: "nextCheck c < in_nowSync inp"
    and r: "checkError r = round_error inp c1" and dly: "dly = delay_after inp c1"
    and c': "op_backoff c' = backoff_after inp c1"
    using assms(3) by auto
  have sil: "Silenced c1" using sync_admits_driver [OF adm] assms(1) by simp
  have eff: "filter is_event effs = []"
    using sync_effects [OF adm now] assms(3) sil
    by (auto simp: round_events_def is_event_def split: sum.splits)
  have "dly = 24 * hour \<and> op_backoff c' = defaultBackoff"
    if "\<exists>rc. fst (in_checker inp True NewClusterInfo) = Inr rc"
  proof -
    have "\<not> round_failed inp c1"
      using that sil by (auto simp: round_failed_def round_answer_def)
    with sil dly c' show ?thesis
      by (simp add: delay_after_def delay_table_def backoff_after_def blocked_only_def)
  qed
  with eff show ?thesis by blast
qed

theorem removed_driver_is_silent_witness:
  "\<exists>effs. snd (snd (sync (failing_input 5 ''Removed'') NewVSphereProblemDetectorController)) = effs
     \<and> filter is_event effs = []"
proof -
  let ?inp = "failing_input 5 ''Removed''" and ?c = NewVSphereProblemDetectorController
  have New: "nextCheck ?c = 0" by (simp add: NewVSphereProblemDetectorController_def)
  have "performed_check ?inp ?c \<noteq> None"
    unfolding performed_check_iff using New
    by (simp add: sync_admits_def failing_input_def platformSupported_def sample_infra_def
        VSpherePlatformType_def Managed_def Removed_def checkStateChange_def
        NewVSphereProblemDetectorController_def)
  then obtain dly r where p: "performed_check ?inp ?c = Some (dly, r)" by auto
  obtain res c' effs where s: "sync ?inp ?c = (res, c', effs)" by (cases "sync ?inp ?c") auto
  from removed_driver_is_silent [OF _ p s] s show ?thesis by (simp add: Removed_def)
qed

lemma reportResults_iff:
  "WarningEvent t m \<in> set (reportResults rs) \<longleftrightarrow>
    (\<exists>r \<in> set rs. \<exists>e. res_Error r = Some e \<and> t = ''FailedVSphere'' @ res_Name r \<and> m = error_text e)"
  "NormalEvent t m \<in> set (reportResults rs) \<longleftrightarrow>
    (\<exists>r \<in> set rs. res_Error r = None \<and> t = ''SucceededVSphere'' @ res_Name r \<and> m = ''Check succeeded'')"
  by (force simp: reportResults_def split: option.splits)+

lemma events_per_check:
  assumes "performed_check inp c \<noteq> None" "in_ClusterCSIDriver inp \<noteq> Inr Removed"
    and "fst (in_checker inp False NewClusterInfo) = Inr (add_results xs)"
    and "iteration_of (results (add_results xs)) (in_names inp)"
    and "sync inp c = (res, c', effs)"
  shows "length (filter is_event effs) = card (res_Name ` set xs) \<and>
    (\<forall>n \<in> res_Name ` set xs.
       (\<exists>m. WarningEvent (''FailedVSphere'' @ n) m \<in> set effs) =
         (\<exists>x \<in> set xs. res_Name x = n \<and> res_Error x \<noteq> None) \<and>
       (\<exists>m. NormalEvent (''SucceededVSphere'' @ n) m \<in> set effs) =
         (\<forall>x \<in> set xs. res_Name x = n \<longrightarrow> res_Error x = None))"
proof -
  obtain c1 where adm: "sync_admits inp c = Some c1" and now: "nextCheck c < in_nowSync inp"
    using assms(1) by (rule performed_check_admitted)
  have sil: "\<not> Silenced c1" using sync_admits_driver [OF adm] assms(2) by auto
  define rs where "rs = fst (Collect_results (add_results xs) (in_names inp))"
  have rs: "map res_Name rs = in_names inp" "distinct (in_names inp)" "set (in_names inp) = res_Name ` set xs"
    "\<forall>r \<in> set rs. res_Error r = None \<longleftrightarrow> (\<forall>x \<in> set xs. res_Name x = res_Name r \<longrightarrow> res_Error x = None)"
    using collect_summary [OF assms(4)] by (auto simp: rs_def)
  have ev: "round_events inp c1 = reportResults rs"
    using assms(3) sil by (simp add: round_events_def round_answer_def rs_def)
  have "filter is_event effs = reportResults rs"
    using sync_effects [OF adm now] assms(5) round_events_are_events [of inp c1] ev
    by (auto simp: is_event_def)
  moreover have "length rs = card (res_Name ` set xs)"
    using rs(1,2,3) by (metis distinct_card length_map)
  ultimately have len: "length (filter is_event effs) = card (res_Name ` set xs)"
    by (simp add: reportResults_def)
  have "(\<exists>m. WarningEvent (''FailedVSphere'' @ n) m \<in> set effs) =
         (\<exists>x \<in> set xs. res_Name x = n \<and> res_Error x \<noteq> None) \<and>
       (\<exists>m. NormalEvent (''SucceededVSphere'' @ n) m \<in> set effs) =
         (\<forall>x \<in> set xs. res_Name x = n \<longrightarrow> res_Error x = None)" if "n \<in> res_Name ` set xs" for n
  proof -
    have "n \<in> res_Name ` set rs" using that rs(1,3) by (metis list.set_map)
    then obtain r where r: "r \<in> set rs" "res_Name r = n" by auto
    have one: "r' = r" if "r' \<in> set rs" "res_Name r' = n" for r'
      using that r rs(1,2) by (metis distinct_map inj_onD)
    have w: "WarningEvent t m \<in> set effs \<longleftrightarrow> WarningEvent t m \<in> set (reportResults rs)"
      "NormalEvent t m \<in> set effs \<longleftrightarrow> NormalEvent t m \<in> set (reportResults rs)" for t m
      using sync_effects [OF adm now, unfolded ev] assms(5) by simp_all
    have A: "(\<exists>m. WarningEvent (''FailedVSphere'' @ n) m \<in> set effs) \<longleftrightarrow> res_Error r \<noteq> None"
      unfolding w reportResults_iff same_append_eq using r one by blast
    have B: "(\<exists>m. NormalEvent (''SucceededVSphere'' @ n) m \<in> set effs) \<longleftrightarrow> res_Error r = None"
      unfolding w reportResults_iff same_append_eq using r one by blast
    have C: "res_Error r = None \<longleftrightarrow> (\<forall>x \<in> set xs. res_Name x = n \<longrightarrow> res_Error x = None)"
      using bspec [OF rs(4) r(1)] unfolding r(2) .
    have D: "(\<exists>x \<in> set xs. res_Name x = n \<and> res_Error x \<noteq> None)
        \<longleftrightarrow> \<not> (\<forall>x \<in> set xs. res_Name x = n \<longrightarrow> res_Error x = None)" by metis
    show ?thesis unfolding A B D C [symmetric] by (intro conjI refl)
  qed
  with len show ?thesis by blast
qed

text \<open>
  In a round of a driver that is not removed, each check that reported a result gets exactly
  one event: a warning when one of its results is an error, a normal event when none is. No other
  event is sent.
\<close>

theorem one_event_per_check:
  assumes "performed_check inp c \<noteq> None" "in_ClusterCSIDriver inp \<noteq> Inr Removed"
    and "fst (in_checker inp False NewClusterInfo) = Inr (add_results xs)"
    and "iteration_of (results (add_results xs)) (in_names inp)"
    and "sync inp c = (res, c', effs)"
  shows "length (filter is_event effs) = card (res_Name ` set xs) \<and>
    (\<forall>n \<in> res_Name ` set xs.
       (\<exists>m. WarningEvent (''FailedVSphere'' @ n) m \<in> set effs) =
         (\<exists>x \<in> set xs. res_Name x = n \<and> res_Error x \<noteq> None) \<and>
       (\<exists>m. NormalEvent (''SucceededVSphere'' @ n) m \<in> set effs) =
         (\<forall>x \<in> set xs. res_Name x = n \<longrightarrow> res_Error x = None))"
  using assms by (rule events_per_check)

definition sample_checks_input :: sync_input where
  "sample_checks_input = failing_input 5 ''Managed''
     \<lparr>in_checker := (\<lambda>_ ci. (Inr (add_results sample_round), ci)), in_names := [''B'', ''A'']\<rparr>"

theorem one_event_per_check_witness:
  "\<exists>m. WarningEvent ''FailedVSphereB'' m
     \<in> set (snd (snd (sync sample_checks_input NewVSphereProblemDetectorController)))"
proof -
  let ?inp = sample_checks_input and ?c = NewVSphereProblemDetectorController
  have p: "performed_check ?inp ?c \<noteq> None"
    unfolding performed_check_iff
    by (simp add: sync_admits_def sample_checks_input_def failing_input_def platformSupported_def
        sample_infra_def VSpherePlatformType_def Managed_def Removed_def checkStateChange_def
        NewVSphereProblemDetectorController_def)
  obtain res c' effs where s: "sync ?inp ?c = (res, c', effs)" by (cases "sync ?inp ?c") auto
  have "in_ClusterCSIDriver ?inp \<noteq> Inr Removed"
    by (simp add: sample_checks_input_def Removed_def)
  from one_event_per_check [OF p this _ _ s, of sample_round] s sample_round_order
  show ?thesis by (auto simp: sample_checks_input_def sample_round_def)
qed

section \<open>Restarts\<close>

text \<open>The driver states the calls of a run see, those of calls that get past the listers.\<close>

definition driver_seen :: "sync_input \<Rightarrow> string option" where
  "driver_seen inp =
     (case (in_OperatorState inp, platformSupported (in_Infrastructure inp), in_ClusterCSIDriver inp) of
        (Inr m, Inr True, Inr d) \<Rightarrow> if m = Managed then Some d else None
      | _ \<Rightarrow> None)"

definition drivers_seen :: "sync_input list \<Rightarrow> string list" where
  "drivers_seen inps = List.map_filter driver_seen inps"

definition flips :: "string \<Rightarrow> string \<Rightarrow> bool" where
  "flips a b \<longleftrightarrow> a = Managed \<and> b = Removed \<or> a = Removed \<and> b = Managed"

fun flip_in :: "string \<Rightarrow> string list \<Rightarrow> bool" where
  "flip_in a [] = False"
| "flip_in a (b # bs) = (flips a b \<or> flip_in b bs)"

lemma flip_in_iff:
  "flip_in a bs \<longleftrightarrow> (\<exists>i < length bs. flips ((a # bs) ! i) (bs ! i))"
proof (induction bs arbitrary: a)
  case (Cons b bs)
  show ?case unfolding flip_in.simps Cons.IH
    by (auto simp: less_Suc_eq_0_disj)
qed simp

lemma sync_driver_seen:
  "driver_seen inp = Some d \<Longrightarrow>
     (fst (sync inp c) = Exited \<longleftrightarrow> flips (oldManagedState c) d) \<and>
     oldManagedState (fst (snd (sync inp c))) = d"
  "driver_seen inp = None \<Longrightarrow> fst (sync inp c) \<noteq> Exited \<and>
     oldManagedState (fst (snd (sync inp c))) = oldManagedState c"
proof -
  have old: "oldManagedState (fst (snd (runSyncChecks inp c NewClusterInfo))) = oldManagedState c" for c
    by (auto simp: runSyncChecks_def runChecks_def Let_def split: prod.splits sum.splits)
  show "driver_seen inp = Some d \<Longrightarrow>
     (fst (sync inp c) = Exited \<longleftrightarrow> flips (oldManagedState c) d) \<and>
     oldManagedState (fst (snd (sync inp c))) = d"
    using old [of "c\<lparr>Silenced := (d = Removed), oldManagedState := d\<rparr>"]
    by (auto simp: driver_seen_def sync_def checkStateChange_def flips_def Let_def updateConditions_def
          Managed_def Removed_def
        split: sum.splits if_splits bool.splits prod.splits)
  show "driver_seen inp = None \<Longrightarrow> fst (sync inp c) \<noteq> Exited \<and>
     oldManagedState (fst (snd (sync inp c))) = oldManagedState c"
    by (auto simp: driver_seen_def sync_def split: sum.splits if_splits bool.splits)
qed

lemma run_exits_flip:
  "run_exits inps c \<longleftrightarrow> flip_in (oldManagedState c) (drivers_seen inps)"
proof (induction inps arbitrary: c)
  case (Cons inp inps)
  let ?s = "sync inp c"
  have "run_exits (inp # inps) c \<longleftrightarrow> fst ?s = Exited \<or> run_exits inps (fst (snd ?s))"
    by (auto split: prod.splits sync_result.splits)
  then show ?case
    using Cons.IH [of "fst (snd ?s)"] sync_driver_seen(1) [of inp _ c] sync_driver_seen(2) [of inp c]
    by (cases "driver_seen inp") (auto simp: drivers_seen_def List.map_filter_def)
qed (simp add: drivers_seen_def List.map_filter_def)

text \<open>
  C10: The process restarts itself exactly when the driver's management state turns from managed to
  removed, or back, between two consecutive calls of \<^verbatim>\<open>sync\<close> that got to read it. A state in
  between (unmanaged, or never set) hides the change.
\<close>

theorem restarts_exactly_on_flips:
  "run_exits inps NewVSphereProblemDetectorController \<longleftrightarrow>
     (\<exists>i. Suc i < length (drivers_seen inps) \<and>
       {drivers_seen inps ! i, drivers_seen inps ! Suc i} = {Managed, Removed})"
proof -
  have neq: "Managed \<noteq> Removed" "Managed \<noteq> []" "Removed \<noteq> []" by (simp_all add: Managed_def Removed_def)
  have flips: "flips a b \<longleftrightarrow> {a, b} = {Managed, Removed}" for a b
    using neq by (auto simp: flips_def doubleton_eq_iff)
  have "flip_in [] (drivers_seen inps) \<longleftrightarrow>
     (\<exists>i. Suc i < length (drivers_seen inps) \<and> flips (drivers_seen inps ! i) (drivers_seen inps ! Suc i))"
    unfolding flip_in_iff using neq
    by (auto simp: flips_def nth_Cons split: nat.splits)
      (metis Suc_pred' not_gr_zero nth_Cons_Suc less_Suc_eq_0_disj)+
  then show ?thesis
    by (simp only: run_exits_flip NewVSphereProblemDetectorController_def operator_state.select_convs flips)
qed

section \<open>The upgrade block\<close>

lemma round_answer_fst:
  "\<forall>s ci. fst (chk s ci) = fst (in_checker inp s ci) \<Longrightarrow>
   fst (round_answer (inp\<lparr>in_checker := chk\<rparr>) c) = fst (round_answer inp c)"
  by (simp add: round_answer_def)

text \<open>
  The decision to block upgrades never reaches the cluster: two checkers that report the same
  results but found different versions, so that one blocks upgrades and the other does not, lead
  to the same events, the same metric and the same condition, from every state. Only the time of
  the next round can differ.
\<close>

theorem upgrade_block_not_reported:
  assumes "\<forall>s ci. fst (chk s ci) = fst (in_checker inp s ci)"
  shows "filter (\<lambda>e. \<forall>d. e \<noteq> QueueAddAfter d) (snd (snd (sync (inp\<lparr>in_checker := chk\<rparr>) c)))
       = filter (\<lambda>e. \<forall>d. e \<noteq> QueueAddAfter d) (snd (snd (sync inp c)))"
proof -
  let ?inp = "inp\<lparr>in_checker := chk\<rparr>"
  have adm: "sync_admits ?inp c = sync_admits inp c" by (simp add: sync_admits_def)
  note ans = round_answer_fst [OF assms]
  show ?thesis
  proof (cases "sync_admits inp c")
    case None
    have "set (snd (snd (sync ?inp c))) = set (snd (snd (sync inp c))) \<and>
        snd (snd (sync ?inp c)) = snd (snd (sync inp c))"
      using None
      by (auto simp: sync_def sync_admits_def checkStateChange_Silenced Let_def
          split: sum.splits if_splits bool.splits prod.splits)
    then show ?thesis by simp
  next
    case (Some c')
    show ?thesis
    proof (cases "nextCheck c < in_nowSync inp")
      case True
      have "round_events ?inp c' = round_events inp c'" "round_error ?inp c' = round_error inp c'"
        by (simp_all add: round_events_def round_error_def ans split: sum.split)
      then show ?thesis
        using sync_effects [of ?inp c c'] sync_effects [of inp c c'] Some True adm by simp
    next
      case False
      then show ?thesis
        using sync_skips [of ?inp c c'] sync_skips [of inp c c'] Some adm by simp
    qed
  qed
qed

theorem upgrade_block_not_reported_witness:
  "filter (\<lambda>e. \<forall>d. e \<noteq> QueueAddAfter d)
     (snd (snd (sync (sample_checks_input\<lparr>in_checker := \<lambda>_ ci.
         (Inr (add_results sample_round), SetHardwareVersion ''vmx-10'' ci)\<rparr>)
       NewVSphereProblemDetectorController)))
   = filter (\<lambda>e. \<forall>d. e \<noteq> QueueAddAfter d)
       (snd (snd (sync sample_checks_input NewVSphereProblemDetectorController)))"
  by (rule upgrade_block_not_reported) (simp add: sample_checks_input_def)

end
