(* ===== verification/Sessions.thy ===== *)
theory Sessions
  imports Checker
begin

text \<open>
  What a round of \<^verbatim>\<open>vSphereChecker\<close> (pkg/operator/vsphere_check.go) leaves behind at the
  vCenters: the SOAP and REST sessions it opened and did not close. The SOAP sessions are closed
  by the deferred logouts of \<^verbatim>\<open>runChecks\<close>, which start after \<^verbatim>\<open>connect\<close> succeeded,
  unless a logout fails; nothing logs out of a REST session.
\<close>

section \<open>Open sessions\<close>

definition session_step :: "session_op \<Rightarrow> session multiset \<Rightarrow> session multiset" where
  "session_step op m = (case op of OpenSession s \<Rightarrow> add_mset s m | CloseSession s \<Rightarrow> m - {#s#})"

text \<open>The sessions still open after a list of operations.\<close>

definition sessions_left :: "session_op list \<Rightarrow> session multiset" where
  "sessions_left ops = fold session_step ops {#}"

text \<open>The sessions of a connection to a vCenter.\<close>

definition sessions_of :: "vcenter_config \<Rightarrow> session multiset" where
  "sessions_of v = {#Soap (VCenterIP v), Rest (VCenterIP v)#}"

lemma fold_open: "fold session_step (concat (map opened vs)) m = m + (\<Sum>v \<in># mset vs. sessions_of v)"
  by (induction vs arbitrary: m) (auto simp: session_step_def opened_def sessions_of_def)

lemma fold_close: "fold session_step (map CloseSession ss) m = m - mset ss"
  by (induction ss arbitrary: m) (auto simp: session_step_def)

lemma sessions_of_both:
  "(\<Sum>v \<in># mset vs. sessions_of v) =
     mset (map (Soap \<circ> VCenterIP) vs) + mset (map (Rest \<circ> VCenterIP) vs)"
  by (induction vs) (auto simp: sessions_of_def)

lemma sessions_left_opened: "sessions_left (opened v) = sessions_of v"
  using fold_open [of "[v]" "{#}"] by (simp add: sessions_left_def)

definition additive :: "session_op list \<Rightarrow> bool" where
  "additive ops \<longleftrightarrow> (\<forall>m. fold session_step ops m = m + sessions_left ops)"

lemma additive_append:
  assumes "additive xs" "additive ys"
  shows "additive (xs @ ys)" "sessions_left (xs @ ys) = sessions_left xs + sessions_left ys"
proof -
  have "fold session_step (xs @ ys) m = m + sessions_left xs + sessions_left ys" for m
    using assms by (simp add: additive_def)
  moreover from this [of "{#}"]
  show "sessions_left (xs @ ys) = sessions_left xs + sessions_left ys"
    by (simp add: sessions_left_def)
  ultimately show "additive (xs @ ys)" by (simp add: additive_def)
qed

text \<open>
  A section whose SOAP login succeeds, whose REST login fails and whose logout then fails too:
  \<^verbatim>\<open>newClient\<close> returns an error and leaves the SOAP session open.
\<close>

definition stays_open :: "connect_env \<Rightarrow> vcenter_config \<Rightarrow> bool" where
  "stays_open env v \<longleftrightarrow>
     (\<exists>secret u p. env_Secret env = Inr secret \<and>
        secret (VCenterIP v @ ''.username'') = Some u \<and> secret (VCenterIP v @ ''.password'') = Some p \<and>
        env_ParseURL env (VCenterIP v) = None \<and> env_NewClient env (VCenterIP v) (InsecureFlag v) = None \<and>
        env_Login env (VCenterIP v) u p = None \<and> env_RestLogin env (VCenterIP v) u p \<noteq> None \<and>
        env_Logout env (VCenterIP v) \<noteq> None)"

definition left_open :: "connect_env \<Rightarrow> vcenter_config \<Rightarrow> session multiset" where
  "left_open env v = (if stays_open env v then {#Soap (VCenterIP v)#} else {#})"

lemma connect_one_failed:
  assumes "connect_one env v = (Inl e, ops, gs)"
  shows "sessions_left ops = left_open env v"
  using assms
  by (auto simp: connect_one_def newClient_def getCredentials_def Logout_def sessions_left_def session_step_def
      left_open_def stays_open_def Let_def split: sum.splits prod.splits option.splits if_splits)

lemma connect_one_sessions: "additive (fst (snd (connect_one env v)))"
  by (auto simp: connect_one_def newClient_def Logout_def session_step_def additive_def sessions_left_def Let_def
      split: sum.splits prod.splits option.splits if_splits)

lemma connect_loop_sessions: "additive (fst (snd (connect_loop env vs cfg acc)))"
proof (induction vs arbitrary: cfg acc)
  case (Cons v vs)
  obtain r ops1 gs1 where one: "connect_one env v = (r, ops1, gs1)" by (cases "connect_one env v") auto
  have first: "additive ops1" using connect_one_sessions [of env v] by (simp add: one)
  show ?case
  proof (cases r)
    case (Inl e)
    then show ?thesis using first one by simp
  next
    case (Inr u)
    then show ?thesis
      using additive_append(1) [OF first Cons.IH, of "set_user (VCenterIP v) u cfg"
        "AList.update (VCenterIP v) \<lparr>VCenterName = VCenterIP v, Username = []\<rparr> acc"] one
      by (simp add: Let_def case_prod_beta)
  qed
qed (simp add: additive_def sessions_left_def)

lemma connect_loop_Inl:
  assumes "connect_loop env vs cfg acc = (Inl err, ops, gs)"
  shows "\<exists>i < length vs. sessions_left ops =
      (\<Sum>v \<in># mset (take i vs). sessions_of v) + left_open env (vs ! i) \<and>
    (\<exists>e ops' gs'. connect_one env (vs ! i) = (Inl e, ops', gs'))"
  using assms
proof (induction vs arbitrary: cfg acc ops gs)
  case (Cons v vs)
  show ?case
  proof (cases "fst (connect_one env v)")
    case (Inl e)
    obtain ops1 gs1 where one: "connect_one env v = (Inl e, ops1, gs1)"
      using Inl by (cases "connect_one env v") auto
    then have "sessions_left ops = (\<Sum>v \<in># mset (take 0 (v # vs)). sessions_of v) + left_open env v"
      using Cons.prems connect_one_failed [OF one] by simp
    with one show ?thesis by (intro exI [of _ 0]) auto
  next
    case (Inr u)
    obtain ops1 gs1 where one: "connect_one env v = (Inr u, ops1, gs1)"
      using Inr by (cases "connect_one env v") auto
    note o = connect_one_Inr(1) [OF one]
    obtain ops2 gs2 where rest: "connect_loop env vs (set_user (VCenterIP v) u cfg)
         (AList.update (VCenterIP v) \<lparr>VCenterName = VCenterIP v, Username = []\<rparr> acc) = (Inl err, ops2, gs2)"
      and ops: "ops = ops1 @ ops2"
      using Cons.prems one by (auto simp: Let_def split: prod.splits)
    obtain i where i: "i < length vs"
      "sessions_left ops2 = (\<Sum>v \<in># mset (take i vs). sessions_of v) + left_open env (vs ! i)"
      "\<exists>e ops' gs'. connect_one env (vs ! i) = (Inl e, ops', gs')"
      using Cons.IH [OF rest] by blast
    have "sessions_left ops = sessions_of v + sessions_left ops2"
      using additive_append(2) [of ops1 ops2] connect_one_sessions [of env v]
        connect_loop_sessions [of env vs "set_user (VCenterIP v) u cfg"
          "AList.update (VCenterIP v) \<lparr>VCenterName = VCenterIP v, Username = []\<rparr> acc"] one rest o ops
      by (simp add: sessions_left_opened)
    with i show ?thesis by (intro exI [of _ "Suc i"]) auto
  qed
qed simp

lemma user_loop_names:
  "user_loop env vcs = Some (Inr vcs') \<Longrightarrow> map fst vcs' = map fst vcs"
  by (induction vcs arbitrary: vcs' rule: user_loop.induct)
    (auto split: sum.splits option.splits)

lemma end_sessions_round:
  assumes "connect (chk_connect env) = (Inr ctx, ops, gs)"
  shows "end_sessions (checker_runChecks env ci) = ops @ logout_all env ctx"
  using assms
  by (auto simp: checker_runChecks_def early_end_def run_jobs_def Let_def
      split: sum.splits option.splits prod.splits)

lemma fold_logouts:
  "fold session_step (logout_all env ctx) m =
     m - {#Soap n. n \<in># filter_mset (\<lambda>n. chk_Logout env n = None) (mset (map (VCenterName \<circ> snd) (VCenters ctx)))#}"
proof -
  have "concat (map (\<lambda>(name, vc). Logout (chk_Logout env (VCenterName vc)) (VCenterName vc)) vcs) =
      map CloseSession (map Soap (filter (\<lambda>n. chk_Logout env n = None) (map (VCenterName \<circ> snd) vcs)))" for vcs
    by (induction vcs) (auto simp: Logout_def split: option.split)
  then have "logout_all env ctx = map CloseSession (map Soap
      (filter (\<lambda>n. chk_Logout env n = None) (map (VCenterName \<circ> snd) (VCenters ctx))))"
    by (simp only: logout_all_def)
  then show ?thesis by (simp only: fold_close mset_map mset_filter)
qed

lemma close_some:
  "image_mset f M + R - image_mset f (filter_mset P M) = R + image_mset f (filter_mset (\<lambda>x. \<not> P x) M)"
proof -
  have "image_mset f M = image_mset f (filter_mset P M) + image_mset f (filter_mset (\<lambda>x. \<not> P x) M)"
    unfolding image_mset_union [symmetric] by (simp only: multiset_partition [symmetric])
  then show ?thesis by simp
qed

text \<open>
  C21: Once all vCenters of the configuration are connected (no two sections with the same
  address), the sessions a round leaves open are, however it ends (with results, with an error at
  any later point, or with a panic): the REST session of every section, and the SOAP session of
  exactly those vCenters whose deferred logout failed. It fails for instance when the context of
  the round has expired, since the logout is called with it, and the failure is only logged.
\<close>

theorem connected_round_closes_sessions:
  assumes "connect (chk_connect env) = (Inr ctx, ops, gs)"
    and "getVSphereConfig (chk_connect env) = Inr data" "parseConfig (chk_connect env) data = Inr cfg"
    and "distinct (map (VCenterIP \<circ> snd) (VirtualCenter cfg))"
  shows "sessions_left (end_sessions (checker_runChecks env ci)) =
    {#Rest (VCenterIP (snd section)). section \<in># mset (VirtualCenter cfg)#} +
    {#Soap (VCenterIP (snd section)). section \<in>#
       filter_mset (\<lambda>section. chk_Logout env (VCenterIP (snd section)) \<noteq> None) (mset (VirtualCenter cfg))#}"
proof -
  let ?vs = "map snd (VirtualCenter cfg)"
  let ?ips = "map (VCenterIP \<circ> snd) (VirtualCenter cfg)"
  let ?closes = "\<lambda>n. chk_Logout env n = None"
  obtain cfg' where loop: "connect_loop (chk_connect env) ?vs cfg []
      = (Inr (cfg', VCenters ctx), ops, gs)"
    using assms(1-3) by (auto simp: connect_def split: sum.splits prod.splits)
  note L = connect_loop_Inr [OF loop]
  have ops: "ops = concat (map opened ?vs)" using L by simp
  have names: "map (VCenterName \<circ> snd) (VCenters ctx) = map fst (VCenters ctx)"
    using L by (intro map_cong) auto
  have "set (map fst (VCenters ctx)) = set ?ips" using L by (simp add: image_comp)
  moreover have "distinct (map fst (VCenters ctx))" using L by simp
  ultimately have closed: "mset (map fst (VCenters ctx)) = mset ?ips"
    using assms(4) set_eq_iff_mset_eq_distinct by blast
  have "sessions_left (ops @ logout_all env ctx) =
      image_mset Soap (mset ?ips) + image_mset Rest (mset ?ips) - image_mset Soap (filter_mset ?closes (mset ?ips))"
    unfolding sessions_left_def ops fold_append comp_apply fold_open fold_logouts names closed
      sessions_of_both by (simp add: multiset.map_comp comp_def)
  also have "\<dots> = image_mset Rest (mset ?ips) + image_mset Soap (filter_mset (\<lambda>n. \<not> ?closes n) (mset ?ips))"
    by (rule close_some)
  finally have "sessions_left (ops @ logout_all env ctx) =
      image_mset Rest (mset ?ips) + image_mset Soap (filter_mset (\<lambda>n. \<not> ?closes n) (mset ?ips))" .
  then show ?thesis
    unfolding end_sessions_round [OF assms(1)] by (simp add: multiset.map_comp comp_def filter_mset_image_mset)
qed

text \<open>The same round when the context ends before the checks do: \<^verbatim>\<open>Wait\<close> and the logout fail.\<close>

definition expired_env :: check_env where
  "expired_env = sample_env\<lparr>chk_Wait := Some (Errorf ''context deadline exceeded''),
     chk_Logout := (\<lambda>_. Some (Errorf ''context deadline exceeded''))\<rparr>"

theorem connected_round_closes_sessions_witness:
  "sessions_left (end_sessions (checker_runChecks sample_env NewClusterInfo)) = {#Rest ''vc1''#} \<and>
   sessions_left (end_sessions (checker_runChecks expired_env NewClusterInfo)) = {#Rest ''vc1'', Soap ''vc1''#}"
proof -
  have env: "chk_connect sample_env = sample_connect_env" "chk_connect expired_env = sample_connect_env"
    "chk_Logout sample_env s = None" "chk_Logout expired_env s \<noteq> None" for s
    by (simp_all add: sample_env_def expired_env_def)
  obtain ctx gs where c: "connect sample_connect_env = (Inr ctx, [OpenSession (Soap ''vc1''), OpenSession (Rest ''vc1'')], gs)"
    using sample_connect by auto
  have cfg: "getVSphereConfig sample_connect_env = Inr ''ini''"
    "parseConfig sample_connect_env ''ini'' = Inr sample_config"
    by (simp_all add: sample_connect_env_def getVSphereConfig_def
        sample_infrastructure_def parseConfig_def LoadConfig_def sample_config_def)
  have dist: "distinct (map (VCenterIP \<circ> snd) (VirtualCenter sample_config))" by (simp add: sample_config_def)
  note R = connected_round_closes_sessions [of sample_env, unfolded env(1), OF c cfg dist, of NewClusterInfo]
    connected_round_closes_sessions [of expired_env, unfolded env(2), OF c cfg dist, of NewClusterInfo]
  show ?thesis
    unfolding R using env(3,4) by (simp add: sample_config_def)
qed

text \<open>
  C22: When the connection to one of several vCenters fails, both sessions of all the vCenters
  connected before it stay open: the error path of \<^verbatim>\<open>connect\<close> returns without logging out. Of
  the failing vCenter nothing stays open but the SOAP session, in the case that its SOAP login
  succeeded, its REST login failed and the logout that follows failed too.
\<close>

theorem failed_connect_leaks_sessions:
  assumes "connect env = (Inl err, ops, gs)"
    and "getVSphereConfig env = Inr data" "parseConfig env data = Inr cfg"
  shows "\<exists>i < length (VirtualCenter cfg).
    sessions_left ops = (\<Sum>section \<in># mset (take i (VirtualCenter cfg)). sessions_of (snd section)) +
      (if stays_open env (snd (VirtualCenter cfg ! i)) then {#Soap (VCenterIP (snd (VirtualCenter cfg ! i)))#}
       else {#}) \<and>
    (\<exists>e ops' gs'. connect_one env (snd (VirtualCenter cfg ! i)) = (Inl e, ops', gs'))"
proof -
  have "connect_loop env (map snd (VirtualCenter cfg)) cfg [] = (Inl err, ops, gs)"
    using assms by (auto simp: connect_def split: sum.splits prod.splits)
  from connect_loop_Inl [OF this] show ?thesis
    by (auto simp: take_map multiset.map_comp comp_def left_open_def)
qed

text \<open>Two vCenters, the second without credentials.\<close>

definition half_config :: vsphere_config where
  "half_config = \<lparr>VirtualCenter =
     [(''vc1'', \<lparr>VCenterIP = ''vc1'', cfg_Datacenters = ''dc'', InsecureFlag = True, cfg_User = []\<rparr>),
      (''vc2'', \<lparr>VCenterIP = ''vc2'', cfg_Datacenters = ''dc'', InsecureFlag = True, cfg_User = []\<rparr>)],
     LegacyConfig = Some sample_legacy\<rparr>"

definition half_connected_env :: connect_env where
  "half_connected_env = sample_connect_env\<lparr>env_ReadConfig := (\<lambda>_. Inr (VirtualCenter half_config))\<rparr>"

theorem failed_connect_leaks_sessions_witness:
  "\<exists>err ops gs. connect half_connected_env = (Inl err, ops, gs) \<and> sessions_left ops = {#Soap ''vc1'', Rest ''vc1''#}"
proof -
  have cfg: "getVSphereConfig half_connected_env = Inr ''ini''"
    "parseConfig half_connected_env ''ini'' = Inr half_config"
    by (simp_all add: half_connected_env_def sample_connect_env_def getVSphereConfig_def
        sample_infrastructure_def parseConfig_def LoadConfig_def)
      (simp add: half_config_def)
  obtain v1 v2 where vs: "VirtualCenter half_config = [(''vc1'', v1), (''vc2'', v2)]"
    "VCenterIP v1 = ''vc1''" "VCenterIP v2 = ''vc2''" by (simp add: half_config_def)
  obtain gs1 where one: "connect_one half_connected_env v1 = (Inr ''a@b'', [OpenSession (Soap ''vc1''), OpenSession (Rest ''vc1'')], gs1)"
    using vs(2) by (simp add: connect_one_def getCredentials_def half_connected_env_def
        sample_connect_env_def newClient_def Let_def)
  obtain e where two: "connect_one half_connected_env v2 = (Inl e, [], [])"
    using vs(3) by (simp add: connect_one_def getCredentials_def half_connected_env_def
        sample_connect_env_def)
  obtain err ops gs where c: "connect half_connected_env = (Inl err, ops, gs)"
    using cfg one two by (auto simp: connect_def vs Let_def)
  from failed_connect_leaks_sessions [OF c cfg] obtain i where i: "i < length (VirtualCenter half_config)"
    "sessions_left ops = (\<Sum>section \<in># mset (take i (VirtualCenter half_config)). sessions_of (snd section)) +
      (if stays_open half_connected_env (snd (VirtualCenter half_config ! i))
       then {#Soap (VCenterIP (snd (VirtualCenter half_config ! i)))#} else {#})"
    "\<exists>e ops' gs'. connect_one half_connected_env (snd (VirtualCenter half_config ! i)) = (Inl e, ops', gs')"
    by blast
  have "i = 1" using i(1,3) one by (cases i) (auto simp: vs)
  moreover have "\<not> stays_open half_connected_env v2"
    using vs(3) by (simp add: stays_open_def half_connected_env_def sample_connect_env_def)
  ultimately have "sessions_left ops = {#Soap ''vc1'', Rest ''vc1''#}"
    using i(2) by (simp add: vs sessions_of_def)
  with c show ?thesis by blast
qed

end
