(* ===== verification/CheckGauges.thy ===== *)
theory CheckGauges
  imports Checker
begin

text \<open>
  The gauges and counters that \<^verbatim>\<open>runSingleClusterCheck\<close> and \<^verbatim>\<open>runSingleNodeSingleCheck\<close> of
  pkg/operator/vsphere_check.go set while the jobs of a round run, and what they show afterwards.
  Unlike the metrics of the collector they live in the process and keep their values between rounds.
\<close>

type_synonym metric_store = "string \<times> string list \<Rightarrow> nat option"

fun metric_step :: "job_event \<Rightarrow> metric_store \<Rightarrow> metric_store" where
  "metric_step (EvGauge g ls v) m = m((g, ls) \<mapsto> v)"
| "metric_step (EvInc g ls) m = map_incr m (g, ls)"
| "metric_step (EvResult r) m = m"
| "metric_step (EvInfo x) m = m"

fun touches :: "string \<times> string list \<Rightarrow> job_event \<Rightarrow> bool" where
  "touches k (EvGauge g ls v) \<longleftrightarrow> (g, ls) = k"
| "touches k (EvInc g ls) \<longleftrightarrow> (g, ls) = k"
| "touches k (EvResult r) \<longleftrightarrow> False"
| "touches k (EvInfo x) \<longleftrightarrow> False"

text \<open>When all writes of a metric agree, their order and number do not matter.\<close>

lemma agreed_metric:
  assumes "\<forall>e \<in> set tr. touches k e \<longrightarrow> e = EvGauge (fst k) (snd k) v"
  shows "fold metric_step tr m k = (if \<exists>e \<in> set tr. touches k e then Some v else m k)"
  using assms
proof (induction tr rule: rev_induct)
  case (snoc e tr)
  have same: "metric_step e s k = s k" if "\<not> touches k e" for s
    using that by (cases e) (auto simp: map_incr_def)
  have put: "metric_step e s k = Some v" if "touches k e" for s
    using that snoc.prems by (cases k) simp
  show ?case
    using snoc same put by (cases "touches k e") simp_all
qed simp

section \<open>The metrics of a job\<close>

lemma set_cluster_check:
  "set (runSingleClusterCheck env ctx name) = EvInfo ` set (snd (chk_ClusterCheck env ctx name)) \<union>
     {EvGauge ''vsphere_cluster_check_errors'' [name] (error_gauge (fst (chk_ClusterCheck env ctx name))),
      EvInc ''vsphere_cluster_check_total'' [name],
      EvResult \<lparr>res_Name = name, res_Error = fst (chk_ClusterCheck env ctx name)\<rparr>}"
  by (simp add: runSingleClusterCheck_def case_prod_beta)

lemma set_node_check:
  "set (runSingleNodeSingleCheck env ctx n v name) = EvInfo ` set (snd (chk_NodeCheck env ctx name n v)) \<union>
     {EvGauge ''vsphere_node_check_errors'' [name, node_Name n] (error_gauge (fst (chk_NodeCheck env ctx name n v))),
      EvInc ''vsphere_node_check_total'' [name, node_Name n],
      EvResult \<lparr>res_Name = name, res_Error = fst (chk_NodeCheck env ctx name n v)\<rparr>}"
  by (simp add: runSingleNodeSingleCheck_def case_prod_beta)

lemma touches_cluster_job:
  assumes "e \<in> set (runSingleClusterCheck env ctx name)"
  shows "touches (''vsphere_cluster_check_errors'', ls) e \<Longrightarrow> ls = [name] \<and>
     e = EvGauge ''vsphere_cluster_check_errors'' [name] (error_gauge (fst (chk_ClusterCheck env ctx name)))"
    "\<not> touches (''vsphere_node_check_errors'', ls) e"
  using assms unfolding set_cluster_check by (elim UnE imageE insertE emptyE; simp)+

lemma touches_node_check:
  assumes "e \<in> set (runSingleNodeSingleCheck env ctx n v name)"
  shows "touches (''vsphere_node_check_errors'', ls) e \<Longrightarrow> ls = [name, node_Name n] \<and>
     e = EvGauge ''vsphere_node_check_errors'' [name, node_Name n] (error_gauge (fst (chk_NodeCheck env ctx name n v)))"
    "\<not> touches (''vsphere_cluster_check_errors'', ls) e"
  using assms unfolding set_node_check by (elim UnE imageE insertE emptyE; simp)+

lemma gauge_in_jobs:
  "EvGauge ''vsphere_cluster_check_errors'' [name] (error_gauge (fst (chk_ClusterCheck env ctx name)))
     \<in> set (runSingleClusterCheck env ctx name)"
  "EvGauge ''vsphere_node_check_errors'' [name, node_Name n] (error_gauge (fst (chk_NodeCheck env ctx name n v)))
     \<in> set (runSingleNodeSingleCheck env ctx n v name)"
  unfolding set_cluster_check set_node_check by blast+

lemma touches_job_cluster:
  assumes "e \<in> set (run_job env ctx j)" "touches (''vsphere_cluster_check_errors'', [name]) e"
  shows "j = ClusterJob name \<and> e = EvGauge ''vsphere_cluster_check_errors'' [name]
       (error_gauge (fst (chk_ClusterCheck env ctx name)))"
proof (cases j)
  case (ClusterJob c)
  then show ?thesis using assms touches_cluster_job(1) [of e env ctx c "[name]"] by auto
next
  case (NodeJob n)
  then show ?thesis
    using assms touches_node_check(2) by (fastforce split: sum.splits)
qed

lemma touches_job_node:
  assumes "e \<in> set (run_job env ctx j)" "touches (''vsphere_node_check_errors'', [name, node_Name n]) e"
  shows "\<exists>n' v. j = NodeJob n' \<and> node_Name n' = node_Name n \<and> getVM env ctx n' = Inr v \<and>
    name \<in> set (chk_nodeChecks env) \<and> e = EvGauge ''vsphere_node_check_errors'' [name, node_Name n]
       (error_gauge (fst (chk_NodeCheck env ctx name n' v)))"
proof (cases j)
  case (ClusterJob c)
  then show ?thesis using assms touches_cluster_job(2) by fastforce
next
  case (NodeJob n')
  obtain v where v: "getVM env ctx n' = Inr v"
    using assms NodeJob by (cases "getVM env ctx n'") auto
  then obtain c where c: "c \<in> set (chk_nodeChecks env)" "e \<in> set (runSingleNodeSingleCheck env ctx n' v c)"
    using assms(1) NodeJob by auto
  note t = touches_node_check(1) [OF c(2) assms(2)]
  then have "c = name" "node_Name n' = node_Name n" by simp_all
  with t NodeJob v c(1) show ?thesis by (intro exI [of _ n'] exI [of _ v]) simp
qed

section \<open>The gauge of a cluster check\<close>

abbreviation cluster_gauge :: "string \<Rightarrow> string \<times> string list" where
  "cluster_gauge name \<equiv> (''vsphere_cluster_check_errors'', [name])"

definition cluster_write :: "check_env \<Rightarrow> check_context \<Rightarrow> string \<Rightarrow> job_event" where
  "cluster_write env ctx name = EvGauge ''vsphere_cluster_check_errors'' [name]
     (error_gauge (fst (chk_ClusterCheck env ctx name)))"

lemma cluster_write_gauge:
  "cluster_write env ctx name = EvGauge (fst (cluster_gauge name)) (snd (cluster_gauge name))
     (error_gauge (fst (chk_ClusterCheck env ctx name)))"
  "touches (cluster_gauge name) (cluster_write env ctx name)"
  by (simp_all add: cluster_write_def)

lemma job_writes:
  assumes "T = (\<Union>j \<in> set jobs. set (run_job env ctx j))"
  shows "e \<in> T \<Longrightarrow> touches (cluster_gauge name) e \<Longrightarrow> e = cluster_write env ctx name"
    "ClusterJob name \<in> set jobs \<Longrightarrow> cluster_write env ctx name \<in> T"
proof -
  show "e = cluster_write env ctx name" if e: "e \<in> T" "touches (cluster_gauge name) e"
  proof -
    obtain j where "e \<in> set (run_job env ctx j)" using e(1) unfolding assms by blast
    from touches_job_cluster [OF this e(2)] show ?thesis by (simp add: cluster_write_def)
  qed
  show "cluster_write env ctx name \<in> T" if "ClusterJob name \<in> set jobs"
  proof -
    have "cluster_write env ctx name \<in> set (run_job env ctx (ClusterJob name))"
      unfolding cluster_write_def run_job.simps by (rule gauge_in_jobs(1))
    with that show ?thesis unfolding assms by blast
  qed
qed

lemma only_writer:
  assumes "\<And>e. e \<in> set h \<Longrightarrow> touches (cluster_gauge name) e \<Longrightarrow> e = cluster_write env ctx name"
    and "cluster_write env ctx name \<in> set h"
  shows "fold metric_step h m (cluster_gauge name) = Some (error_gauge (fst (chk_ClusterCheck env ctx name)))"
proof -
  have all: "\<forall>e \<in> set h. touches (cluster_gauge name) e \<longrightarrow>
      e = EvGauge (fst (cluster_gauge name)) (snd (cluster_gauge name))
        (error_gauge (fst (chk_ClusterCheck env ctx name)))"
    using assms(1) unfolding cluster_write_gauge(1) by blast
  have some: "\<exists>e \<in> set h. touches (cluster_gauge name) e"
    using assms(2) cluster_write_gauge(2) by (rule bexI [rotated])
  show ?thesis unfolding agreed_metric [OF all] using some by (simp only: if_True)
qed

section \<open>The gauge of a node check\<close>

abbreviation node_gauge :: "string \<Rightarrow> node \<Rightarrow> string \<times> string list" where
  "node_gauge name n \<equiv> (''vsphere_node_check_errors'', [name, node_Name n])"

definition node_write :: "check_env \<Rightarrow> check_context \<Rightarrow> string \<Rightarrow> node \<Rightarrow> vm \<Rightarrow> job_event" where
  "node_write env ctx name n v = EvGauge ''vsphere_node_check_errors'' [name, node_Name n]
     (error_gauge (fst (chk_NodeCheck env ctx name n v)))"

lemma node_job_writes:
  assumes "T = (\<Union>j \<in> set (round_jobs env nodes). set (run_job env ctx j))" "distinct (map node_Name nodes)"
    and "n \<in> set nodes" "e \<in> T" "touches (node_gauge name n) e"
  shows "\<exists>v. getVM env ctx n = Inr v \<and> e = node_write env ctx name n v"
proof -
  obtain j where j: "j \<in> set (round_jobs env nodes)" "e \<in> set (run_job env ctx j)"
    using assms(4) unfolding assms(1) by blast
  from touches_job_node [OF j(2) assms(5)] obtain n' v where n': "j = NodeJob n'" "node_Name n' = node_Name n"
    "getVM env ctx n' = Inr v" "e = EvGauge ''vsphere_node_check_errors'' [name, node_Name n]
       (error_gauge (fst (chk_NodeCheck env ctx name n' v)))" by blast
  have "n' \<in> set nodes" using j(1) n'(1) by (auto simp: round_jobs_def)
  then have "n' = n" using assms(2,3) n'(2) by (meson distinct_map inj_onD)
  with n' show ?thesis by (auto simp: node_write_def)
qed

lemma node_write_done:
  assumes "T = (\<Union>j \<in> set (round_jobs env nodes). set (run_job env ctx j))"
    and "name \<in> set (chk_nodeChecks env)" "n \<in> set nodes" "isVSphereNode n" "getVM env ctx n = Inr v"
  shows "node_write env ctx name n v \<in> T"
proof -
  have "node_write env ctx name n v \<in> set (run_job env ctx (NodeJob n))"
    using assms(2,5) gauge_in_jobs(2) [of name n env ctx v] unfolding node_write_def by fastforce
  moreover have "NodeJob n \<in> set (round_jobs env nodes)" using assms(3,4) by (simp add: round_jobs_def)
  ultimately show ?thesis unfolding assms(1) by blast
qed

section \<open>Property\<close>

lemma round_trace:
  assumes "end_result (checker_runChecks env ci) = Some (Inr rc)" "scheduler_ok env"
    and "round_context env = Some ctx" "chk_ListNodes env = Inr nodes"
  shows "set (end_trace (checker_runChecks env ci)) = (\<Union>j \<in> set (round_jobs env nodes). set (run_job env ctx j))"
proof -
  obtain ops where run: "checker_runChecks env ci = run_jobs env ctx ci ops"
    using successful_start [OF assms(1)] assms(3) by auto
  have "end_trace (run_jobs env ctx ci ops) = chk_schedule env (map (run_job env ctx) (round_jobs env nodes))"
    using run_jobs_successful [of env ctx ci ops rc] assms(1,4) unfolding run by auto
  then have "end_trace (run_jobs env ctx ci ops) \<in> pool_histories parallelVSPhereCalls channelBufferSize
      (map (run_job env ctx) (round_jobs env nodes))"
    using assms(2) by (simp add: scheduler_ok_def)
  from checks.set_performed [OF this] show ?thesis unfolding run by simp
qed

text \<open>
  C12: What the error gauges show after a completed round, for every interleaving and whatever they
  showed before. The gauge of each cluster check is 1 if the check failed and 0 if not. The gauge of
  a node check for a vSphere node is 1 or 0 in the same way when the VM of the node was found; when
  it was not found, the gauge keeps the value of an earlier round, although the check is reported as
  failed.
\<close>

theorem error_gauges_after_round:
  assumes "end_result (checker_runChecks env ci) = Some (Inr rc)" "scheduler_ok env"
    and "round_context env = Some ctx" "chk_ListNodes env = Inr nodes"
    and "distinct (map node_Name nodes)"
    and "after = fold metric_step (end_trace (checker_runChecks env ci)) before"
  shows "(\<forall>name \<in> set (chk_clusterChecks env). after (''vsphere_cluster_check_errors'', [name]) =
      Some (error_gauge (fst (chk_ClusterCheck env ctx name)))) \<and>
    (\<forall>name \<in> set (chk_nodeChecks env). \<forall>n \<in> set nodes. isVSphereNode n \<longrightarrow>
      after (''vsphere_node_check_errors'', [name, node_Name n]) =
        (case getVM env ctx n of
           Inl err \<Rightarrow> before (''vsphere_node_check_errors'', [name, node_Name n])
         | Inr v \<Rightarrow> Some (error_gauge (fst (chk_NodeCheck env ctx name n v)))))"
proof (intro conjI ballI impI)
  let ?tr = "end_trace (checker_runChecks env ci)"
  note T = round_trace [OF assms(1-4)]
  fix name
  assume "name \<in> set (chk_clusterChecks env)"
  then have "ClusterJob name \<in> set (round_jobs env nodes)" by (simp add: round_jobs_def)
  from only_writer [OF job_writes(1) [OF T] job_writes(2) [OF T this]]
  show "after (cluster_gauge name) = Some (error_gauge (fst (chk_ClusterCheck env ctx name)))"
    unfolding assms(6) .
next
  let ?tr = "end_trace (checker_runChecks env ci)"
  note T = round_trace [OF assms(1-4)]
  fix name n
  assume n: "name \<in> set (chk_nodeChecks env)" "n \<in> set nodes" "isVSphereNode n"
  note only = node_job_writes [OF T assms(5) n(2)]
  show "after (node_gauge name n) = (case getVM env ctx n of Inl err \<Rightarrow> before (node_gauge name n)
      | Inr v \<Rightarrow> Some (error_gauge (fst (chk_NodeCheck env ctx name n v))))"
  proof (cases "getVM env ctx n")
    case (Inl err)
    then have "\<not> touches (node_gauge name n) e" if "e \<in> set ?tr" for e using only that by fastforce
    then show ?thesis using agreed_metric [of ?tr "node_gauge name n" 0 before] Inl unfolding assms(6) by simp
  next
    case (Inr v)
    have "\<forall>e \<in> set ?tr. touches (node_gauge name n) e \<longrightarrow> e = node_write env ctx name n v"
      using only Inr by fastforce
    moreover have "\<exists>e \<in> set ?tr. touches (node_gauge name n) e"
      using node_write_done [OF T n Inr] by (intro bexI) (simp_all add: node_write_def)
    ultimately show ?thesis
      using agreed_metric [of ?tr "node_gauge name n"] Inr unfolding assms(6) by (simp add: node_write_def)
  qed
qed

theorem error_gauges_after_round_witness:
  "fold metric_step (end_trace (checker_runChecks sample_env NewClusterInfo)) Map.empty
     (''vsphere_cluster_check_errors'', [''CheckTaskPermissions'']) = Some 1"
proof -
  obtain ctx where ctx: "round_context sample_env = Some ctx" using sample_round_context by blast
  obtain rc where rc: "end_result (checker_runChecks sample_env NewClusterInfo) = Some (Inr rc)"
    using sample_round_ends by blast
  have nodes: "chk_ListNodes sample_env = Inr [vsphere_node, metal_node]" by (simp add: sample_env_def)
  have names: "distinct (map node_Name [vsphere_node, metal_node])"
    by (simp add: vsphere_node_def metal_node_def)
  have "''CheckTaskPermissions'' \<in> set (chk_clusterChecks sample_env)"
    "error_gauge (fst (chk_ClusterCheck sample_env ctx ''CheckTaskPermissions'')) = 1"
    by (simp_all add: sample_env_def error_gauge_def)
  with error_gauges_after_round [OF rc sample_env_ok ctx nodes names refl, of Map.empty] show ?thesis by metis
qed

end
