(* ===== verification/LateWork.thy ===== *)
theory LateWork
  imports CheckGauges
begin

text \<open>
  What a round of \<^verbatim>\<open>vSphereChecker\<close> (pkg/operator/vsphere_check.go) does after it has returned.
  \<^verbatim>\<open>runChecks\<close> enqueues the cluster checks before it lists the nodes; when the list fails it
  returns at once, logs out of the vCenters and leaves the pool to itself. By
  \<open>abandoned_pool_performs_and_leaks\<close> the enqueued checks are performed all the same, and
  their writes fall into the next round.
\<close>

section \<open>The rest of an abandoned round\<close>

text \<open>What the workers still do with the cluster checks when the round has returned.\<close>

definition late_events :: "check_env \<Rightarrow> check_context \<Rightarrow> job_event list" where
  "late_events env ctx =
     drop (chk_done env) (chk_schedule env (map (run_job env ctx) (enqueueClusterChecks env)))"

lemma abandoned_round:
  assumes "round_context env = Some ctx" "chk_ListNodes env = Inl err"
  shows "end_result (checker_runChecks env ci) = Some (Inl err)"
    "end_collector (checker_runChecks env ci) = [CallStart, CallFinish]"
    "end_trace (checker_runChecks env ci) =
      take (chk_done env) (chk_schedule env (map (run_job env ctx) (enqueueClusterChecks env)))"
proof -
  obtain ops where "checker_runChecks env ci = run_jobs env ctx ci ops"
    using round_start [OF assms(1)] by blast
  with assms(2) show "end_result (checker_runChecks env ci) = Some (Inl err)"
    "end_collector (checker_runChecks env ci) = [CallStart, CallFinish]"
    "end_trace (checker_runChecks env ci) =
      take (chk_done env) (chk_schedule env (map (run_job env ctx) (enqueueClusterChecks env)))"
    by (simp_all add: run_jobs_def enqueueNodeChecks_def Let_def)
qed

lemma abandoned_trace:
  assumes "round_context env = Some ctx" "chk_ListNodes env = Inl err" "scheduler_ok env"
  shows "end_trace (checker_runChecks env ci) @ late_events env ctx
    \<in> interleavings (map (run_job env ctx) (enqueueClusterChecks env))"
  using scheduler_interleaves [OF assms(3)] abandoned_round(3) [OF assms(1,2)]
  by (simp add: late_events_def)

lemma abandoned_set:
  assumes "round_context env = Some ctx" "chk_ListNodes env = Inl err" "scheduler_ok env"
  shows "set (end_trace (checker_runChecks env ci) @ late_events env ctx) =
    (\<Union>j \<in> set (enqueueClusterChecks env). set (run_job env ctx j))"
  using interleavings_set [OF abandoned_trace [OF assms]] by simp



section \<open>Properties\<close>

text \<open>
  A round that cannot list the nodes returns that error: no check reports anything and the scraped
  metrics are empty. Yet all cluster checks are performed, in parts after the round returned, and
  in the end each error gauge holds the outcome of its check.
\<close>

theorem abandoned_checks_still_write:
  assumes "round_context env = Some ctx" "chk_ListNodes env = Inl err" "scheduler_ok env"
    and "name \<in> set (chk_clusterChecks env)"
  shows "end_result (checker_runChecks env ci) = Some (Inl err) \<and>
    end_collector (checker_runChecks env ci) = [CallStart, CallFinish] \<and>
    end_trace (checker_runChecks env ci) @ late_events env ctx
      \<in> interleavings (map (runSingleClusterCheck env ctx) (chk_clusterChecks env)) \<and>
    fold metric_step (end_trace (checker_runChecks env ci) @ late_events env ctx) before (cluster_gauge name) =
      Some (error_gauge (fst (chk_ClusterCheck env ctx name)))"
proof -
  let ?h = "end_trace (checker_runChecks env ci) @ late_events env ctx"
  note S = abandoned_set [OF assms(1-3)]
  have jobs: "map (run_job env ctx) (enqueueClusterChecks env) =
      map (runSingleClusterCheck env ctx) (chk_clusterChecks env)"
    by (simp add: enqueueClusterChecks_def)
  have "ClusterJob name \<in> set (enqueueClusterChecks env)"
    using assms(4) by (simp add: enqueueClusterChecks_def)
  note W = job_writes(1) [OF S] job_writes(2) [OF S this]
  have "fold metric_step ?h before (cluster_gauge name) =
      Some (error_gauge (fst (chk_ClusterCheck env ctx name)))"
    using W by (rule only_writer)
  then show ?thesis
    using abandoned_round(1,2) [OF assms(1,2)] abandoned_trace [OF assms(1-3)] unfolding jobs by blast
qed

definition unlisted_env :: check_env where
  "unlisted_env = sample_env\<lparr>chk_ListNodes := Inl (Errorf ''no nodes'')\<rparr>"

definition passing_env :: check_env where
  "passing_env = sample_env\<lparr>chk_ClusterCheck := (\<lambda>_ _. (None, []))\<rparr>"

lemma late_samples:
  "scheduler_ok unlisted_env" "scheduler_ok passing_env"
  "round_context unlisted_env = round_context sample_env" "round_context passing_env = round_context sample_env"
  "chk_ListNodes unlisted_env = Inl (Errorf ''no nodes'')" "chk_Wait passing_env = None"
  "chk_ListNodes passing_env = Inr [vsphere_node, metal_node]"
  "chk_clusterChecks unlisted_env = [''CheckTaskPermissions'']"
  "chk_clusterChecks passing_env = [''CheckTaskPermissions'']"
  "chk_ClusterCheck unlisted_env = (\<lambda>_ _. (Some (Errorf ''no permission''), []))"
  by (intro sequential_scheduler round_context_cong | simp add: unlisted_env_def passing_env_def sample_env_def)+

theorem abandoned_checks_still_write_witness:
  "\<exists>ctx. fold metric_step (end_trace (checker_runChecks unlisted_env NewClusterInfo) @ late_events unlisted_env ctx)
     Map.empty (cluster_gauge ''CheckTaskPermissions'') = Some 1"
proof -
  obtain ctx where "round_context sample_env = Some ctx" using sample_round_context by blast
  then have ctx: "round_context unlisted_env = Some ctx" using late_samples(3) by simp
  have "''CheckTaskPermissions'' \<in> set (chk_clusterChecks unlisted_env)" by (simp add: late_samples(8))
  from abandoned_checks_still_write [OF ctx late_samples(5,1) this] show ?thesis
    unfolding late_samples(10) error_gauge_def by (intro exI [of _ ctx]) simp
qed



end
