(* ===== verification/Permissions.thy ===== *)
theory Permissions
  imports CheckContext
begin

text \<open>
  pkg/check/permissions.go: the privileges the installation needs on each kind of object,
  \<^verbatim>\<open>comparePrivileges\<close> with the functions that call it, and the check
  \<^verbatim>\<open>CheckAccountPermissions\<close>. vCenter's answers are arguments: \<open>auth\<close> is
  \<^verbatim>\<open>FetchUserPrivilegeOnEntities\<close> of the \<^verbatim>\<open>AuthManager\<close> interface (the privileges of each
  result), \<open>datacenter\<close> and \<open>datastore\<close> the lookups through the cache, \<open>folder\<close> is
  \<^verbatim>\<open>Finder.Folder\<close>. A managed object is its reference.
\<close>

section \<open>Privileges\<close>

datatype permissionGroup =
    permissionVcenter | permissionCluster | permissionPortgroup | permissionDatacenter
  | permissionDatastore | permissionFolder | permissionResourcePool

fun group_name :: "permissionGroup \<Rightarrow> string" where
  "group_name permissionVcenter = ''vcenter''"
| "group_name permissionCluster = ''cluster''"
| "group_name permissionPortgroup = ''portgroup''"
| "group_name permissionDatacenter = ''datacenter''"
| "group_name permissionDatastore = ''datastore''"
| "group_name permissionFolder = ''folder''"
| "group_name permissionResourcePool = ''resourcepool''"

fun permissions :: "permissionGroup \<Rightarrow> string list" where
  "permissions permissionVcenter = [
     ''Cns.Searchable'', ''InventoryService.Tagging.AttachTag'', 
     ''InventoryService.Tagging.CreateCategory'', ''InventoryService.Tagging.CreateTag'', 
     ''InventoryService.Tagging.DeleteCategory'', ''InventoryService.Tagging.DeleteTag'', 
     ''InventoryService.Tagging.EditCategory'', ''InventoryService.Tagging.EditTag'', 
     ''Sessions.ValidateSession'', ''StorageProfile.Update'', ''StorageProfile.View'']"
| "permissions permissionCluster = [
     ''Resource.AssignVMToPool'', ''VApp.AssignResourcePool'', ''VApp.Import'', 
     ''VirtualMachine.Config.AddNewDisk'']"
| "permissions permissionPortgroup = [
     ''Network.Assign'']"
| "permissions permissionFolder = [
     ''Resource.AssignVMToPool'', ''VApp.Import'', 
     ''VirtualMachine.Config.AddExistingDisk'', ''VirtualMachine.Config.AddNewDisk'', 
     ''VirtualMachine.Config.AddRemoveDevice'', ''VirtualMachine.Config.AdvancedConfig'', 
     ''VirtualMachine.Config.Annotation'', ''VirtualMachine.Config.CPUCount'', 
     ''VirtualMachine.Config.DiskExtend'', ''VirtualMachine.Config.DiskLease'', 
     ''VirtualMachine.Config.EditDevice'', ''VirtualMachine.Config.Memory'', 
     ''VirtualMachine.Config.RemoveDisk'', ''VirtualMachine.Config.Rename'', 
     ''VirtualMachine.Config.ResetGuestInfo'', ''VirtualMachine.Config.Resource'', 
     ''VirtualMachine.Config.Settings'', ''VirtualMachine.Config.UpgradeVirtualHardware'', 
     ''VirtualMachine.Interact.GuestControl'', ''VirtualMachine.Interact.PowerOff'', 
     ''VirtualMachine.Interact.PowerOn'', ''VirtualMachine.Interact.Reset'', 
     ''VirtualMachine.Inventory.Create'', ''VirtualMachine.Inventory.CreateFromExisting'', 
     ''VirtualMachine.Inventory.Delete'', ''VirtualMachine.Provisioning.Clone'', 
     ''VirtualMachine.Provisioning.MarkAsTemplate'', 
     ''VirtualMachine.Provisioning.DeployTemplate'']"
| "permissions permissionDatacenter = [
     ''System.Read'']"
| "permissions permissionDatastore = [
     ''Datastore.AllocateSpace'', ''Datastore.Browse'', ''Datastore.FileManagement'', 
     ''InventoryService.Tagging.ObjectAttachable'']"
| "permissions permissionResourcePool = [
     ''Resource.AssignVMToPool'', ''VApp.AssignResourcePool'', ''VApp.Import'', 
     ''VirtualMachine.Config.AddNewDisk'']"

type_synonym auth_manager = "vcenter \<Rightarrow> string \<Rightarrow> string \<Rightarrow> go_error + string list list"

text \<open>The two inner loops: is the privilege among those of some result?\<close>

fun assigned_in :: "string \<Rightarrow> string list \<Rightarrow> bool" where
  "assigned_in needed [] = False"
| "assigned_in needed (p # ps) = (if p = needed then True else assigned_in needed ps)"

fun has_privilege :: "string \<Rightarrow> string list list \<Rightarrow> bool \<Rightarrow> bool" where
  "has_privilege needed [] has = has"
| "has_privilege needed (up # ups) has =
     has_privilege needed ups (if assigned_in needed up then True else has)"

fun missing_loop :: "string list \<Rightarrow> string list list \<Rightarrow> string \<Rightarrow> string" where
  "missing_loop [] derived missing = missing"
| "missing_loop (needed # required) derived missing =
     missing_loop required derived
       (if has_privilege needed derived False = False
        then (if missing \<noteq> [] then missing @ '', '' else missing) @ needed
        else missing)"

definition comparePrivileges ::
  "string \<Rightarrow> string \<Rightarrow> (string \<Rightarrow> string \<Rightarrow> go_error + string list list) \<Rightarrow> string list
   \<Rightarrow> go_error option" where
  "comparePrivileges username mo authManager required =
     (case authManager mo username of
        Inl err \<Rightarrow> Some (Errorf (''unable to retrieve privileges: '' @ error_text err))
      | Inr derived \<Rightarrow>
          (let missing = missing_loop required derived [] in
           if missing \<noteq> [] then Some (Errorf missing) else None))"

section \<open>The checks\<close>

definition checkDatacenterPrivileges ::
  "auth_manager \<Rightarrow> (vcenter \<Rightarrow> string \<Rightarrow> go_error + string) \<Rightarrow> vcenter \<Rightarrow> string
   \<Rightarrow> go_error option" where
  "checkDatacenterPrivileges auth datacenter vCenter dataCenterName =
     (case datacenter vCenter dataCenterName of
        Inl err \<Rightarrow> Some err
      | Inr matchingDC \<Rightarrow>
        (case comparePrivileges (Username vCenter) matchingDC (auth vCenter)
                (permissions permissionDatacenter) of
           None \<Rightarrow> None
         | Some err \<Rightarrow> Some (Errorf (''missing privileges for datacenter '' @ dataCenterName @ '': ''
                         @ error_text err))))"

definition getFolderReference ::
  "(vcenter \<Rightarrow> string \<Rightarrow> go_error + string) \<Rightarrow> vcenter \<Rightarrow> string \<Rightarrow> go_error + string" where
  "getFolderReference folder vCenter path =
     (case folder vCenter path of
        Inl err \<Rightarrow> Inl (Errorf (''specified folder not found: '' @ error_text err))
      | Inr ref \<Rightarrow> Inr ref)"

definition checkFolderPrivileges ::
  "auth_manager \<Rightarrow> (vcenter \<Rightarrow> string \<Rightarrow> go_error + string) \<Rightarrow> vcenter \<Rightarrow> string
   \<Rightarrow> permissionGroup \<Rightarrow> go_error option" where
  "checkFolderPrivileges auth folder vCenter folderPath grp =
     (case getFolderReference folder vCenter folderPath of
        Inl err \<Rightarrow> Some err
      | Inr ref \<Rightarrow>
        (case comparePrivileges (Username vCenter) ref (auth vCenter) (permissions grp) of
           None \<Rightarrow> None
         | Some err \<Rightarrow> Some (Errorf (''missing privileges for '' @ group_name grp @ '': ''
                         @ error_text err))))"

definition checkDatastorePrivileges ::
  "auth_manager \<Rightarrow> vcenter \<Rightarrow> string \<Rightarrow> string \<Rightarrow> go_error option" where
  "checkDatastorePrivileges auth vCenter dataStoreName dsRef =
     (case comparePrivileges (Username vCenter) dsRef (auth vCenter)
             (permissions permissionDatastore) of
        None \<Rightarrow> None
      | Some err \<Rightarrow> Some (Errorf (''missing privileges for datastore '' @ dataStoreName @ '': ''
                      @ error_text err)))"

text \<open>\<^verbatim>\<open>if err != nil { errs = append(errs, err) }\<close>\<close>

definition append_error :: "go_error list \<Rightarrow> go_error option \<Rightarrow> go_error list" where
  "append_error errs err = (case err of None \<Rightarrow> errs | Some e \<Rightarrow> errs @ [e])"

record inventory =
  inv_auth :: auth_manager
  inv_datacenter :: "vcenter \<Rightarrow> string \<Rightarrow> go_error + string"
  inv_datastore :: "vcenter \<Rightarrow> string \<Rightarrow> string \<Rightarrow> go_error + string"
  inv_folder :: "vcenter \<Rightarrow> string \<Rightarrow> go_error + string"

text \<open>
  The body of the loop for one failure domain, after its vCenter and datacenter were found:
  \<open>errs\<close> is the slice the domain's errors are appended to.
\<close>

definition account_domain ::
  "inventory \<Rightarrow> vcenter \<Rightarrow> failure_domain \<Rightarrow> string \<Rightarrow> go_error list \<Rightarrow> go_error list" where
  "account_domain iv vCenter fd matchingDC errs =
     (let t = Topology fd;
          errs = (case inv_datastore iv vCenter (Datastore t) matchingDC of
                    Inl err \<Rightarrow> append_error errs (Some err)
                  | Inr ds \<Rightarrow> append_error errs
                      (checkDatastorePrivileges (inv_auth iv) vCenter (Datastore t) ds));
          errs = append_error errs
            (checkDatacenterPrivileges (inv_auth iv) (inv_datacenter iv) vCenter (Datacenter t));
          errs = append_error errs
            (checkFolderPrivileges (inv_auth iv) (inv_folder iv) vCenter ''/'' permissionVcenter)
      in if Folder t \<noteq> [] then append_error errs
            (checkFolderPrivileges (inv_auth iv) (inv_folder iv) vCenter (Folder t) permissionFolder)
         else errs)"

fun account_loop ::
  "inventory \<Rightarrow> check_context \<Rightarrow> failure_domain list \<Rightarrow> go_error list \<Rightarrow> go_error + go_error list" where
  "account_loop iv ctx [] errs = Inr errs"
| "account_loop iv ctx (fd # fds) errs =
     (case map_of (VCenters ctx) (Server fd) of
        None \<Rightarrow> Inl (Errorf (''unable to check permissions.  vCenter '' @ Server fd @ '' not found''))
      | Some vCenter \<Rightarrow>
        (case inv_datacenter iv vCenter (Datacenter (Topology fd)) of
           Inl err \<Rightarrow> Inl err
         | Inr matchingDC \<Rightarrow>
             account_loop iv ctx fds (account_domain iv vCenter fd matchingDC errs)))"

definition CheckAccountPermissions ::
  "inventory \<Rightarrow> check_context \<Rightarrow> platform_spec \<Rightarrow> go_error option" where
  "CheckAccountPermissions iv ctx spec =
     (case account_loop iv ctx (FailureDomains spec) [] of
        Inl err \<Rightarrow> Some err
      | Inr errs \<Rightarrow> if 0 < length errs then Some (join errs) else None)"

section \<open>What the loops compute\<close>

lemma assigned_in_iff [simp]: "assigned_in p ps \<longleftrightarrow> p \<in> set ps"
  by (induction ps) auto

lemma has_privilege_iff [simp]: "has_privilege p ups has \<longleftrightarrow> has \<or> (\<exists>up \<in> set ups. p \<in> set up)"
  by (induction ups arbitrary: has) auto

definition held :: "string list list \<Rightarrow> string set" where
  "held derived = \<Union> (set ` set derived)"

definition missing_privileges :: "string list \<Rightarrow> string list list \<Rightarrow> string list" where
  "missing_privileges required derived = filter (\<lambda>p. p \<notin> held derived) required"

lemma missing_loop_eq:
  assumes "[] \<notin> set required"
  shows "missing_loop required derived acc =
    (if missing_privileges required derived = [] then acc
     else if acc = [] then join_strings '', '' (missing_privileges required derived)
     else acc @ '', '' @ join_strings '', '' (missing_privileges required derived))"
  using assms
proof (induction required arbitrary: acc)
  case (Cons p ps)
  have held: "has_privilege p derived False \<longleftrightarrow> p \<in> held derived" by (simp add: held_def)
  show ?case
    using Cons held
    by (auto simp: missing_privileges_def join_strings_Cons simp del: has_privilege_iff)
qed (simp add: missing_privileges_def)

lemma join_nonempty: "xs \<noteq> [] \<Longrightarrow> [] \<notin> set xs \<Longrightarrow> join_strings sep xs \<noteq> []"
  by (induction sep xs rule: join_strings.induct) auto

lemma permissions_nonempty [simp]: "[] \<notin> set (permissions g)"
  by (cases g) auto

lemma comparePrivileges_eq:
  assumes "[] \<notin> set required"
  shows "comparePrivileges user mo auth required =
    (case auth mo user of
       Inl err \<Rightarrow> Some (Errorf (''unable to retrieve privileges: '' @ error_text err))
     | Inr derived \<Rightarrow> if set required \<subseteq> held derived then None
         else Some (Errorf (join_strings '', '' (missing_privileges required derived))))"
proof -
  have "missing_privileges required d = [] \<longleftrightarrow> set required \<subseteq> held d" for d
    by (auto simp: missing_privileges_def filter_empty_conv)
  moreover have "missing_privileges required d \<noteq> [] \<Longrightarrow> join_strings '', '' (missing_privileges required d) \<noteq> []" for d
    using assms by (intro join_nonempty) (auto simp: missing_privileges_def)
  ultimately show ?thesis
    by (auto simp: comparePrivileges_def Let_def missing_loop_eq [OF assms] split: sum.split)
qed

text \<open>The account may do what a group needs on an object.\<close>

definition may :: "auth_manager \<Rightarrow> vcenter \<Rightarrow> permissionGroup \<Rightarrow> string \<Rightarrow> bool" where
  "may auth vc grp ref \<longleftrightarrow>
     (case auth vc ref (Username vc) of
        Inl _ \<Rightarrow> False | Inr derived \<Rightarrow> set (permissions grp) \<subseteq> held derived)"

lemma comparePrivileges_may:
  "comparePrivileges (Username vc) ref (auth vc) (permissions g) = None \<longleftrightarrow> may auth vc g ref"
  by (simp add: comparePrivileges_eq may_def split: sum.split)

lemma checkDatacenterPrivileges_None:
  "checkDatacenterPrivileges auth dc vc name = None \<longleftrightarrow>
     (\<exists>ref. dc vc name = Inr ref \<and> may auth vc permissionDatacenter ref)"
  unfolding checkDatacenterPrivileges_def comparePrivileges_may [symmetric]
  by (simp split: sum.split option.split)

lemma checkFolderPrivileges_None:
  "checkFolderPrivileges auth folder vc path g = None \<longleftrightarrow>
     (\<exists>ref. folder vc path = Inr ref \<and> may auth vc g ref)"
  unfolding checkFolderPrivileges_def getFolderReference_def comparePrivileges_may [symmetric]
  by (simp split: sum.split option.split)

lemma checkDatastorePrivileges_None:
  "checkDatastorePrivileges auth vc name ref = None \<longleftrightarrow> may auth vc permissionDatastore ref"
  unfolding checkDatastorePrivileges_def comparePrivileges_may [symmetric]
  by (simp split: option.split)

lemma append_error_Nil [simp]: "append_error errs e = [] \<longleftrightarrow> errs = [] \<and> e = None"
  by (auto simp: append_error_def split: option.split)

text \<open>What one failure domain needs.\<close>

definition domain_permitted :: "inventory \<Rightarrow> vcenter \<Rightarrow> failure_domain \<Rightarrow> bool" where
  "domain_permitted iv vc fd \<longleftrightarrow>
     (let t = Topology fd; ok = may (inv_auth iv) vc in
      (\<exists>dc ds. inv_datacenter iv vc (Datacenter t) = Inr dc \<and> ok permissionDatacenter dc \<and>
         inv_datastore iv vc (Datastore t) dc = Inr ds \<and> ok permissionDatastore ds) \<and>
      (\<exists>root. inv_folder iv vc ''/'' = Inr root \<and> ok permissionVcenter root) \<and>
      (Folder t \<noteq> [] \<longrightarrow> (\<exists>f. inv_folder iv vc (Folder t) = Inr f \<and> ok permissionFolder f)))"

lemma account_domain_Nil:
  assumes "inv_datacenter iv vc (Datacenter (Topology fd)) = Inr dc"
  shows "account_domain iv vc fd dc errs = [] \<longleftrightarrow> errs = [] \<and> domain_permitted iv vc fd"
  using assms
  by (auto simp: account_domain_def domain_permitted_def Let_def checkFolderPrivileges_None
      checkDatacenterPrivileges_None checkDatastorePrivileges_None split: sum.splits if_splits)

lemma account_loop_Nil:
  "account_loop iv ctx fds errs = Inr [] \<longleftrightarrow> errs = [] \<and>
     (\<forall>fd \<in> set fds. \<exists>vc. map_of (VCenters ctx) (Server fd) = Some vc \<and> domain_permitted iv vc fd)"
proof (induction fds arbitrary: errs)
  case (Cons fd fds)
  show ?case
  proof (cases "map_of (VCenters ctx) (Server fd)")
    case None
    then show ?thesis by simp
  next
    case (Some vc)
    show ?thesis
    proof (cases "inv_datacenter iv vc (Datacenter (Topology fd))")
      case (Inl err)
      then have "\<not> domain_permitted iv vc fd" by (auto simp: domain_permitted_def Let_def)
      with Some Inl show ?thesis by simp
    next
      case (Inr dc)
      then show ?thesis using Some Cons.IH account_domain_Nil [OF Inr] by auto
    qed
  qed
qed auto

lemma CheckAccountPermissions_None:
  "CheckAccountPermissions iv ctx spec = None \<longleftrightarrow>
     (\<forall>fd \<in> set (FailureDomains spec).
        \<exists>vc. map_of (VCenters ctx) (Server fd) = Some vc \<and> domain_permitted iv vc fd)"
proof -
  have "CheckAccountPermissions iv ctx spec = None \<longleftrightarrow>
      account_loop iv ctx (FailureDomains spec) [] = Inr []"
    by (auto simp: CheckAccountPermissions_def split: sum.splits)
  then show ?thesis by (simp add: account_loop_Nil)
qed

section \<open>Property\<close>

text \<open>
  C23: The account check passes exactly when, for every failure domain, its vCenter is connected
  and the account holds every listed privilege on the domain's datacenter, on its datastore, on
  the root folder and, when the domain names one, on its folder. No missing privilege is
  overlooked, and a complete account is never reported.
\<close>

theorem account_check_exact:
  "CheckAccountPermissions iv ctx spec = None \<longleftrightarrow>
     (\<forall>fd \<in> set (FailureDomains spec).
        \<exists>vc. map_of (VCenters ctx) (Server fd) = Some vc \<and> domain_permitted iv vc fd)"
  by (rule CheckAccountPermissions_None)

text \<open>An account without the privileges on the folder that the failure domains name.\<close>

definition no_folder_inventory :: inventory where
  "no_folder_inventory = \<lparr>
     inv_auth = (\<lambda>_ ref _. Inr (if ref = ''/dc/vm/f'' then []
       else [permissions permissionDatastore, permissions permissionDatacenter, permissions permissionVcenter])),
     inv_datacenter = (\<lambda>_ dc. Inr dc), inv_datastore = (\<lambda>_ ds _. Inr ds), inv_folder = (\<lambda>_ f. Inr f)\<rparr>"

theorem account_check_exact_witness:
  "CheckAccountPermissions no_folder_inventory sample_ctx sample_spec \<noteq> None"
proof -
  have "\<not> domain_permitted no_folder_inventory vc (sample_domain z s)" for vc z s
    by (simp add: domain_permitted_def no_folder_inventory_def sample_domain_def sample_topology_def may_def
        held_def Let_def)
  then show ?thesis
    using account_check_exact [of no_folder_inventory sample_ctx sample_spec] by (simp add: sample_spec_def)
qed

text \<open>
  \<^verbatim>\<open>comparePrivileges\<close> names every missing privilege once, in the order of the required
  list, and no other, however vCenter spreads the assigned ones over its results.
\<close>

theorem comparePrivileges_names_missing:
  assumes "[] \<notin> set required" "authManager mo user = Inr derived"
  shows "comparePrivileges user mo authManager required =
    (if \<forall>p \<in> set required. \<exists>ps \<in> set derived. p \<in> set ps then None
     else Some (Errorf (join_strings '', ''
            (filter (\<lambda>p. \<forall>ps \<in> set derived. p \<notin> set ps) required))))"
proof -
  have "missing_privileges required derived = filter (\<lambda>p. \<forall>ps \<in> set derived. p \<notin> set ps) required"
    by (simp add: missing_privileges_def held_def cong: filter_cong)
  then show ?thesis
    using assms by (auto simp: comparePrivileges_eq held_def)
qed

theorem comparePrivileges_names_missing_witness:
  "comparePrivileges ''u'' ''ds-1'' (\<lambda>_ _. Inr [[''Datastore.Browse''], [''Datastore.AllocateSpace'']])
     (permissions permissionDatastore) =
   Some (Errorf ''Datastore.FileManagement, InventoryService.Tagging.ObjectAttachable'')"
  by (subst comparePrivileges_names_missing [OF permissions_nonempty refl]) simp

end
