(* ===== verification/Datastore.thy ===== *)
theory Datastore
  imports Permissions InfraChecks Cache
begin

text \<open>
  pkg/check/datastore.go with \<^verbatim>\<open>getDatastoreByURL\<close> of util.go: the checks of the default
  datastore and of the storage classes, and the collector of datastore types behind the metric
  \<^verbatim>\<open>vsphere_datastore_total\<close>. vCenter and the storage policy server (pbm) are the record
  \<open>ds_env\<close>, vCenter's inventory as the one the cache of \<open>Cache\<close> loads. The state passed along
  is the type collector (\<^verbatim>\<open>nil\<close> for the default check) and the warnings about datastore clusters,
  which the code only logs.
\<close>

section \<open>Data\<close>

record pbm_profile =
  pbm_Name :: string
  pbm_Id :: string

datatype object_prop = NameProp string | SummaryProp "string option" | OtherProp

record object_content =
  oc_Value :: string
  oc_Type :: string
  oc_Props :: "object_prop list"

record ds_env =
  de_auth :: auth_manager
  de_inventory :: "vcenter \<Rightarrow> inventory_api"
  de_PbmClient :: "vcenter \<Rightarrow> go_error option"
  de_QueryProfile :: "vcenter \<Rightarrow> go_error + string list"
  de_RetrieveContent :: "vcenter \<Rightarrow> string list \<Rightarrow> go_error + pbm_profile list"
  de_ContainerView :: "vcenter \<Rightarrow> go_error option"
  de_Retrieve :: "vcenter \<Rightarrow> go_error + object_content list"
  de_CheckRequirements :: "vcenter \<Rightarrow> (string \<times> string) list \<Rightarrow> string \<Rightarrow> go_error + string list"

record datastoreInfo =
  di_name :: string
  datastoreURL :: string

record storage_class =
  sc_Name :: string
  Provisioner :: string
  Parameters :: "(string \<times> string) list"

definition dsParameter :: string where "dsParameter = ''datastore''"
definition storagePolicyParameter :: string where "storagePolicyParameter = ''storagepolicyname''"
definition dataStoreURL :: string where "dataStoreURL = ''datastoreurl''"
definition inTreeProvisionerName :: string where "inTreeProvisionerName = ''kubernetes.io/vsphere-volume''"
definition csiProvisionerName :: string where "csiProvisionerName = ''csi.vsphere.vmware.com''"

section \<open>The lookups\<close>

text \<open>
  The checks look everything up through the cache of the vCenter (\<open>Cache\<close>), which is good at the
  start of a round and stays good, and whose methods then answer what vCenter's inventory holds
  (\<open>accessors_functional\<close>, \<open>cache_transparent\<close>). So a lookup is the direct answer of the method's
  model; in particular \<^verbatim>\<open>GetStoragePods\<close> never fails.
\<close>

definition de_DatastoreMo :: "ds_env \<Rightarrow> vcenter \<Rightarrow> string \<Rightarrow> string \<Rightarrow> go_error + datastore_mo" where
  "de_DatastoreMo env vc dcName dsName = direct_mo (de_inventory env vc) (dcName, dsName)"

definition de_ByURL :: "ds_env \<Rightarrow> vcenter \<Rightarrow> string \<Rightarrow> string \<Rightarrow> go_error + datastore_mo" where
  "de_ByURL env vc dcName dsURL = direct_url (de_inventory env vc) (dcName, dsURL)"

definition de_ByRef :: "ds_env \<Rightarrow> vcenter \<Rightarrow> string \<Rightarrow> string \<Rightarrow> go_error + datastore_mo" where
  "de_ByRef env vc dcName ref = direct_ref (de_inventory env vc) (dcName, ref)"

definition de_StoragePods :: "ds_env \<Rightarrow> vcenter \<Rightarrow> go_error + storage_pod list" where
  "de_StoragePods env vc = direct_pods (de_inventory env vc)"

text \<open>Each of them is what the cache of a round answers, after any calls of the round.\<close>

lemma lookups_through_cache:
  assumes "cache_good (de_inventory env vc) c"
  shows "fst (getDataStoreMoByName (de_inventory env vc) dsName dcName c) = de_DatastoreMo env vc dcName dsName"
    "fst (GetDatastoreByURL (de_inventory env vc) (dcName, dsURL) c) = de_ByURL env vc dcName dsURL"
    "fst (getDatastore (de_inventory env vc) dcName ref c) = de_ByRef env vc dcName ref"
    "fst (GetStoragePods (de_inventory env vc) c) = de_StoragePods env vc"
  using accessors_functional [OF assms] url.get_direct [OF assms] GetStoragePods_good [OF assms]
  by (simp_all add: de_DatastoreMo_def de_ByURL_def de_ByRef_def de_StoragePods_def)

section \<open>The type collector\<close>

type_synonym dataStoreTypeCollector = "(string \<rightharpoonup> string) option"

definition addDataStore ::
  "string \<Rightarrow> string \<Rightarrow> dataStoreTypeCollector \<Rightarrow> dataStoreTypeCollector" where
  "addDataStore name dsType d =
     (case d of None \<Rightarrow> None | Some m \<Rightarrow> Some (m(name \<mapsto> to_lower dsType)))"

definition getDataStoreTypeCount :: "dataStoreTypeCollector \<Rightarrow> string list \<Rightarrow> (string \<rightharpoonup> nat) option" where
  "getDataStoreTypeCount d order =
     (case d of None \<Rightarrow> None
      | Some m \<Rightarrow> Some (fold (\<lambda>dsType c. map_incr c dsType) (map snd (range_map m order)) Map.empty))"

record ds_state =
  dsTypes :: dataStoreTypeCollector
  pod_warnings :: "(string \<times> string) list"

section \<open>One datastore\<close>

text \<open>The loop over the storage pods: the pods that hold a datastore of the same URL.\<close>

fun pod_children :: "ds_env \<Rightarrow> vcenter \<Rightarrow> string \<Rightarrow> datastore_mo \<Rightarrow> storage_pod \<Rightarrow> string list
  \<Rightarrow> (string \<times> string) list" where
  "pod_children env vc dcName moDS pod [] = []"
| "pod_children env vc dcName moDS pod (child # children) =
     (case de_ByRef env vc dcName child of
        Inl err \<Rightarrow> []
      | Inr tDS \<Rightarrow> if ds_SummaryUrl tDS = ds_SummaryUrl moDS then [(ds_Name tDS, pod_Name pod)] else [])
     @ pod_children env vc dcName moDS pod children"

definition checkForDatastoreCluster ::
  "ds_env \<Rightarrow> vcenter \<Rightarrow> datastore_mo \<Rightarrow> string \<Rightarrow> string \<Rightarrow> ds_state \<Rightarrow> go_error option \<times> ds_state" where
  "checkForDatastoreCluster env vc moDS dataStoreName dcName st =
     (let st = st\<lparr>dsTypes := addDataStore dataStoreName (ds_Type moDS) (dsTypes st)\<rparr> in
      case de_StoragePods env vc of
        Inl err \<Rightarrow> (Some (Errorf (''unable to get storage pods for vcenter '' @ VCenterName vc @ '': ''
                     @ error_text err)), st)
      | Inr content \<Rightarrow>
          (None, st\<lparr>pod_warnings := pod_warnings st @
             concat (map (\<lambda>pod. pod_children env vc dcName moDS pod (pod_Children pod)) content)\<rparr>))"

definition checkDataStore ::
  "ds_env \<Rightarrow> vcenter \<Rightarrow> string \<Rightarrow> string \<Rightarrow> ds_state \<Rightarrow> go_error option \<times> ds_state" where
  "checkDataStore env vc dsName dcName st =
     (case de_DatastoreMo env vc dcName dsName of
        Inl err \<Rightarrow> (Some err, st)
      | Inr moDS \<Rightarrow>
        (let (err1, st) = checkForDatastoreCluster env vc moDS dsName dcName st;
             err2 = checkDatastorePrivileges (de_auth env) vc dsName (ds_Ref moDS);
             errs = append_error (append_error [] err1) err2
         in (new_aggregate (map Some errs), st)))"

text \<open>The search through the failure domains; the datastore, its datacenter and its vCenter.\<close>

fun getDatastoreByURL ::
  "ds_env \<Rightarrow> check_context \<Rightarrow> failure_domain list \<Rightarrow> string \<Rightarrow> go_error + (datastore_mo \<times> string \<times> vcenter)" where
  "getDatastoreByURL env ctx [] dsURL = Inl (Errorf (''unable to find datastore with URL '' @ dsURL))"
| "getDatastoreByURL env ctx (fd # fds) dsURL =
     (case map_of (VCenters ctx) (Server fd) of
        None \<Rightarrow> Inl (Errorf (''vCenter '' @ Server fd @ '' not found''))
      | Some vCenter \<Rightarrow>
        (case de_ByURL env vCenter (Datacenter (Topology fd)) dsURL of
           Inl err \<Rightarrow> if err = ErrDatastoreNotFound then getDatastoreByURL env ctx fds dsURL else Inl err
         | Inr moDS \<Rightarrow> if ds_InfoUrl moDS = dsURL then Inr (moDS, Datacenter (Topology fd), vCenter)
                       else getDatastoreByURL env ctx fds dsURL))"

definition checkDataStoreWithURL ::
  "ds_env \<Rightarrow> check_context \<Rightarrow> platform_spec \<Rightarrow> string \<Rightarrow> ds_state \<Rightarrow> go_error option \<times> ds_state" where
  "checkDataStoreWithURL env ctx spec dsURL st =
     (case getDatastoreByURL env ctx (FailureDomains spec) dsURL of
        Inl err \<Rightarrow> (Some err, st)
      | Inr (moDS, dcName, vc) \<Rightarrow>
        (let (err1, st) = checkForDatastoreCluster env vc moDS dsURL dcName st;
             err2 = checkDatastorePrivileges (de_auth env) vc dsURL (ds_Ref moDS);
             errs = append_error (append_error [] err1) err2
         in (new_aggregate (map Some errs), st)))"

section \<open>The default datastore\<close>

fun checkDefaultDatastoreWithDSType ::
  "ds_env \<Rightarrow> check_context \<Rightarrow> failure_domain list \<Rightarrow> ds_state \<Rightarrow> go_error option \<times> ds_state" where
  "checkDefaultDatastoreWithDSType env ctx [] st = (None, st)"
| "checkDefaultDatastoreWithDSType env ctx (fd # fds) st =
     (case map_of (VCenters ctx) (Server fd) of
        None \<Rightarrow> (Some (Errorf (''defaultDatastore check failed due to missing vCenter configuration for infrastructure failure domain: ''
                  @ fd_Name fd)), st)
      | Some vc \<Rightarrow>
        (let dsName = Datastore (Topology fd); dcName = Datacenter (Topology fd) in
         case checkDataStore env vc dsName dcName st of
           (Some err, st) \<Rightarrow> (Some (Errorf (''defaultDatastore '' @ dcName @ ''/'' @ quote dsName
                              @ '' in vSphere configuration: '' @ error_text err)), st)
         | (None, st) \<Rightarrow> checkDefaultDatastoreWithDSType env ctx fds st))"

definition CheckDefaultDatastore :: "ds_env \<Rightarrow> check_context \<Rightarrow> platform_spec \<Rightarrow> go_error option" where
  "CheckDefaultDatastore env ctx spec =
     fst (checkDefaultDatastoreWithDSType env ctx (FailureDomains spec) \<lparr>dsTypes = None, pod_warnings = []\<rparr>)"

section \<open>Storage policies\<close>

definition getPolicy :: "ds_env \<Rightarrow> vcenter \<Rightarrow> string \<Rightarrow> go_error + pbm_profile list" where
  "getPolicy env vc name =
     (case de_PbmClient env vc of
        Some err \<Rightarrow> Inl (Errorf (''error creating pbm client: '' @ error_text err))
      | None \<Rightarrow>
        (case de_QueryProfile env vc of
           Inl err \<Rightarrow> Inl (Errorf (''error querying storage profiles: '' @ error_text err))
         | Inr ids \<Rightarrow>
           (case de_RetrieveContent env vc ids of
              Inl err \<Rightarrow> Inl (Errorf (''error retrieving detailed storage profiles: '' @ error_text err))
            | Inr profiles \<Rightarrow>
              (case find (\<lambda>p. pbm_Name p = name) profiles of
                 Some p \<Rightarrow> Inr [p]
               | None \<Rightarrow>
                 (case de_RetrieveContent env vc [name] of
                    Inl err \<Rightarrow> Inl (Errorf (''error getting pbm profiles for vCenter '' @ VCenterName vc
                                 @ '': '' @ error_text err))
                  | Inr profileContent \<Rightarrow> Inr profileContent)))))"

text \<open>The two variables set from the properties of one datastore, the last one of each kind.\<close>

fun read_props :: "object_prop list \<Rightarrow> string \<times> string \<Rightarrow> string \<times> string" where
  "read_props [] acc = acc"
| "read_props (NameProp n # ps) (name, url) = read_props ps (n, url)"
| "read_props (SummaryProp s # ps) (name, url) =
     read_props ps (name, (case s of None \<Rightarrow> url | Some u \<Rightarrow> u))"
| "read_props (OtherProp # ps) acc = read_props ps acc"

definition datastore_names :: "object_content list \<Rightarrow> (string \<rightharpoonup> datastoreInfo)" where
  "datastore_names content =
     fold (\<lambda>ds m. m(oc_Value ds \<mapsto> (case read_props (oc_Props ds) ([], []) of
        (name, url) \<Rightarrow> \<lparr>di_name = name, datastoreURL = url\<rparr>))) content Map.empty"

definition getPolicyDatastores ::
  "ds_env \<Rightarrow> vcenter \<Rightarrow> string \<Rightarrow> go_error + datastoreInfo list" where
  "getPolicyDatastores env vc profileID =
     (case de_PbmClient env vc of
        Some err \<Rightarrow> Inl (Errorf (''getPolicyDatastores: error creating pbm client: '' @ error_text err))
      | None \<Rightarrow>
        (case de_ContainerView env vc of
           Some err \<Rightarrow> Inl (Errorf (''getPolicyDatastores: error creating container view: '' @ error_text err))
         | None \<Rightarrow>
           (case de_Retrieve env vc of
              Inl err \<Rightarrow> Inl (Errorf (''getPolicyDatastores: error listing datastores: '' @ error_text err))
            | Inr content \<Rightarrow>
              (let datastoreNames = datastore_names content;
                   hubs = map (\<lambda>ds. (oc_Type ds, oc_Value ds)) content
               in case de_CheckRequirements env vc hubs profileID of
                    Inl err \<Rightarrow> Inl (Errorf (''getPolicyDatastores: error fetching matching datastores: ''
                                 @ error_text err))
                  | Inr compatible \<Rightarrow>
                      Inr (map (\<lambda>hub. case datastoreNames hub of
                                 None \<Rightarrow> \<lparr>di_name = [], datastoreURL = []\<rparr> | Some i \<Rightarrow> i) compatible)))))"

fun policy_datastores ::
  "ds_env \<Rightarrow> check_context \<Rightarrow> platform_spec \<Rightarrow> string \<Rightarrow> datastoreInfo list \<Rightarrow> go_error list \<Rightarrow> ds_state
   \<Rightarrow> go_error list \<times> ds_state" where
  "policy_datastores env ctx spec policyName [] errs st = (errs, st)"
| "policy_datastores env ctx spec policyName (dsInfo # dsInfos) errs st =
     (case checkDataStoreWithURL env ctx spec (datastoreURL dsInfo) st of
        (Some err, st) \<Rightarrow> policy_datastores env ctx spec policyName dsInfos
            (errs @ [Errorf (''storage policy '' @ policyName @ '': '' @ error_text err)]) st
      | (None, st) \<Rightarrow> policy_datastores env ctx spec policyName dsInfos errs st)"

fun policy_loop ::
  "ds_env \<Rightarrow> check_context \<Rightarrow> platform_spec \<Rightarrow> string \<Rightarrow> vcenter list \<Rightarrow> go_error list \<Rightarrow> ds_state
   \<Rightarrow> go_error option \<times> ds_state" where
  "policy_loop env ctx spec policyName [] errs st = (JoinErrors errs, st)"
| "policy_loop env ctx spec policyName (vc # vcs) errs st =
     (case getPolicy env vc policyName of
        Inl err \<Rightarrow> (Some (Errorf (''error listing storage policy: '' @ error_text err)), st)
      | Inr pbm \<Rightarrow>
        if length pbm = 0
        then (Some (Errorf (''error listing storage policy '' @ policyName @ '': policy not found'')), st)
        else if 1 < length pbm
        then (Some (Errorf (''error listing storage policy '' @ policyName @ '': multiple (''
                @ show_nat (length pbm) @ '') policies found'')), st)
        else case getPolicyDatastores env vc (pbm_Id (hd pbm)) of
          Inl err \<Rightarrow> (None, st)
        | Inr dataStores \<Rightarrow>
          (let (errs, st) = policy_datastores env ctx spec policyName dataStores errs st
           in policy_loop env ctx spec policyName vcs errs st))"

definition checkStoragePolicy ::
  "ds_env \<Rightarrow> check_context \<Rightarrow> platform_spec \<Rightarrow> string \<Rightarrow> ds_state \<Rightarrow> go_error option \<times> ds_state" where
  "checkStoragePolicy env ctx spec policyName st =
     policy_loop env ctx spec policyName (map snd (VCenters ctx)) [] st"

end
