(* ===== verification/StorageClasses.thy ===== *)
theory StorageClasses
  imports Datastore
begin

text \<open>
  \<^verbatim>\<open>CheckStorageClasses\<close> of pkg/check/datastore.go, and what the datastore checks guarantee.
  The parameters of a storage class are a map; the model takes them in the order the runtime
  ranges over them.
\<close>

section \<open>CheckStorageClasses\<close>

text \<open>The loop over the vCenters in the branch of the \<^verbatim>\<open>datastore\<close> parameter.\<close>

fun legacy_datastores ::
  "ds_env \<Rightarrow> string \<Rightarrow> string \<Rightarrow> string \<Rightarrow> vcenter list \<Rightarrow> go_error list \<Rightarrow> ds_state \<Rightarrow> go_error list \<times> ds_state" where
  "legacy_datastores env scName dsName dcName [] errs st = (errs, st)"
| "legacy_datastores env scName dsName dcName (vc # vcs) errs st =
     (case checkDataStore env vc dsName dcName st of
        (Some err, st) \<Rightarrow> legacy_datastores env scName dsName dcName vcs
            (errs @ [Errorf (''StorageClass '' @ scName @ '': '' @ error_text err)]) st
      | (None, st) \<Rightarrow> legacy_datastores env scName dsName dcName vcs errs st)"

definition class_parameter ::
  "ds_env \<Rightarrow> check_context \<Rightarrow> vsphere_config \<Rightarrow> platform_spec \<Rightarrow> string \<Rightarrow> string \<times> string
   \<Rightarrow> go_error list \<times> ds_state \<Rightarrow> go_error list \<times> ds_state" where
  "class_parameter env ctx cfg spec scName kv acc =
     (let (k, v) = kv; (errs, st) = acc; key = to_lower k in
      if key = dsParameter then
        (case LegacyConfig cfg of
           Some l \<Rightarrow> legacy_datastores env scName v (ws_Datacenter (Workspace l))
                       (map snd (VCenters ctx)) errs st
         | None \<Rightarrow> (errs, st))
      else if key = dataStoreURL then
        (let (err, st) = checkDataStoreWithURL env ctx spec v st
         in (append_error errs (case err of None \<Rightarrow> None
               | Some e \<Rightarrow> Some (Errorf (''StorageClass '' @ scName @ '': '' @ error_text e))), st))
      else if key = storagePolicyParameter then
        (let (err, st) = checkStoragePolicy env ctx spec v st
         in (append_error errs (case err of None \<Rightarrow> None
               | Some e \<Rightarrow> Some (Errorf (''StorageClass '' @ scName @ '': '' @ error_text e))), st))
      else (errs, snd (checkDefaultDatastoreWithDSType env ctx (FailureDomains spec) st)))"

definition vsphere_class :: "storage_class \<Rightarrow> bool" where
  "vsphere_class sc \<longleftrightarrow> \<not> (Provisioner sc \<noteq> inTreeProvisionerName \<and> Provisioner sc \<noteq> csiProvisionerName)"

fun class_loop ::
  "ds_env \<Rightarrow> check_context \<Rightarrow> vsphere_config \<Rightarrow> platform_spec \<Rightarrow> storage_class list
   \<Rightarrow> go_error list \<times> ds_state \<Rightarrow> go_error list \<times> ds_state" where
  "class_loop env ctx cfg spec [] acc = acc"
| "class_loop env ctx cfg spec (sc # scs) acc =
     class_loop env ctx cfg spec scs
       (if \<not> vsphere_class sc then acc
        else fold (class_parameter env ctx cfg spec (sc_Name sc)) (Parameters sc) acc)"

text \<open>
  The result: the error, and the gauges of \<^verbatim>\<open>vsphere_datastore_total\<close> set after the reset,
  as the map from datastore type to count; \<open>order\<close> is the order of the ranged collector.
\<close>

definition CheckStorageClasses ::
  "ds_env \<Rightarrow> check_context \<Rightarrow> vsphere_config \<Rightarrow> platform_spec \<Rightarrow> go_error + infrastructure
   \<Rightarrow> go_error + storage_class list \<Rightarrow> string list \<Rightarrow> go_error option \<times> (string \<rightharpoonup> nat)" where
  "CheckStorageClasses env ctx cfg spec infra classes order =
     (case infra of
        Inl err \<Rightarrow> (Some err, Map.empty)
      | Inr _ \<Rightarrow>
        (case classes of
           Inl err \<Rightarrow> (Some err, Map.empty)
         | Inr scs \<Rightarrow>
           (let (errs, st) = class_loop env ctx cfg spec scs
                  ([], \<lparr>dsTypes = Some Map.empty, pod_warnings = []\<rparr>)
            in (JoinErrors errs, the (getDataStoreTypeCount (dsTypes st) order)))))"

section \<open>One datastore\<close>

text \<open>
  A datastore of a datacenter, found by its name or its inventory path: the datacenter and its
  datastores can be loaded, each with a managed object of its name; the first one so named counts.
\<close>

definition datastore_found :: "inventory_api \<Rightarrow> string \<Rightarrow> string \<Rightarrow> datastore_mo \<Rightarrow> bool" where
  "datastore_found api dcName name mo \<longleftrightarrow>
     (\<exists>dc dss mos ds. api_Datacenter api dcName = Inr dc \<and> api_DatastoreList api dc = Inr dss \<and>
        api_DatastoreMos api dc (map obj_Ref dss) = Inr mos \<and>
        obj_Name ` set dss \<subseteq> ds_InfoName ` set mos \<and>
        find (\<lambda>x. obj_Name x = name \<or> obj_Path x = name) dss = Some ds \<and>
        find (\<lambda>m. ds_InfoName m = obj_Name ds) mos = Some mo)"

lemma match_datastores_errs:
  "snd (match_datastores dss mos) = [] \<longleftrightarrow> obj_Name ` set dss \<subseteq> ds_InfoName ` set mos"
proof (induction dss)
  case (Cons ds dss)
  have "find (\<lambda>mo. ds_InfoName mo = obj_Name ds) mos = None \<longleftrightarrow> obj_Name ds \<notin> ds_InfoName ` set mos"
    unfolding find_None_iff by (metis imageE image_eqI)
  then show ?case using Cons.IH by (auto simp: case_prod_beta Let_def split: option.splits)
qed simp

lemma match_datastores_find:
  assumes "snd (match_datastores dss mos) = []"
  shows "find (named name) (fst (match_datastores dss mos)) =
    map_option (\<lambda>ds. \<lparr>dsPath = obj_Path ds, cds_ds = ds, dsMo = the (find (\<lambda>m. ds_InfoName m = obj_Name ds) mos)\<rparr>)
      (find (\<lambda>x. obj_Name x = name \<or> obj_Path x = name) dss)
    \<and> (\<forall>ds \<in> set dss. find (\<lambda>m. ds_InfoName m = obj_Name ds) mos \<noteq> None)"
  using assms
proof (induction dss)
  case (Cons ds dss)
  then show ?case
    by (auto simp: case_prod_beta Let_def named_def split: option.splits)
qed simp

lemma de_DatastoreMo_found:
  "de_DatastoreMo env vc dcName name = Inr mo \<longleftrightarrow> datastore_found (de_inventory env vc) dcName name mo"
proof -
  let ?api = "de_inventory env vc"
  let ?P = "\<lambda>x. obj_Name x = name \<or> obj_Path x = name"
  have pick: "(\<exists>cds. find (named name) (fst (match_datastores dss mos)) = Some cds \<and> dsMo cds = mo) \<longleftrightarrow>
      (\<exists>ds. find ?P dss = Some ds \<and> find (\<lambda>m. ds_InfoName m = obj_Name ds) mos = Some mo)"
    if "snd (match_datastores dss mos) = []" for dss mos
  proof -
    note M = match_datastores_find [OF that, of name]
    show ?thesis
    proof (cases "find ?P dss")
      case (Some ds)
      then have "ds \<in> set dss" by (auto simp: find_Some_iff)
      then show ?thesis using M Some by auto
    qed (use M in auto)
  qed
  show ?thesis
  proof (cases "\<exists>dc dss mos. api_Datacenter ?api dcName = Inr dc \<and> api_DatastoreList ?api dc = Inr dss \<and>
      api_DatastoreMos ?api dc (map obj_Ref dss) = Inr mos")
    case True
    then obtain dc dss mos where l: "api_Datacenter ?api dcName = Inr dc" "api_DatastoreList ?api dc = Inr dss"
      "api_DatastoreMos ?api dc (map obj_Ref dss) = Inr mos" by blast
    have "de_DatastoreMo env vc dcName name = Inr mo \<longleftrightarrow> snd (match_datastores dss mos) = [] \<and>
        (\<exists>cds. find (named name) (fst (match_datastores dss mos)) = Some cds \<and> dsMo cds = mo)"
      by (auto simp: de_DatastoreMo_def direct_mo_def direct_search_def direct_datastores_def direct_datacenter_def
          load_datastores_def l case_prod_beta Let_def split: option.split)
    then show ?thesis
      using pick [of dss mos] l by (auto simp: datastore_found_def match_datastores_errs)
  next
    case False
    then have "\<not> datastore_found ?api dcName name mo" by (auto simp: datastore_found_def)
    moreover have "de_DatastoreMo env vc dcName name \<noteq> Inr mo"
      using False by (auto simp: de_DatastoreMo_def direct_mo_def direct_search_def direct_datastores_def
          direct_datacenter_def load_datastores_def split: sum.splits)
    ultimately show ?thesis by blast
  qed
qed

text \<open>What makes the check of one datastore pass. The storage pods play no part.\<close>

definition datastore_ok :: "ds_env \<Rightarrow> vcenter \<Rightarrow> datastore_mo \<Rightarrow> bool" where
  "datastore_ok env vc ds \<longleftrightarrow> may (de_auth env) vc permissionDatastore (ds_Ref ds)"

lemma checkForDatastoreCluster_None:
  "fst (checkForDatastoreCluster env vc ds name dc st) = None"
  by (simp add: checkForDatastoreCluster_def Let_def de_StoragePods_def direct_pods_def split: sum.split)

lemma new_aggregate_append_error:
  "new_aggregate (map Some (append_error (append_error [] e1) e2)) = None \<longleftrightarrow> e1 = None \<and> e2 = None"
  by (simp add: append_error_def split: option.split)

lemma checkDataStore_None:
  "fst (checkDataStore env vc name dc st) = None \<longleftrightarrow>
     (\<exists>ds. de_DatastoreMo env vc dc name = Inr ds \<and> datastore_ok env vc ds)"
  unfolding checkDataStore_def datastore_ok_def
  by (auto simp: Let_def new_aggregate_append_error checkDatastorePrivileges_None
      checkForDatastoreCluster_None case_prod_beta
      simp del: new_aggregate_None split: sum.split)

lemma getDatastoreByURL_Inr:
  assumes "getDatastoreByURL env ctx fds url = Inr (ds, dc, vc)"
  shows "\<exists>fd \<in> set fds. map_of (VCenters ctx) (Server fd) = Some vc \<and> dc = Datacenter (Topology fd) \<and>
    de_ByURL env vc dc url = Inr ds \<and> ds_InfoUrl ds = url"
  using assms
  by (induction fds) (auto split: option.splits sum.splits if_splits)

lemma checkDefault_None:
  "fst (checkDefaultDatastoreWithDSType env ctx fds st) = None \<longleftrightarrow>
     (\<forall>fd \<in> set fds. \<exists>vc. map_of (VCenters ctx) (Server fd) = Some vc \<and>
        (\<exists>ds. de_DatastoreMo env vc (Datacenter (Topology fd)) (Datastore (Topology fd)) = Inr ds \<and>
           datastore_ok env vc ds))"
proof (induction fds arbitrary: st)
  case (Cons fd fds)
  show ?case
  proof (cases "map_of (VCenters ctx) (Server fd)")
    case (Some vc)
    obtain err st' where c: "checkDataStore env vc (Datastore (Topology fd)) (Datacenter (Topology fd)) st = (err, st')"
      by (cases "checkDataStore env vc (Datastore (Topology fd)) (Datacenter (Topology fd)) st") auto
    then have "err = None \<longleftrightarrow> (\<exists>ds. de_DatastoreMo env vc (Datacenter (Topology fd)) (Datastore (Topology fd)) = Inr ds
        \<and> datastore_ok env vc ds)"
      using checkDataStore_None [of env vc "Datastore (Topology fd)" "Datacenter (Topology fd)" st] by simp
    then show ?thesis using Some c Cons.IH by (cases err) auto
  qed simp
qed simp

text \<open>
  C28: The default datastore check passes exactly when every failure domain's vCenter is connected,
  its datastore is found by name or path in its datacenter, and the account holds the datastore
  privileges on it. Datastore clusters do not matter: when they cannot be listed the check passes.
\<close>

theorem default_datastore_exact:
  "CheckDefaultDatastore env ctx spec = None \<longleftrightarrow>
     (\<forall>fd \<in> set (FailureDomains spec). \<exists>vc ds.
        map_of (VCenters ctx) (Server fd) = Some vc \<and>
        datastore_found (de_inventory env vc) (Datacenter (Topology fd)) (Datastore (Topology fd)) ds \<and>
        may (de_auth env) vc permissionDatastore (ds_Ref ds))"
  by (auto simp: CheckDefaultDatastore_def checkDefault_None datastore_ok_def de_DatastoreMo_found)

text \<open>An inventory with one datastore in every datacenter, of the datacenter's name.\<close>

definition one_datastore :: "string \<Rightarrow> inventory_api" where
  "one_datastore n = \<lparr>api_Datacenter = (\<lambda>dc. Inr \<lparr>dc_Ref = dc, dc_Path = dc\<rparr>),
     api_DatacenterList = Inr [],
     api_DatastoreList = (\<lambda>_. Inr [\<lparr>obj_Name = n, obj_Path = ''/dc/datastore/'' @ n, obj_Ref = ''datastore-1''\<rparr>]),
     api_DatastoreMos = (\<lambda>_ refs. Inr (map (\<lambda>r. \<lparr>ds_Ref = r, ds_Name = n, ds_InfoName = n, ds_InfoUrl = n,
        ds_SummaryUrl = n, ds_Type = ''VMFS''\<rparr>) refs)),
     api_PodView = Some (Errorf ''no permission''), api_Pods = Inr []\<rparr>"

definition usable_ds_env :: ds_env where
  "usable_ds_env = \<lparr>de_auth = (\<lambda>_ _ _. Inr [permissions permissionDatastore]),
     de_inventory = (\<lambda>_. one_datastore ''ds''), de_PbmClient = (\<lambda>_. None), de_QueryProfile = (\<lambda>_. Inr []),
     de_RetrieveContent = (\<lambda>_ _. Inr []), de_ContainerView = (\<lambda>_. None), de_Retrieve = (\<lambda>_. Inr []),
     de_CheckRequirements = (\<lambda>_ _ _. Inr [])\<rparr>"

theorem default_datastore_exact_witness:
  "CheckDefaultDatastore usable_ds_env sample_ctx sample_spec = None"
proof -
  have "may (de_auth usable_ds_env) vc permissionDatastore ref" for vc ref
    by (simp add: may_def usable_ds_env_def held_def)
  moreover have "map_of (VCenters sample_ctx) s \<noteq> None" if "s \<in> {''vc1'', ''vc2''}" for s
    using that by (auto simp: sample_ctx_def)
  ultimately show ?thesis
    unfolding default_datastore_exact
    by (auto simp: sample_spec_def sample_domain_def usable_ds_env_def datastore_found_def one_datastore_def sample_topology_def)
qed

section \<open>Storage classes of other provisioners\<close>

lemma class_loop_filter:
  "class_loop env ctx cfg spec scs acc = class_loop env ctx cfg spec (filter vsphere_class scs) acc"
  by (induction scs arbitrary: acc) auto

section \<open>A storage policy whose datastores cannot be listed\<close>

definition policy_found :: "ds_env \<Rightarrow> vcenter \<Rightarrow> string \<Rightarrow> bool" where
  "policy_found env vc name \<longleftrightarrow> (\<exists>p. getPolicy env vc name = Inr [p])"

definition policy_unlisted :: "ds_env \<Rightarrow> vcenter \<Rightarrow> string \<Rightarrow> bool" where
  "policy_unlisted env vc name \<longleftrightarrow>
     (\<exists>p e. getPolicy env vc name = Inr [p] \<and> getPolicyDatastores env vc (pbm_Id p) = Inl e)"

lemma policy_loop_unlisted:
  assumes "\<forall>vc \<in> set vcs. policy_found env vc name" "\<exists>vc \<in> set vcs. policy_unlisted env vc name"
  shows "fst (policy_loop env ctx spec name vcs errs st) = None"
  using assms
proof (induction vcs arbitrary: errs st)
  case (Cons vc vcs)
  obtain p where p: "getPolicy env vc name = Inr [p]" using Cons.prems by (auto simp: policy_found_def)
  show ?case
  proof (cases "getPolicyDatastores env vc (pbm_Id p)")
    case (Inl e)
    then show ?thesis using p by simp
  next
    case (Inr dss)
    then have "\<not> policy_unlisted env vc name" using p by (simp add: policy_unlisted_def)
    then show ?thesis using Cons p Inr by (simp add: case_prod_beta)
  qed
qed simp

text \<open>
  C29: The storage policy check forgets what it found: when the policy exists on every vCenter but
  the datastores of one vCenter cannot be listed, it passes, even if a datastore of another
  vCenter, checked before, had a problem.
\<close>

theorem storage_policy_errors_dropped:
  assumes "\<forall>vc \<in> snd ` set (VCenters ctx). policy_found env vc name"
    and "\<exists>vc \<in> snd ` set (VCenters ctx). policy_unlisted env vc name"
  shows "fst (checkStoragePolicy env ctx spec name st) = None"
  unfolding checkStoragePolicy_def by (rule policy_loop_unlisted) (use assms in auto)

text \<open>An environment in which the first vCenter's datastore is broken and the second cannot be listed.\<close>

definition broken_ds_env :: ds_env where
  "broken_ds_env = \<lparr>de_auth = (\<lambda>_ _ _. Inr []),
     de_inventory = (\<lambda>_. one_datacenter), de_PbmClient = (\<lambda>_. None), de_QueryProfile = (\<lambda>_. Inr [''id'']),
     de_RetrieveContent = (\<lambda>_ _. Inr [\<lparr>pbm_Name = ''gold'', pbm_Id = ''id''\<rparr>]),
     de_ContainerView = (\<lambda>_. None),
     de_Retrieve = (\<lambda>vc. if VCenterName vc = ''vc2'' then Inl (Errorf ''no permission'')
        else Inr [\<lparr>oc_Value = ''ds-1'', oc_Type = ''Datastore'', oc_Props = [NameProp ''ds'', SummaryProp (Some ''url'')]\<rparr>]),
     de_CheckRequirements = (\<lambda>_ hubs _. Inr (map snd hubs))\<rparr>"

lemma broken_policy: "getPolicy broken_ds_env vc ''gold'' = Inr [\<lparr>pbm_Name = ''gold'', pbm_Id = ''id''\<rparr>]"
  by (simp add: getPolicy_def broken_ds_env_def)

lemma broken_ds_lookup: "\<exists>e. de_ByURL broken_ds_env vc dc url = Inl e"
proof (cases "api_Datacenter one_datacenter dc")
  case (Inl e)
  then show ?thesis
    by (simp add: de_ByURL_def broken_ds_env_def direct_url_def direct_search_def direct_datastores_def
        direct_datacenter_def)
next
  case (Inr d)
  moreover have "load_datastores one_datacenter d = Inr []"
    by (simp add: load_datastores_def one_datacenter_def)
  ultimately show ?thesis
    by (simp add: de_ByURL_def broken_ds_env_def direct_url_def direct_search_def direct_datastores_def
        direct_datacenter_def)
qed

theorem storage_policy_errors_dropped_witness:
  "fst (checkStoragePolicy broken_ds_env sample_ctx sample_spec ''gold'' \<lparr>dsTypes = None, pod_warnings = []\<rparr>) = None
   \<and> fst (checkStoragePolicy broken_ds_env (sample_ctx\<lparr>VCenters := [hd (VCenters sample_ctx)]\<rparr>) sample_spec ''gold''
        \<lparr>dsTypes = None, pod_warnings = []\<rparr>) \<noteq> None"
proof
  have "\<forall>vc \<in> snd ` set (VCenters sample_ctx). policy_found broken_ds_env vc ''gold''"
    by (simp add: policy_found_def broken_policy)
  moreover have "\<exists>vc \<in> snd ` set (VCenters sample_ctx). policy_unlisted broken_ds_env vc ''gold''"
  proof -
    have "getPolicyDatastores broken_ds_env \<lparr>VCenterName = ''vc2'', Username = ''u''\<rparr> ''id''
        = Inl (Errorf (''getPolicyDatastores: error listing datastores: '' @ ''no permission''))"
      by (simp add: getPolicyDatastores_def broken_ds_env_def)
    then show ?thesis by (simp add: policy_unlisted_def broken_policy sample_ctx_def)
  qed
  ultimately show "fst (checkStoragePolicy broken_ds_env sample_ctx sample_spec ''gold''
      \<lparr>dsTypes = None, pod_warnings = []\<rparr>) = None"
    by (rule storage_policy_errors_dropped)
  have none: "\<exists>e. getDatastoreByURL broken_ds_env ctx fds url = Inl e" for ctx fds url
  proof (induction fds)
    case (Cons fd fds)
    show ?case
    proof (cases "map_of (VCenters ctx) (Server fd)")
      case (Some vc)
      obtain e where e: "de_ByURL broken_ds_env vc (Datacenter (Topology fd)) url = Inl e"
        using broken_ds_lookup by blast
      show ?thesis using Some e Cons.IH by (cases "e = ErrDatastoreNotFound") simp_all
    qed simp
  qed simp
  have fails: "\<exists>e st'. checkDataStoreWithURL broken_ds_env ctx spec url st = (Some e, st')" for ctx spec url st
    using none [of ctx "FailureDomains spec" url] by (auto simp: checkDataStoreWithURL_def)
  have list: "getPolicyDatastores broken_ds_env \<lparr>VCenterName = ''vc1'', Username = ''u''\<rparr> ''id''
      = Inr [\<lparr>di_name = ''ds'', datastoreURL = ''url''\<rparr>]"
    by (simp add: getPolicyDatastores_def broken_ds_env_def datastore_names_def)
  obtain e st' where "checkDataStoreWithURL broken_ds_env (sample_ctx\<lparr>VCenters := [hd (VCenters sample_ctx)]\<rparr>)
      sample_spec ''url'' \<lparr>dsTypes = None, pod_warnings = []\<rparr> = (Some e, st')" using fails by blast
  then show "fst (checkStoragePolicy broken_ds_env (sample_ctx\<lparr>VCenters := [hd (VCenters sample_ctx)]\<rparr>) sample_spec ''gold''
        \<lparr>dsTypes = None, pod_warnings = []\<rparr>) \<noteq> None"
    using list by (simp add: checkStoragePolicy_def broken_policy del: not_None_eq) (simp add: sample_ctx_def JoinErrors_None del: not_None_eq)
qed

end
