(* ===== verification/ZoneTags.thy ===== *)
theory ZoneTags
  imports CheckContext
begin

text \<open>
  The tag checks of multi-zone clusters: pkg/check/zones.go and the lookups of pkg/check/util.go
  it uses, which the theory \<open>HostGroups\<close> shares. The tag manager, the inventory and the cluster
  configurations are the record \<open>tag_env\<close>.

  A check may panic. Its result is an option: \<open>None\<close> is the panic, \<open>Some err\<close> the returned
  error, which is an option itself.
\<close>

section \<open>Data\<close>

record mo_ref =
  ref_Type :: string
  ref_Value :: string

record category =
  cat_Name :: string
  cat_ID :: string

record tag =
  tag_CategoryID :: string
  tag_Name :: string

record attached_tags =
  at_Object :: mo_ref
  at_Tags :: "tag list"

datatype cluster_group = ClusterHostGroup string "mo_ref list" | ClusterVmGroup string | OtherGroup
datatype cluster_rule = ClusterVmHostRule string | OtherRule

record cluster_config =
  cc_Group :: "cluster_group list"
  cc_Rule :: "cluster_rule list"

record tag_env =
  te_Categories :: "vcenter \<Rightarrow> go_error + category list"
  te_Datacenter :: "vcenter \<Rightarrow> string \<Rightarrow> go_error + string"
  te_Cluster :: "vcenter \<Rightarrow> string \<Rightarrow> string \<Rightarrow> go_error + mo_ref"
  te_Configuration :: "vcenter \<Rightarrow> mo_ref \<Rightarrow> go_error + cluster_config"
  te_Ancestors :: "vcenter \<Rightarrow> mo_ref \<Rightarrow> go_error + mo_ref list"
  te_AttachedTags :: "vcenter \<Rightarrow> mo_ref list \<Rightarrow> go_error + attached_tags list"
  te_range :: "string set \<Rightarrow> string list"

definition TagCategoryRegion :: string where "TagCategoryRegion = ''openshift-region''"
definition TagCategoryZone :: string where "TagCategoryZone = ''openshift-zone''"
definition HostGroupFailureDomainZone :: string where "HostGroupFailureDomainZone = ''HostGroup''"
definition ComputeClusterFailureDomainZone :: string where
  "ComputeClusterFailureDomainZone = ''ComputeCluster''"
definition DatacenterFailureDomainRegion :: string where
  "DatacenterFailureDomainRegion = ''Datacenter''"
definition ComputeClusterFailureDomainRegion :: string where
  "ComputeClusterFailureDomainRegion = ''ComputeCluster''"

section \<open>Lookups\<close>

fun category_loop :: "category list \<Rightarrow> string \<times> string \<Rightarrow> string \<times> string" where
  "category_loop [] ids = ids"
| "category_loop (c # cs) (region, zone) =
     (let region = (if cat_Name c = TagCategoryRegion then cat_ID c else region);
          zone = (if cat_Name c = TagCategoryZone then cat_ID c else zone)
      in if 0 < length zone \<and> 0 < length region then (region, zone)
         else category_loop cs (region, zone))"

definition getCategories :: "tag_env \<Rightarrow> vcenter \<Rightarrow> go_error + category list" where
  "getCategories env vc = (case te_Categories env vc of Inl err \<Rightarrow> Inl err | Inr tags \<Rightarrow> Inr tags)"

lemma getCategories_eq [simp]: "getCategories env vc = te_Categories env vc"
  by (simp add: getCategories_def split: sum.split)

definition getAttachedTagsOnObjects :: "tag_env \<Rightarrow> vcenter \<Rightarrow> mo_ref list \<Rightarrow> go_error + attached_tags list" where
  [simp]: "getAttachedTagsOnObjects env vc references = te_AttachedTags env vc references"

definition validateTagCategories :: "tag_env \<Rightarrow> vcenter \<Rightarrow> go_error + (string \<times> string)" where
  "validateTagCategories env vc =
     (case getCategories env vc of
        Inl err \<Rightarrow> Inl err
      | Inr categories \<Rightarrow>
        (let (region, zone) = category_loop categories ([], []) in
         if length zone = 0 \<or> length region = 0
         then Inl (Errorf ''tag categories openshift-zone and openshift-region must be created'')
         else Inr (region, zone)))"

definition getClusterComputeResource ::
  "tag_env \<Rightarrow> vcenter \<Rightarrow> string \<Rightarrow> string \<Rightarrow> go_error + mo_ref" where
  "getClusterComputeResource env vc computeCluster dc =
     (case te_Cluster env vc computeCluster dc of
        Inl err \<Rightarrow> Inl (Errorf (''unable to get cluster ComputeResource: '' @ error_text err))
      | Inr ref \<Rightarrow> Inr ref)"

fun first_host_group :: "string \<Rightarrow> cluster_group list \<Rightarrow> mo_ref list" where
  "first_host_group name [] = []"
| "first_host_group name (ClusterHostGroup n hosts # gs) =
     (if n \<noteq> name then first_host_group name gs else hosts)"
| "first_host_group name (_ # gs) = first_host_group name gs"

text \<open>\<^verbatim>\<open>None\<close> when the zone affinity has no host group and some host group is looked at.\<close>

definition getHostsInHostGroup ::
  "tag_env \<Rightarrow> vcenter \<Rightarrow> mo_ref \<Rightarrow> failure_domain \<Rightarrow> (go_error + mo_ref list) option" where
  "getHostsInHostGroup env vc cluster fd =
     (case ZoneAffinity fd of
        None \<Rightarrow> Some (Inr [])
      | Some za \<Rightarrow>
        (case te_Configuration env vc cluster of
           Inl err \<Rightarrow> Some (Inl (Errorf (''unable to get cluster configuration. '' @ error_text err)))
         | Inr cfg \<Rightarrow>
           (case za_HostGroup za of
              None \<Rightarrow> if \<exists>g \<in> set (cc_Group cfg). \<exists>n hs. g = ClusterHostGroup n hs then None
                      else Some (Inr [])
            | Some hg \<Rightarrow> Some (Inr (first_host_group (hg_HostGroup hg) (cc_Group cfg))))))"

definition getAncestors ::
  "tag_env \<Rightarrow> vcenter \<Rightarrow> mo_ref \<Rightarrow> failure_domain \<Rightarrow> (go_error + mo_ref list) option" where
  "getAncestors env vc reference fd =
     (case te_Ancestors env vc reference of
        Inl err \<Rightarrow> Some (Inl err)
      | Inr ancestors \<Rightarrow>
        (if (\<exists>za. ZoneAffinity fd = Some za \<and> za_Type za = HostGroupFailureDomainZone)
         then (case getHostsInHostGroup env vc reference fd of
                 None \<Rightarrow> None
               | Some (Inl err) \<Rightarrow> Some (Inl (Errorf (''unable to get hosts in host group: '' @ error_text err)))
               | Some (Inr hosts) \<Rightarrow> Some (Inr (ancestors @ hosts)))
         else Some (Inr ancestors)))"

section \<open>validateTagAttachment\<close>

definition region_tag_counts :: "failure_domain \<Rightarrow> string \<Rightarrow> attached_tags \<Rightarrow> tag \<Rightarrow> bool" where
  "region_tag_counts fd regionID at t =
     (tag_CategoryID t = regionID \<and>
      (if RegionAffinity fd = Some DatacenterFailureDomainRegion then ref_Type (at_Object at) = ''Datacenter''
       else if RegionAffinity fd = Some ComputeClusterFailureDomainRegion
       then ref_Type (at_Object at) = ''ClusterComputeResource''
       else True))"

definition zone_tag_counts :: "failure_domain \<Rightarrow> string \<Rightarrow> attached_tags \<Rightarrow> tag \<Rightarrow> bool" where
  "zone_tag_counts fd zoneID at t =
     (tag_CategoryID t = zoneID \<and>
      (if \<exists>za. ZoneAffinity fd = Some za \<and> za_Type za = ComputeClusterFailureDomainZone
       then ref_Type (at_Object at) = ''ClusterComputeResource'' else True))"

text \<open>The loop over the tags of one object; the third component is the early return.\<close>

fun tag_loop ::
  "failure_domain \<Rightarrow> string \<Rightarrow> string \<Rightarrow> attached_tags \<Rightarrow> tag list \<Rightarrow> bool \<times> bool \<Rightarrow> bool \<times> bool \<times> bool" where
  "tag_loop fd rID zID at [] (r, z) = (r, z, False)"
| "tag_loop fd rID zID at (t # ts) (r, z) =
     (let r = (if \<not> r then region_tag_counts fd rID at t else r);
          z = (if \<not> z then zone_tag_counts fd zID at t else z)
      in if r \<and> z then (r, z, True) else tag_loop fd rID zID at ts (r, z))"

fun attached_loop ::
  "failure_domain \<Rightarrow> string \<Rightarrow> string \<Rightarrow> attached_tags list \<Rightarrow> bool \<times> bool \<Rightarrow> bool \<times> bool \<times> bool" where
  "attached_loop fd rID zID [] (r, z) = (r, z, False)"
| "attached_loop fd rID zID (at # ats) rz =
     (case tag_loop fd rID zID at (at_Tags at) rz of
        (r, z, True) \<Rightarrow> (r, z, True)
      | (r, z, False) \<Rightarrow> attached_loop fd rID zID ats (r, z))"

definition not_attached :: "string \<Rightarrow> string" where
  "not_attached c = ''tag associated with tag category '' @ c @ '' not attached to this resource or ancestor''"

definition validateTagAttachment ::
  "tag_env \<Rightarrow> vcenter \<Rightarrow> mo_ref \<Rightarrow> failure_domain \<Rightarrow> string \<Rightarrow> string \<Rightarrow> go_error option option" where
  "validateTagAttachment env vc reference fd regionID zoneID =
     (case getAncestors env vc reference fd of
        None \<Rightarrow> None
      | Some (Inl err) \<Rightarrow> Some (Some err)
      | Some (Inr ancestors) \<Rightarrow>
        (case getAttachedTagsOnObjects env vc (reference # ancestors) of
           Inl err \<Rightarrow> Some (Some err)
         | Inr attached \<Rightarrow>
           (case attached_loop fd regionID zoneID attached (False, False) of
              (r, z, True) \<Rightarrow> Some None
            | (r, z, False) \<Rightarrow>
                Some (Some (Errorf (join_strings '',''
                  ((if \<not> r then [not_attached TagCategoryRegion] else [])
                   @ (if \<not> z then [not_attached TagCategoryZone] else []))))))))"

section \<open>CheckZoneTags\<close>

text \<open>
  The second group of \<^verbatim>\<open>^/(.*?)/host/(.*?)$\<close>: what follows the first \<^verbatim>\<open>/host/\<close> after the
  leading slash. The dot does not match a new line.
\<close>

fun after_host :: "string \<Rightarrow> string option" where
  "after_host [] = None"
| "after_host (x # xs) =
     (if prefix ''/host/'' (x # xs) then Some (drop 6 (x # xs)) else after_host xs)"

definition cluster_path_name :: "string \<Rightarrow> string option" where
  "cluster_path_name s =
     (if CHR 0x0A \<in> set s then None
      else case s of [] \<Rightarrow> None | c # rest \<Rightarrow> if c = CHR ''/'' then after_host rest else None)"

text \<open>
  One failure domain: the errors it appends, or an early return of the check (\<open>Inl\<close>); \<open>None\<close>
  is the index out of range on a path that does not match.
\<close>

definition zone_domain ::
  "tag_env \<Rightarrow> check_context \<Rightarrow> (string \<Rightarrow> string \<times> string) \<Rightarrow> failure_domain \<Rightarrow> (go_error + go_error list) option" where
  "zone_domain env ctx categories fd =
     (case map_of (VCenters ctx) (Server fd) of
        None \<Rightarrow> Some (Inl (Errorf (''Multi-Zone support: unable to check zone tags: vCenter '' @ Server fd
                  @ '' for failure domain '' @ fd_Name fd @ '' not found in cloud provider config'')))
      | Some vCenter \<Rightarrow>
        (case cluster_path_name (ComputeCluster (Topology fd)) of
           None \<Rightarrow> None
         | Some clusterName \<Rightarrow>
           (case te_Datacenter env vCenter (Datacenter (Topology fd)) of
              Inl err \<Rightarrow> Some (Inr [Errorf (''unable to get datacenter '' @ Datacenter (Topology fd)
                           @ '' for failure domain '' @ fd_Name fd @ '': '' @ error_text err)])
            | Inr dc \<Rightarrow>
              (case getClusterComputeResource env vCenter clusterName dc of
                 Inl err \<Rightarrow> Some (Inr [Errorf (''unable to get ClusterComputeResource '' @ clusterName
                              @ '' for failure domain '' @ fd_Name fd @ '': '' @ error_text err)])
               | Inr ref \<Rightarrow>
                 (case validateTagAttachment env vCenter ref fd (fst (categories (Server fd)))
                         (snd (categories (Server fd))) of
                    None \<Rightarrow> None
                  | Some None \<Rightarrow> Some (Inr [])
                  | Some (Some err) \<Rightarrow> Some (Inr [Errorf (''Multi-Zone support: ClusterComputeResource ''
                      @ clusterName @ '' for failure domain '' @ fd_Name fd @ '': '' @ error_text err)]))))))"

fun zone_loop ::
  "tag_env \<Rightarrow> check_context \<Rightarrow> (string \<Rightarrow> string \<times> string) \<Rightarrow> failure_domain list \<Rightarrow> go_error list
   \<Rightarrow> go_error option option" where
  "zone_loop env ctx categories [] errs = Some (if 0 < length errs then Some (join errs) else None)"
| "zone_loop env ctx categories (fd # fds) errs =
     (case zone_domain env ctx categories fd of
        None \<Rightarrow> None
      | Some (Inl err) \<Rightarrow> Some (Some err)
      | Some (Inr es) \<Rightarrow> zone_loop env ctx categories fds (errs @ es))"

text \<open>The category IDs of every vCenter, by name; a missing name reads as empty strings.\<close>

fun category_ids ::
  "tag_env \<Rightarrow> vcenter list \<Rightarrow> (string \<Rightarrow> string \<times> string) \<Rightarrow> go_error + (string \<Rightarrow> string \<times> string)" where
  "category_ids env [] m = Inr m"
| "category_ids env (vc # vcs) m =
     (case validateTagCategories env vc of
        Inl err \<Rightarrow> Inl (Errorf (''Multi-Zone support: '' @ error_text err))
      | Inr ids \<Rightarrow> category_ids env vcs (m(VCenterName vc := ids)))"

definition CheckZoneTags ::
  "tag_env \<Rightarrow> check_context \<Rightarrow> go_error + infrastructure \<Rightarrow> go_error option option" where
  "CheckZoneTags env ctx answer =
     (case answer of
        Inl err \<Rightarrow> Some (Some err)
      | Inr inf' \<Rightarrow>
        (case spec_VSphere inf' of
           None \<Rightarrow> Some None
         | Some spec \<Rightarrow>
           if 1 < length (FailureDomains spec) then
             (case category_ids env (map snd (VCenters ctx)) (\<lambda>_. ([], [])) of
                Inl err \<Rightarrow> Some (Some err)
              | Inr categories \<Rightarrow> zone_loop env ctx categories (FailureDomains spec) [])
           else Some None))"

section \<open>When tags are attached\<close>

definition region_attached :: "failure_domain \<Rightarrow> string \<Rightarrow> attached_tags list \<Rightarrow> bool" where
  "region_attached fd rID ats \<longleftrightarrow> (\<exists>at \<in> set ats. \<exists>t \<in> set (at_Tags at). region_tag_counts fd rID at t)"

definition zone_attached :: "failure_domain \<Rightarrow> string \<Rightarrow> attached_tags list \<Rightarrow> bool" where
  "zone_attached fd zID ats \<longleftrightarrow> (\<exists>at \<in> set ats. \<exists>t \<in> set (at_Tags at). zone_tag_counts fd zID at t)"

lemma tag_loop_eq:
  assumes "\<not> (r \<and> z)"
  shows "tag_loop fd rID zID at ts (r, z) =
    (let r' = (r \<or> (\<exists>t \<in> set ts. region_tag_counts fd rID at t));
         z' = (z \<or> (\<exists>t \<in> set ts. zone_tag_counts fd zID at t))
     in (r', z', r' \<and> z')) \<or>
    tag_loop fd rID zID at ts (r, z) = (True, True, True) \<and>
      (r \<or> (\<exists>t \<in> set ts. region_tag_counts fd rID at t)) \<and> (z \<or> (\<exists>t \<in> set ts. zone_tag_counts fd zID at t))"
  using assms
proof (induction ts arbitrary: r z)
  case (Cons t ts)
  let ?r = "r \<or> region_tag_counts fd rID at t" and ?z = "z \<or> zone_tag_counts fd zID at t"
  show ?case
  proof (cases "?r \<and> ?z")
    case True
    then show ?thesis by (auto simp: Let_def)
  next
    case False
    then have "tag_loop fd rID zID at (t # ts) (r, z) = tag_loop fd rID zID at ts (?r, ?z)"
      by (auto simp: Let_def)
    then show ?thesis using Cons.IH [OF False] by (auto simp: Let_def)
  qed
qed simp

lemma attached_loop_done:
  assumes "\<not> (r \<and> z)"
  shows "snd (snd (attached_loop fd rID zID ats (r, z))) \<longleftrightarrow>
    (r \<or> region_attached fd rID ats) \<and> (z \<or> zone_attached fd zID ats)"
  using assms
proof (induction ats arbitrary: r z)
  case (Cons at ats)
  let ?r = "r \<or> (\<exists>t \<in> set (at_Tags at). region_tag_counts fd rID at t)"
  let ?z = "z \<or> (\<exists>t \<in> set (at_Tags at). zone_tag_counts fd zID at t)"
  have split: "region_attached fd rID (at # ats) \<longleftrightarrow>
      (\<exists>t \<in> set (at_Tags at). region_tag_counts fd rID at t) \<or> region_attached fd rID ats"
    "zone_attached fd zID (at # ats) \<longleftrightarrow>
      (\<exists>t \<in> set (at_Tags at). zone_tag_counts fd zID at t) \<or> zone_attached fd zID ats"
    by (auto simp: region_attached_def zone_attached_def)
  have loop: "tag_loop fd rID zID at (at_Tags at) (r, z) = (?r, ?z, ?r \<and> ?z)"
    using tag_loop_eq [OF Cons.prems, of fd rID zID at "at_Tags at"] by (auto simp: Let_def)
  show ?case
  proof (cases "?r \<and> ?z")
    case True
    then show ?thesis using loop split by auto
  next
    case False
    then have "attached_loop fd rID zID (at # ats) (r, z) = attached_loop fd rID zID ats (?r, ?z)"
      unfolding attached_loop.simps loop by (cases ?r; cases ?z) auto
    then show ?thesis using Cons.IH [OF False] split by auto
  qed
qed (auto simp: region_attached_def zone_attached_def)

lemma validateTagAttachment_passes:
  "validateTagAttachment env vc ref fd rID zID = Some None \<longleftrightarrow>
     (\<exists>ancestors attached. getAncestors env vc ref fd = Some (Inr ancestors) \<and>
        te_AttachedTags env vc (ref # ancestors) = Inr attached \<and>
        region_attached fd rID attached \<and> zone_attached fd zID attached)"
proof -
  have "(case attached_loop fd rID zID attached (False, False) of
           (r, z, True) \<Rightarrow> Some None | (r, z, False) \<Rightarrow> Some (Some (E r z))) = Some None
      \<longleftrightarrow> region_attached fd rID attached \<and> zone_attached fd zID attached" for attached
    and E :: "bool \<Rightarrow> bool \<Rightarrow> go_error"
    using attached_loop_done [of False False fd rID zID attached]
    by (auto split: prod.splits bool.splits)
  then show ?thesis
    by (auto simp: validateTagAttachment_def split: option.splits sum.splits)
qed

text \<open>A failure domain for which the loop adds no error, in terms of the functions it calls.\<close>

definition domain_passes ::
  "tag_env \<Rightarrow> check_context \<Rightarrow> (string \<Rightarrow> string \<times> string) \<Rightarrow> failure_domain \<Rightarrow> bool" where
  "domain_passes env ctx ids fd \<longleftrightarrow>
     (\<exists>vc name dc ref ancestors attached.
        map_of (VCenters ctx) (Server fd) = Some vc \<and>
        cluster_path_name (ComputeCluster (Topology fd)) = Some name \<and>
        te_Datacenter env vc (Datacenter (Topology fd)) = Inr dc \<and>
        te_Cluster env vc name dc = Inr ref \<and>
        getAncestors env vc ref fd = Some (Inr ancestors) \<and>
        te_AttachedTags env vc (ref # ancestors) = Inr attached \<and>
        region_attached fd (fst (ids (Server fd))) attached \<and>
        zone_attached fd (snd (ids (Server fd))) attached)"

lemma zone_domain_passes: "zone_domain env ctx ids fd = Some (Inr []) \<longleftrightarrow> domain_passes env ctx ids fd"
proof -
  have "domain_passes env ctx ids fd \<longleftrightarrow>
     (\<exists>vc name dc ref.
        map_of (VCenters ctx) (Server fd) = Some vc \<and>
        cluster_path_name (ComputeCluster (Topology fd)) = Some name \<and>
        te_Datacenter env vc (Datacenter (Topology fd)) = Inr dc \<and>
        te_Cluster env vc name dc = Inr ref \<and>
        validateTagAttachment env vc ref fd (fst (ids (Server fd))) (snd (ids (Server fd))) = Some None)"
    unfolding domain_passes_def validateTagAttachment_passes by blast
  then show ?thesis
    by (auto simp: zone_domain_def getClusterComputeResource_def split: option.split sum.split)
qed

lemma zone_loop_passes:
  "zone_loop env ctx ids fds errs = Some None \<longleftrightarrow>
     errs = [] \<and> (\<forall>fd \<in> set fds. domain_passes env ctx ids fd)"
proof (induction fds arbitrary: errs)
  case (Cons fd fds)
  show ?case
    using zone_domain_passes [of env ctx ids fd] Cons.IH
    by (cases "zone_domain env ctx ids fd") (auto split: sum.split)
qed auto

lemma CheckZoneTags_passes:
  assumes "spec_VSphere infra = Some spec" "1 < length (FailureDomains spec)"
  shows "CheckZoneTags env ctx (Inr infra) = Some None \<longleftrightarrow>
     (\<exists>ids. category_ids env (map snd (VCenters ctx)) (\<lambda>_. ([], [])) = Inr ids \<and>
        (\<forall>fd \<in> set (FailureDomains spec). domain_passes env ctx ids fd))"
  using assms by (auto simp: CheckZoneTags_def zone_loop_passes split: sum.split)

section \<open>What the check wants\<close>

text \<open>
  The rest of this section states what the check wants of vCenter without the functions of the
  check: a category by its name, the path of a cluster, the hosts of a group, the objects whose
  tags count, and the tags themselves.
\<close>

definition category_of :: "tag_env \<Rightarrow> vcenter \<Rightarrow> string \<Rightarrow> string \<Rightarrow> bool" where
  "category_of env vc name cid \<longleftrightarrow>
     (\<exists>cs. te_Categories env vc = Inr cs \<and> \<lparr>cat_Name = name, cat_ID = cid\<rparr> \<in> set cs \<and> cid \<noteq> [])"

definition has_categories :: "tag_env \<Rightarrow> vcenter \<Rightarrow> bool" where
  "has_categories env vc \<longleftrightarrow>
     (\<exists>r z. category_of env vc ''openshift-region'' r \<and> category_of env vc ''openshift-zone'' z)"

text \<open>vCenter lets no two tag categories have the same name.\<close>

definition unique_categories :: "tag_env \<Rightarrow> vcenter \<Rightarrow> bool" where
  "unique_categories env vc \<longleftrightarrow>
     (case te_Categories env vc of Inl _ \<Rightarrow> True | Inr cs \<Rightarrow> distinct (map cat_Name cs))"

text \<open>The full path of a cluster, split at the first \<^verbatim>\<open>/host/\<close>.\<close>

definition path_of_cluster :: "string \<Rightarrow> string \<Rightarrow> bool" where
  "path_of_cluster path name \<longleftrightarrow> CHR 0x0A \<notin> set path \<and>
     (\<exists>dc. path = ''/'' @ dc @ ''/host/'' @ name \<and>
        (\<forall>pre post. path = ''/'' @ pre @ ''/host/'' @ post \<longrightarrow> length dc \<le> length pre))"

definition group_hosts :: "string \<Rightarrow> cluster_group list \<Rightarrow> mo_ref list \<Rightarrow> bool" where
  "group_hosts name groups hosts \<longleftrightarrow>
     (\<exists>pre post. groups = pre @ ClusterHostGroup name hosts # post \<and> (\<forall>hs. ClusterHostGroup name hs \<notin> set pre)) \<or>
     hosts = [] \<and> (\<forall>hs. ClusterHostGroup name hs \<notin> set groups)"

text \<open>The hosts of the zone, when it is a group of hosts; otherwise none.\<close>

definition zone_hosts :: "tag_env \<Rightarrow> vcenter \<Rightarrow> mo_ref \<Rightarrow> failure_domain \<Rightarrow> mo_ref list \<Rightarrow> bool" where
  "zone_hosts env vc cluster fd hosts \<longleftrightarrow>
     (case ZoneAffinity fd of
        None \<Rightarrow> hosts = []
      | Some za \<Rightarrow>
        if za_Type za = ''HostGroup'' then
          \<exists>cfg. te_Configuration env vc cluster = Inr cfg \<and>
            (case za_HostGroup za of
               None \<Rightarrow> hosts = [] \<and> (\<forall>n hs. ClusterHostGroup n hs \<notin> set (cc_Group cfg))
             | Some hg \<Rightarrow> group_hosts (hg_HostGroup hg) (cc_Group cfg) hosts)
        else hosts = [])"

definition region_tagged :: "failure_domain \<Rightarrow> string \<Rightarrow> attached_tags list \<Rightarrow> bool" where
  "region_tagged fd cid attached \<longleftrightarrow>
     (\<exists>at t. at \<in> set attached \<and> t \<in> set (at_Tags at) \<and> tag_CategoryID t = cid \<and>
        (RegionAffinity fd = Some ''Datacenter'' \<longrightarrow> ref_Type (at_Object at) = ''Datacenter'') \<and>
        (RegionAffinity fd = Some ''ComputeCluster'' \<longrightarrow> ref_Type (at_Object at) = ''ClusterComputeResource''))"

definition zone_tagged :: "failure_domain \<Rightarrow> string \<Rightarrow> attached_tags list \<Rightarrow> bool" where
  "zone_tagged fd cid attached \<longleftrightarrow>
     (\<exists>at t. at \<in> set attached \<and> t \<in> set (at_Tags at) \<and> tag_CategoryID t = cid \<and>
        (\<forall>za. ZoneAffinity fd = Some za \<and> za_Type za = ''ComputeCluster'' \<longrightarrow>
           ref_Type (at_Object at) = ''ClusterComputeResource''))"

text \<open>
  A failure domain as the check wants it: the tags are looked for on the cluster, on all its
  ancestors and on the hosts of the zone.
\<close>

definition domain_tagged :: "tag_env \<Rightarrow> check_context \<Rightarrow> failure_domain \<Rightarrow> bool" where
  "domain_tagged env ctx fd \<longleftrightarrow>
     (\<exists>vc r z name dc cluster ancestors hosts attached.
        map_of (VCenters ctx) (Server fd) = Some vc \<and>
        category_of env vc ''openshift-region'' r \<and> category_of env vc ''openshift-zone'' z \<and>
        path_of_cluster (ComputeCluster (Topology fd)) name \<and>
        te_Datacenter env vc (Datacenter (Topology fd)) = Inr dc \<and>
        te_Cluster env vc name dc = Inr cluster \<and>
        te_Ancestors env vc cluster = Inr ancestors \<and> zone_hosts env vc cluster fd hosts \<and>
        te_AttachedTags env vc (cluster # ancestors @ hosts) = Inr attached \<and>
        region_tagged fd r attached \<and> zone_tagged fd z attached)"

section \<open>The functions of the check do it\<close>

lemma after_host_iff:
  "after_host s = Some name \<longleftrightarrow>
     (\<exists>dc. s = dc @ ''/host/'' @ name \<and> (\<forall>pre post. s = pre @ ''/host/'' @ post \<longrightarrow> length dc \<le> length pre))"
proof (induction s)
  case (Cons x xs)
  define h where "h = ''/host/''"
  have len: "length h = 6" by (simp add: h_def)
  have ne: "h \<noteq> []" by (simp add: h_def)
  note IH = Cons.IH [folded h_def]
  show ?case
    unfolding h_def [symmetric]
  proof (cases "prefix h (x # xs)")
    case True
    then obtain post where post: "x # xs = h @ post" by (auto simp: prefix_def)
    then have "after_host (x # xs) = Some post" using len by (simp add: h_def)
    then show "after_host (x # xs) = Some name \<longleftrightarrow>
        (\<exists>dc. x # xs = dc @ h @ name \<and> (\<forall>pre post. x # xs = pre @ h @ post \<longrightarrow> length dc \<le> length pre))"
      using post by (metis append_Nil append_same_eq length_0_conv le_zero_eq list.size(3) option.inject
          same_append_eq zero_le)
  next
    case False
    then have step: "after_host (x # xs) = after_host xs" unfolding after_host.simps h_def [symmetric] by simp
    have tail: "x # xs = dc @ h @ post \<longleftrightarrow> (\<exists>dc'. dc = x # dc' \<and> xs = dc' @ h @ post)" for dc post
      using False by (cases dc) (auto simp: prefix_def)
    show "after_host (x # xs) = Some name \<longleftrightarrow>
        (\<exists>dc. x # xs = dc @ h @ name \<and> (\<forall>pre post. x # xs = pre @ h @ post \<longrightarrow> length dc \<le> length pre))"
      (is "_ \<longleftrightarrow> ?R")
    proof -
      have "?R \<longleftrightarrow> (\<exists>dc. xs = dc @ h @ name \<and> (\<forall>pre post. xs = pre @ h @ post \<longrightarrow> length dc \<le> length pre))"
      proof
        assume ?R
        then obtain dc where dc: "x # xs = dc @ h @ name"
          "\<And>pre post. x # xs = pre @ h @ post \<Longrightarrow> length dc \<le> length pre" by blast
        then obtain dc' where dc': "dc = x # dc'" "xs = dc' @ h @ name" unfolding tail by blast
        moreover have "length dc' \<le> length pre" if "xs = pre @ h @ post" for pre post
          using dc(2) [of "x # pre" post] that dc'(1) by simp
        ultimately show "\<exists>dc. xs = dc @ h @ name \<and> (\<forall>pre post. xs = pre @ h @ post \<longrightarrow> length dc \<le> length pre)"
          by blast
      next
        assume "\<exists>dc. xs = dc @ h @ name \<and> (\<forall>pre post. xs = pre @ h @ post \<longrightarrow> length dc \<le> length pre)"
        then obtain dc where dc: "xs = dc @ h @ name"
          "\<And>pre post. xs = pre @ h @ post \<Longrightarrow> length dc \<le> length pre" by blast
        have "length (x # dc) \<le> length pre" if "x # xs = pre @ h @ post" for pre post
          using that unfolding tail using dc(2) by auto
        with dc(1) show ?R by (intro exI [of _ "x # dc"]) auto
      qed
      then show ?thesis unfolding step IH by simp
    qed
  qed
qed simp

lemma cluster_path_name_iff: "cluster_path_name path = Some name \<longleftrightarrow> path_of_cluster path name"
proof (cases path)
  case (Cons c rest)
  show ?thesis
    unfolding cluster_path_name_def path_of_cluster_def Cons
    by (simp add: after_host_iff [unfolded append_Cons append_Nil])
qed (simp add: cluster_path_name_def path_of_cluster_def)

lemma first_host_group_iff: "group_hosts name gs hosts \<longleftrightarrow> hosts = first_host_group name gs"
proof (induction gs)
  case (Cons g gs)
  show ?case
  proof (cases "\<exists>hs. g = ClusterHostGroup name hs")
    case True
    then show ?thesis by (fastforce simp: group_hosts_def Cons_eq_append_conv)
  next
    case False
    have "(\<exists>pre post. g # gs = pre @ ClusterHostGroup name hosts # post \<and> (\<forall>hs. ClusterHostGroup name hs \<notin> set pre))
      \<longleftrightarrow> (\<exists>pre post. gs = pre @ ClusterHostGroup name hosts # post \<and> (\<forall>hs. ClusterHostGroup name hs \<notin> set pre))"
      (is "?L \<longleftrightarrow> ?R")
    proof
      assume ?L
      then obtain pre post where pre: "g # gs = pre @ ClusterHostGroup name hosts # post"
        "\<forall>hs. ClusterHostGroup name hs \<notin> set pre" by blast
      with False obtain pre' where "pre = g # pre'" by (cases pre) auto
      with pre show ?R by (intro exI [of _ pre'] exI [of _ post]) auto
    next
      assume ?R
      then obtain pre post where "gs = pre @ ClusterHostGroup name hosts # post"
        "\<forall>hs. ClusterHostGroup name hs \<notin> set pre" by blast
      with False show ?L by (intro exI [of _ "g # pre"] exI [of _ post]) auto
    qed
    moreover have "(\<forall>hs. ClusterHostGroup name hs \<notin> set (g # gs)) \<longleftrightarrow> (\<forall>hs. ClusterHostGroup name hs \<notin> set gs)"
      using False by auto
    ultimately have "group_hosts name (g # gs) hosts \<longleftrightarrow> group_hosts name gs hosts"
      unfolding group_hosts_def by simp
    moreover have "first_host_group name (g # gs) = first_host_group name gs"
      using False by (cases g) auto
    ultimately show ?thesis using Cons.IH by simp
  qed
qed (auto simp: group_hosts_def)

lemma getAncestors_iff:
  "getAncestors env vc cluster fd = Some (Inr objects) \<longleftrightarrow>
     (\<exists>ancestors hosts. te_Ancestors env vc cluster = Inr ancestors \<and> zone_hosts env vc cluster fd hosts \<and>
        objects = ancestors @ hosts)"
  by (cases "ZoneAffinity fd")
    (auto simp: getAncestors_def zone_hosts_def getHostsInHostGroup_def first_host_group_iff
      HostGroupFailureDomainZone_def split: sum.splits option.splits if_splits)

lemma region_tagged_iff: "region_attached fd cid attached \<longleftrightarrow> region_tagged fd cid attached"
  unfolding region_attached_def region_tagged_def region_tag_counts_def DatacenterFailureDomainRegion_def
    ComputeClusterFailureDomainRegion_def
  by (intro iffI; elim bexE exE conjE; intro bexI exI conjI; simp split: if_splits)

lemma zone_tagged_iff: "zone_attached fd cid attached \<longleftrightarrow> zone_tagged fd cid attached"
  unfolding zone_attached_def zone_tagged_def zone_tag_counts_def ComputeClusterFailureDomainZone_def
  by (cases "ZoneAffinity fd") (auto split: if_splits)

text \<open>The categories. A name read once is not read again when the names differ.\<close>

lemma category_loop_iff:
  assumes "distinct (map cat_Name cs)" "r0 = [] \<or> z0 = []"
    and "r0 \<noteq> [] \<Longrightarrow> TagCategoryRegion \<notin> cat_Name ` set cs" "z0 \<noteq> [] \<Longrightarrow> TagCategoryZone \<notin> cat_Name ` set cs"
    and "r \<noteq> []" "z \<noteq> []"
  shows "category_loop cs (r0, z0) = (r, z) \<longleftrightarrow>
    (r = r0 \<or> \<lparr>cat_Name = TagCategoryRegion, cat_ID = r\<rparr> \<in> set cs) \<and>
    (z = z0 \<or> \<lparr>cat_Name = TagCategoryZone, cat_ID = z\<rparr> \<in> set cs)"
  using assms
proof (induction cs arbitrary: r0 z0)
  case (Cons c cs)
  have eq: "\<lparr>cat_Name = n, cat_ID = i\<rparr> = c \<longleftrightarrow> n = cat_Name c \<and> i = cat_ID c" for n i by (cases c) auto
  have mem: "\<lparr>cat_Name = n, cat_ID = i\<rparr> \<notin> set cs" if "n \<notin> cat_Name ` set cs" for n i
    using that by force
  have differ: "TagCategoryRegion \<noteq> TagCategoryZone" by (simp add: TagCategoryRegion_def TagCategoryZone_def)
  consider "cat_Name c = TagCategoryRegion" | "cat_Name c = TagCategoryZone"
    | "cat_Name c \<noteq> TagCategoryRegion" "cat_Name c \<noteq> TagCategoryZone" by blast
  then show ?case
  proof cases
    case 1
    then have r0: "r0 = []" and rest: "TagCategoryRegion \<notin> cat_Name ` set cs" using Cons.prems by auto
    show ?thesis
    proof (cases "cat_ID c \<noteq> [] \<and> z0 \<noteq> []")
      case True
      then show ?thesis using 1 r0 rest differ Cons.prems by (auto simp: eq mem)
    next
      case False
      then have "category_loop (c # cs) (r0, z0) = category_loop cs (cat_ID c, z0)" using 1 differ by auto
      moreover have "category_loop cs (cat_ID c, z0) = (r, z) \<longleftrightarrow>
          (r = cat_ID c \<or> \<lparr>cat_Name = TagCategoryRegion, cat_ID = r\<rparr> \<in> set cs) \<and>
          (z = z0 \<or> \<lparr>cat_Name = TagCategoryZone, cat_ID = z\<rparr> \<in> set cs)"
        using Cons.prems rest False by (intro Cons.IH) auto
      ultimately show ?thesis using 1 r0 differ Cons.prems(5,6) by (auto simp: eq)
    qed
  next
    case 2
    then have z0: "z0 = []" and rest: "TagCategoryZone \<notin> cat_Name ` set cs" using Cons.prems by auto
    show ?thesis
    proof (cases "r0 \<noteq> [] \<and> cat_ID c \<noteq> []")
      case True
      then show ?thesis using 2 z0 rest differ Cons.prems by (auto simp: eq mem)
    next
      case False
      then have "category_loop (c # cs) (r0, z0) = category_loop cs (r0, cat_ID c)" using 2 differ by auto
      moreover have "category_loop cs (r0, cat_ID c) = (r, z) \<longleftrightarrow>
          (r = r0 \<or> \<lparr>cat_Name = TagCategoryRegion, cat_ID = r\<rparr> \<in> set cs) \<and>
          (z = cat_ID c \<or> \<lparr>cat_Name = TagCategoryZone, cat_ID = z\<rparr> \<in> set cs)"
        using Cons.prems rest False by (intro Cons.IH) auto
      ultimately show ?thesis using 2 z0 differ Cons.prems(5,6) by (auto simp: eq)
    qed
  next
    case 3
    then have "category_loop (c # cs) (r0, z0) = category_loop cs (r0, z0)" using Cons.prems(2) by auto
    moreover have "category_loop cs (r0, z0) = (r, z) \<longleftrightarrow>
        (r = r0 \<or> \<lparr>cat_Name = TagCategoryRegion, cat_ID = r\<rparr> \<in> set cs) \<and>
        (z = z0 \<or> \<lparr>cat_Name = TagCategoryZone, cat_ID = z\<rparr> \<in> set cs)"
      using Cons.prems by (intro Cons.IH) auto
    ultimately show ?thesis using 3 by (auto simp: eq)
  qed
qed auto

lemma validateTagCategories_iff:
  assumes "unique_categories env vc"
  shows "validateTagCategories env vc = Inr (r, z) \<longleftrightarrow>
    category_of env vc ''openshift-region'' r \<and> category_of env vc ''openshift-zone'' z"
proof (cases "te_Categories env vc")
  case (Inr cs)
  have distinct: "distinct (map cat_Name cs)" using assms Inr by (simp add: unique_categories_def)
  obtain r' z' where loop: "category_loop cs ([], []) = (r', z')" by (cases "category_loop cs ([], [])")
  have "validateTagCategories env vc = Inr (r, z) \<longleftrightarrow> (r', z') = (r, z) \<and> r \<noteq> [] \<and> z \<noteq> []"
    by (auto simp: validateTagCategories_def Inr loop)
  also have "\<dots> \<longleftrightarrow> category_of env vc ''openshift-region'' r \<and> category_of env vc ''openshift-zone'' z"
    using category_loop_iff [OF distinct, of "[]" "[]" r z] loop
    by (auto simp: category_of_def Inr TagCategoryRegion_def TagCategoryZone_def)
  finally show ?thesis .
qed (simp add: validateTagCategories_def category_of_def)

lemma category_ids_Inr:
  assumes "category_ids env vcs m = Inr ids" "distinct (map VCenterName vcs)"
  shows "(\<forall>vc \<in> set vcs. validateTagCategories env vc = Inr (ids (VCenterName vc))) \<and>
    (\<forall>name. name \<notin> VCenterName ` set vcs \<longrightarrow> ids name = m name)"
  using assms
proof (induction vcs arbitrary: m)
  case (Cons vc vcs)
  then obtain p where p: "validateTagCategories env vc = Inr p"
    "category_ids env vcs (m(VCenterName vc := p)) = Inr ids" by (auto split: sum.splits)
  from Cons.IH [OF p(2)] Cons.prems(2) p(1) show ?case by auto
qed simp

lemma category_ids_ex:
  assumes "\<forall>vc \<in> set vcs. unique_categories env vc"
  shows "(\<exists>ids. category_ids env vcs m = Inr ids) \<longleftrightarrow> (\<forall>vc \<in> set vcs. has_categories env vc)"
  using assms
proof (induction vcs arbitrary: m)
  case (Cons vc vcs)
  have one: "(\<exists>p. validateTagCategories env vc = Inr p) \<longleftrightarrow> has_categories env vc"
    using validateTagCategories_iff [of env vc] Cons.prems by (auto simp: has_categories_def)
  show ?case
  proof (cases "validateTagCategories env vc")
    case (Inl e)
    then show ?thesis using one by simp
  next
    case (Inr p)
    then show ?thesis using one Cons.IH [of "m(VCenterName vc := p)"] Cons.prems
      by (simp del: fun_upd_apply)
  qed
qed simp

lemma domain_passes_iff:
  assumes "wf_context ctx" "\<forall>vc \<in> snd ` set (VCenters ctx). unique_categories env vc"
    and "category_ids env (map snd (VCenters ctx)) (\<lambda>_. ([], [])) = Inr ids"
  shows "domain_passes env ctx ids fd \<longleftrightarrow> domain_tagged env ctx fd"
proof -
  have names: "map VCenterName (map snd (VCenters ctx)) = map fst (VCenters ctx)"
    unfolding list.map_comp using assms(1) by (intro map_cong) (auto simp: wf_context_def)
  have ids: "category_of env vc ''openshift-region'' r \<and> category_of env vc ''openshift-zone'' z \<longleftrightarrow>
      ids (Server fd) = (r, z)"
    if "map_of (VCenters ctx) (Server fd) = Some vc" for vc r z
  proof -
    have mem: "(Server fd, vc) \<in> set (VCenters ctx)" using that by (rule map_of_SomeD)
    then have "VCenterName vc = Server fd" using assms(1) by (auto simp: wf_context_def)
    moreover have "validateTagCategories env vc = Inr (ids (VCenterName vc))"
    proof -
      have "distinct (map VCenterName (map snd (VCenters ctx)))" using assms(1) by (simp only: names wf_context_def)
      moreover have "vc \<in> set (map snd (VCenters ctx))" using mem by (simp add: image_iff) force
      ultimately show ?thesis using category_ids_Inr [OF assms(3)] by blast
    qed
    moreover have "unique_categories env vc" using assms(2) mem by force
    ultimately show ?thesis using validateTagCategories_iff [of env vc r z] by simp
  qed
  show ?thesis
  proof
    assume "domain_passes env ctx ids fd"
    then obtain vc name dc cluster ancestors hosts attached where
      found: "map_of (VCenters ctx) (Server fd) = Some vc" "path_of_cluster (ComputeCluster (Topology fd)) name"
        "te_Datacenter env vc (Datacenter (Topology fd)) = Inr dc" "te_Cluster env vc name dc = Inr cluster"
        "te_Ancestors env vc cluster = Inr ancestors" "zone_hosts env vc cluster fd hosts"
        "te_AttachedTags env vc (cluster # ancestors @ hosts) = Inr attached"
        "region_tagged fd (fst (ids (Server fd))) attached" "zone_tagged fd (snd (ids (Server fd))) attached"
      unfolding domain_passes_def cluster_path_name_iff getAncestors_iff region_tagged_iff zone_tagged_iff by blast
    have "category_of env vc ''openshift-region'' (fst (ids (Server fd)))"
      "category_of env vc ''openshift-zone'' (snd (ids (Server fd)))"
      using ids [OF found(1), of "fst (ids (Server fd))" "snd (ids (Server fd))"] by simp_all
    with found show "domain_tagged env ctx fd" unfolding domain_tagged_def by blast
  next
    assume "domain_tagged env ctx fd"
    then obtain vc r z name dc cluster ancestors hosts attached where
      found: "map_of (VCenters ctx) (Server fd) = Some vc" "path_of_cluster (ComputeCluster (Topology fd)) name"
        "te_Datacenter env vc (Datacenter (Topology fd)) = Inr dc" "te_Cluster env vc name dc = Inr cluster"
        "te_Ancestors env vc cluster = Inr ancestors" "zone_hosts env vc cluster fd hosts"
        "te_AttachedTags env vc (cluster # ancestors @ hosts) = Inr attached"
        "region_tagged fd r attached" "zone_tagged fd z attached"
      and "category_of env vc ''openshift-region'' r" "category_of env vc ''openshift-zone'' z"
      unfolding domain_tagged_def by blast
    then have "fst (ids (Server fd)) = r" "snd (ids (Server fd)) = z" using ids [OF found(1), of r z] by simp_all
    with found show "domain_passes env ctx ids fd"
      unfolding domain_passes_def cluster_path_name_iff getAncestors_iff region_tagged_iff zone_tagged_iff by blast
  qed
qed

lemma CheckZoneTags_exact:
  assumes "spec_VSphere infra = Some spec" "1 < length (FailureDomains spec)" "wf_context ctx"
    and "\<forall>vc \<in> snd ` set (VCenters ctx). unique_categories env vc"
  shows "CheckZoneTags env ctx (Inr infra) = Some None \<longleftrightarrow>
     (\<forall>vc \<in> snd ` set (VCenters ctx). has_categories env vc) \<and>
     (\<forall>fd \<in> set (FailureDomains spec). domain_tagged env ctx fd)"
proof -
  have "(\<exists>ids. category_ids env (map snd (VCenters ctx)) (\<lambda>_. ([], [])) = Inr ids) \<longleftrightarrow>
      (\<forall>vc \<in> snd ` set (VCenters ctx). has_categories env vc)"
    using category_ids_ex [of "map snd (VCenters ctx)" env] assms(4) by simp
  then show ?thesis
    unfolding CheckZoneTags_passes [OF assms(1,2)] using domain_passes_iff [OF assms(3,4)]
    by (metis (no_types))
qed

section \<open>Properties\<close>

text \<open>
  C33: With two or more failure domains, and tag categories whose names differ, the zone check passes
  exactly when every connected vCenter has both tag categories and, for every failure domain, its
  vCenter is connected, its compute cluster is given by its full path and found, and a tag of the
  region category and one of the zone category are attached to the cluster, to an ancestor of it,
  or to a host of its host group (when its zone is one), on an object of the type that the domain's
  affinity asks for. Any tag of the category counts, whatever its name.
\<close>

theorem zone_tags_exact:
  assumes "spec_VSphere infra = Some spec" "1 < length (FailureDomains spec)" "wf_context ctx"
    and "\<forall>vc \<in> snd ` set (VCenters ctx). unique_categories env vc"
  shows "CheckZoneTags env ctx (Inr infra) = Some None \<longleftrightarrow>
     (\<forall>vc \<in> snd ` set (VCenters ctx). has_categories env vc) \<and>
     (\<forall>fd \<in> set (FailureDomains spec). domain_tagged env ctx fd)"
  using assms by (rule CheckZoneTags_exact)

text \<open>The region tag is attached to the datacenter, an ancestor of the cluster, the zone tag to the cluster.\<close>

definition tagged_env :: tag_env where
  "tagged_env = \<lparr>te_Categories = (\<lambda>_. Inr [\<lparr>cat_Name = ''openshift-region'', cat_ID = ''r1''\<rparr>,
       \<lparr>cat_Name = ''openshift-zone'', cat_ID = ''z1''\<rparr>]),
     te_Datacenter = (\<lambda>_ dc. Inr dc),
     te_Cluster = (\<lambda>_ name _. Inr \<lparr>ref_Type = ''ClusterComputeResource'', ref_Value = name\<rparr>),
     te_Configuration = (\<lambda>_ _. Inr \<lparr>cc_Group = [], cc_Rule = []\<rparr>),
     te_Ancestors = (\<lambda>_ _. Inr [\<lparr>ref_Type = ''Datacenter'', ref_Value = ''d-1''\<rparr>]),
     te_AttachedTags = (\<lambda>_ refs. Inr (filter (\<lambda>at. at_Object at \<in> set refs) [\<lparr>at_Object = \<lparr>ref_Type = ''Datacenter'', ref_Value = ''d-1''\<rparr>,
         at_Tags = [\<lparr>tag_CategoryID = ''r1'', tag_Name = ''r''\<rparr>]\<rparr>,
       \<lparr>at_Object = \<lparr>ref_Type = ''ClusterComputeResource'', ref_Value = ''cl''\<rparr>,
         at_Tags = [\<lparr>tag_CategoryID = ''z1'', tag_Name = ''z''\<rparr>]\<rparr>])),
     te_range = (\<lambda>_. [])\<rparr>"

lemma sample_path: "cluster_path_name ''/dc/host/cl'' = Some ''cl''"
  by (simp add: cluster_path_name_def)

theorem zone_tags_exact_witness:
  "CheckZoneTags tagged_env sample_ctx (Inr (sample_infrastructure\<lparr>spec_VSphere := Some sample_spec\<rparr>)) = Some None"
proof -
  let ?infra = "sample_infrastructure\<lparr>spec_VSphere := Some sample_spec\<rparr>"
  have spec: "spec_VSphere ?infra = Some sample_spec" "1 < length (FailureDomains sample_spec)"
    by (simp_all add: sample_spec_def)
  have wf: "wf_context sample_ctx" by (simp add: wf_context_def sample_ctx_def)
  have unique: "unique_categories tagged_env vc" for vc by (simp add: unique_categories_def tagged_env_def)
  have categories: "category_of tagged_env vc ''openshift-region'' ''r1''"
    "category_of tagged_env vc ''openshift-zone'' ''z1''" for vc
    by (simp_all add: category_of_def tagged_env_def)
  have path: "path_of_cluster (ComputeCluster sample_topology) ''cl''"
    using sample_path by (simp add: cluster_path_name_iff [symmetric] sample_topology_def)
  have "domain_tagged tagged_env sample_ctx (sample_domain z s)" if "s \<in> {''vc1'', ''vc2''}" for z s
  proof -
    have "map_of (VCenters sample_ctx) s \<noteq> None" using that by (auto simp: sample_ctx_def)
    then obtain vc where vc: "map_of (VCenters sample_ctx) s = Some vc" by blast
    let ?cl = "\<lparr>ref_Type = ''ClusterComputeResource'', ref_Value = ''cl''\<rparr>"
    let ?dc = "\<lparr>ref_Type = ''Datacenter'', ref_Value = ''d-1''\<rparr>"
    let ?tags = "[\<lparr>at_Object = ?dc, at_Tags = [\<lparr>tag_CategoryID = ''r1'', tag_Name = ''r''\<rparr>]\<rparr>,
      \<lparr>at_Object = ?cl, at_Tags = [\<lparr>tag_CategoryID = ''z1'', tag_Name = ''z''\<rparr>]\<rparr>]"
    let ?fd = "sample_domain z s"
    have fd: "Server ?fd = s" "Topology ?fd = sample_topology" "ZoneAffinity ?fd = None" "RegionAffinity ?fd = None"
      by (simp_all add: sample_domain_def)
    have "te_Datacenter tagged_env vc (Datacenter sample_topology) = Inr (Datacenter sample_topology)"
      "te_Cluster tagged_env vc ''cl'' (Datacenter sample_topology) = Inr ?cl"
      "te_Ancestors tagged_env vc ?cl = Inr [?dc]" "te_AttachedTags tagged_env vc (?cl # [?dc] @ []) = Inr ?tags"
      by (simp_all add: tagged_env_def)
    moreover have "zone_hosts tagged_env vc ?cl ?fd []" by (simp add: zone_hosts_def fd)
    moreover have "region_tagged ?fd ''r1'' ?tags" "zone_tagged ?fd ''z1'' ?tags"
      by (auto simp: region_tagged_def zone_tagged_def fd)
    ultimately show ?thesis unfolding domain_tagged_def fd using vc path categories by blast
  qed
  moreover have "has_categories tagged_env vc" for vc using categories by (auto simp: has_categories_def)
  ultimately show ?thesis
    using zone_tags_exact [OF spec wf, of tagged_env] unique by (auto simp: sample_spec_def)
qed

text \<open>
  C34: A compute cluster that is not given by its full path \<^verbatim>\<open>/<datacenter>/host/<cluster>\<close> makes
  the zone check panic: the check notices the mismatch, but goes on and indexes the empty match.
\<close>

theorem zone_check_panics_on_short_path:
  assumes "spec_VSphere infra = Some spec" "1 < length (FailureDomains spec)"
    and "category_ids env (map snd (VCenters ctx)) (\<lambda>_. ([], [])) = Inr ids"
    and "\<forall>fd \<in> set (FailureDomains spec). map_of (VCenters ctx) (Server fd) \<noteq> None"
    and "fd \<in> set (FailureDomains spec)" "cluster_path_name (ComputeCluster (Topology fd)) = None"
  shows "CheckZoneTags env ctx (Inr infra) = None"
proof -
  have no_return: "zone_domain env ctx ids fd' \<noteq> Some (Inl e)"
    if "map_of (VCenters ctx) (Server fd') \<noteq> None" for fd' e
    using that by (auto simp: zone_domain_def split: option.splits sum.splits)
  have panic: "zone_domain env ctx ids fd = None"
    using assms(4,5,6) by (auto simp: zone_domain_def)
  have "zone_loop env ctx ids fds errs = None"
    if "fd \<in> set fds" "\<forall>fd \<in> set fds. map_of (VCenters ctx) (Server fd) \<noteq> None" for fds errs
    using that
  proof (induction fds arbitrary: errs)
    case (Cons x xs)
    show ?case
    proof (cases "zone_domain env ctx ids x")
      case (Some r)
      then have "x \<noteq> fd" using panic by auto
      moreover have "\<exists>es. r = Inr es" using no_return [of x] Cons.prems(2) Some by (cases r) auto
      ultimately show ?thesis using Some Cons by auto
    qed simp
  qed simp
  then show ?thesis using assms(1-5) by (simp add: CheckZoneTags_def)
qed

definition short_path_spec :: platform_spec where
  "short_path_spec = \<lparr>spec_VCenters = [], FailureDomains = [sample_domain ''z1'' ''vc1'',
     (sample_domain ''z2'' ''vc2'')\<lparr>Topology := sample_topology\<lparr>ComputeCluster := ''cl''\<rparr>\<rparr>]\<rparr>"

theorem zone_check_panics_on_short_path_witness:
  "CheckZoneTags tagged_env sample_ctx (Inr (sample_infrastructure\<lparr>spec_VSphere := Some short_path_spec\<rparr>)) = None"
proof -
  obtain ids where ids: "category_ids tagged_env (map snd (VCenters sample_ctx)) (\<lambda>_. ([], [])) = Inr ids"
    by (simp add: sample_ctx_def validateTagCategories_def tagged_env_def TagCategoryRegion_def
        TagCategoryZone_def)
  let ?fd = "(sample_domain ''z2'' ''vc2'')\<lparr>Topology := sample_topology\<lparr>ComputeCluster := ''cl''\<rparr>\<rparr>"
  have "?fd \<in> set (FailureDomains short_path_spec)" "1 < length (FailureDomains short_path_spec)"
    "\<forall>fd \<in> set (FailureDomains short_path_spec). map_of (VCenters sample_ctx) (Server fd) \<noteq> None"
    by (simp_all add: short_path_spec_def sample_ctx_def sample_domain_def)
  then show ?thesis
    using zone_check_panics_on_short_path [OF _ _ ids]
    by (simp add: cluster_path_name_def del: not_None_eq)
qed

end
