(* ===== verification/HostGroups.thy ===== *)
theory HostGroups
  imports ZoneTags "HOL-Library.Char_ord" "HOL-Library.List_Lexorder"
begin

text \<open>
  \<^verbatim>\<open>CheckHostGroups\<close> of pkg/check/cluster_host_group.go: for every failure domain whose zone
  is a host group, the group, the VM group and the rule exist, and every host of the group
  carries the tag of the zone. As in \<open>ZoneTags\<close>, \<open>None\<close> is a panic: a host group zone
  without the host group names.
\<close>

section \<open>The loops\<close>

text \<open>The groups: host group seen, its hosts, VM group seen.\<close>

fun group_loop ::
  "host_group \<Rightarrow> cluster_group list \<Rightarrow> bool \<times> mo_ref list \<times> bool \<Rightarrow> bool \<times> mo_ref list \<times> bool" where
  "group_loop hg [] acc = acc"
| "group_loop hg (ClusterHostGroup name hosts # gs) (hostGroup, inGroup, vmGroup) =
     (if name \<noteq> hg_HostGroup hg then group_loop hg gs (hostGroup, inGroup, vmGroup)
      else group_loop hg gs (True, inGroup @ hosts, vmGroup))"
| "group_loop hg (ClusterVmGroup name # gs) (hostGroup, inGroup, vmGroup) =
     (if name = hg_VMGroup hg then group_loop hg gs (hostGroup, inGroup, True)
      else group_loop hg gs (hostGroup, inGroup, vmGroup))"
| "group_loop hg (OtherGroup # gs) acc = group_loop hg gs acc"

fun rule_loop :: "host_group \<Rightarrow> cluster_rule list \<Rightarrow> bool \<Rightarrow> bool" where
  "rule_loop hg [] present = present"
| "rule_loop hg (ClusterVmHostRule name # rs) present =
     (if name = hg_VMHostRule hg then rule_loop hg rs True else rule_loop hg rs present)"
| "rule_loop hg (OtherRule # rs) present = rule_loop hg rs present"

text \<open>The attached tags: the hosts of \<^verbatim>\<open>unmatchedReferenceMap\<close> that are left.\<close>

fun match_tags :: "string \<Rightarrow> string \<Rightarrow> string \<Rightarrow> tag list \<Rightarrow> string set \<Rightarrow> string set" where
  "match_tags zoneID zone value [] unmatched = unmatched"
| "match_tags zoneID zone value (t # ts) unmatched =
     match_tags zoneID zone value ts
       (if tag_CategoryID t = zoneID \<and> tag_Name t = zone then unmatched - {value} else unmatched)"

fun match_hosts :: "string \<Rightarrow> string \<Rightarrow> attached_tags list \<Rightarrow> string set \<Rightarrow> string set" where
  "match_hosts zoneID zone [] unmatched = unmatched"
| "match_hosts zoneID zone (at # ats) unmatched =
     (if ref_Value (at_Object at) \<notin> unmatched then match_hosts zoneID zone ats unmatched
      else match_hosts zoneID zone ats
             (match_tags zoneID zone (ref_Value (at_Object at)) (at_Tags at) unmatched))"

definition host_errors ::
  "tag_env \<Rightarrow> vcenter \<Rightarrow> failure_domain \<Rightarrow> host_group \<Rightarrow> string \<Rightarrow> mo_ref list \<Rightarrow> go_error list" where
  "host_errors env vc fd hg zoneID hostsInGroup =
     (let unmatched = set (map ref_Value hostsInGroup);
          (errs, attached) = (case te_AttachedTags env vc hostsInGroup of
             Inl err \<Rightarrow> ([Errorf (''unable to get tags for hosts in host group '' @ hg_HostGroup hg @ '' ''
                          @ error_text err)], [])
           | Inr ats \<Rightarrow> ([], ats))
      in errs @ map (\<lambda>host. Errorf (''host '' @ host @ '' in host group '' @ hg_HostGroup hg
                    @ '' does not have an openshift-zone tag with value '' @ Zone fd))
           (te_range env (match_hosts zoneID (Zone fd) attached unmatched)))"

definition group_errors ::
  "tag_env \<Rightarrow> vcenter \<Rightarrow> failure_domain \<Rightarrow> host_group \<Rightarrow> string \<Rightarrow> cluster_config \<Rightarrow> go_error list" where
  "group_errors env vc fd hg zoneID cfg =
     (let (hostGroup, hosts, vmGroup) = group_loop hg (cc_Group cfg) (False, [], False);
          vmRule = rule_loop hg (cc_Rule cfg) False
      in (if \<not> hostGroup
          then [Errorf (fd_Name fd @ '' refers to host group '' @ hg_HostGroup hg @ '' which is not found'')]
          else if length hosts = 0
          then [Errorf (fd_Name fd @ '' does not have any hosts in host group '' @ hg_HostGroup hg)]
          else host_errors env vc fd hg zoneID hosts)
       @ (if \<not> vmGroup
          then [Errorf (fd_Name fd @ '' refers to vm group '' @ hg_VMGroup hg @ '' which is not found'')]
          else [])
       @ (if \<not> vmRule
          then [Errorf (fd_Name fd @ '' refers to vm host rule '' @ hg_VMHostRule hg @ '' which is not found'')]
          else []))"

text \<open>One failure domain: \<open>Inl\<close> is an early return of the check.\<close>

definition host_group_domain ::
  "tag_env \<Rightarrow> check_context \<Rightarrow> failure_domain \<Rightarrow> (go_error + go_error list) option" where
  "host_group_domain env ctx fd =
     (case ZoneAffinity fd of
        None \<Rightarrow> Some (Inr [])
      | Some za \<Rightarrow>
        if za_Type za \<noteq> HostGroupFailureDomainZone then Some (Inr [])
        else case map_of (VCenters ctx) (Server fd) of
          None \<Rightarrow> Some (Inl (Errorf (''vCenter '' @ Server fd @ '' not defined'')))
        | Some vc \<Rightarrow>
          (case validateTagCategories env vc of
             Inl err \<Rightarrow> Some (Inl (Errorf (''unable to get zone tag category from vCenter '' @ Server fd)))
           | Inr (_, zoneID) \<Rightarrow>
             (case te_Datacenter env vc (Datacenter (Topology fd)) of
                Inl err \<Rightarrow> Some (Inl (Errorf (''unable to get datacenter: '' @ Datacenter (Topology fd)
                             @ '' in '' @ Server fd @ '': '' @ error_text err)))
              | Inr dc \<Rightarrow>
                (case getClusterComputeResource env vc (ComputeCluster (Topology fd)) dc of
                   Inl err \<Rightarrow> Some (Inl (Errorf (''unable to get compute cluster: ''
                                @ ComputeCluster (Topology fd) @ '' in '' @ Server fd @ '': '' @ error_text err)))
                 | Inr ccr \<Rightarrow>
                   (case te_Configuration env vc ccr of
                      Inl err \<Rightarrow> Some (Inl (Errorf (''unable to get compute cluster configuration: ''
                                   @ ComputeCluster (Topology fd) @ '' in '' @ Server fd @ '': '' @ error_text err)))
                    | Inr cfg \<Rightarrow>
                      (case za_HostGroup za of
                         None \<Rightarrow> None
                       | Some hg \<Rightarrow> Some (Inr (group_errors env vc fd hg zoneID cfg))))))))"

fun host_group_loop ::
  "tag_env \<Rightarrow> check_context \<Rightarrow> failure_domain list \<Rightarrow> go_error list \<Rightarrow> go_error option option" where
  "host_group_loop env ctx [] errs =
     Some (if errs \<noteq> [] then Some (joinWithSeparator errs '';'') else None)"
| "host_group_loop env ctx (fd # fds) errs =
     (case host_group_domain env ctx fd of
        None \<Rightarrow> None
      | Some (Inl err) \<Rightarrow> Some (Some err)
      | Some (Inr es) \<Rightarrow> host_group_loop env ctx fds (errs @ es))"

definition CheckHostGroups ::
  "tag_env \<Rightarrow> check_context \<Rightarrow> go_error + infrastructure \<Rightarrow> go_error option option" where
  "CheckHostGroups env ctx answer =
     (case answer of
        Inl err \<Rightarrow> Some (Some (Errorf (''error getting infrastructure: '' @ error_text err)))
      | Inr inf' \<Rightarrow>
        (case spec_VSphere inf' of
           None \<Rightarrow> Some None
         | Some spec \<Rightarrow> host_group_loop env ctx (FailureDomains spec) []))"

section \<open>What the loops compute\<close>

definition hosts_of :: "string \<Rightarrow> cluster_group list \<Rightarrow> mo_ref list" where
  "hosts_of name gs = concat (map (\<lambda>g. case g of ClusterHostGroup n hs \<Rightarrow> if n = name then hs else [] | _ \<Rightarrow> []) gs)"

lemma group_loop_eq:
  "group_loop hg gs (h, hosts, v) =
     (h \<or> (\<exists>hs. ClusterHostGroup (hg_HostGroup hg) hs \<in> set gs), hosts @ hosts_of (hg_HostGroup hg) gs,
      v \<or> ClusterVmGroup (hg_VMGroup hg) \<in> set gs)"
proof (induction gs arbitrary: h hosts v)
  case (Cons g gs)
  then show ?case by (cases g) (auto simp: hosts_of_def)
qed (simp add: hosts_of_def)

lemma rule_loop_eq: "rule_loop hg rs p \<longleftrightarrow> p \<or> ClusterVmHostRule (hg_VMHostRule hg) \<in> set rs"
proof (induction rs arbitrary: p)
  case (Cons r rs)
  then show ?case by (cases r) auto
qed simp

lemma match_tags_eq:
  "match_tags zID zone v ts u = (if \<exists>t \<in> set ts. tag_CategoryID t = zID \<and> tag_Name t = zone then u - {v} else u)"
  by (induction ts arbitrary: u) auto

definition host_tagged :: "string \<Rightarrow> string \<Rightarrow> attached_tags list \<Rightarrow> string \<Rightarrow> bool" where
  "host_tagged zID zone ats host \<longleftrightarrow> (\<exists>at \<in> set ats. ref_Value (at_Object at) = host \<and>
     (\<exists>t \<in> set (at_Tags at). tag_CategoryID t = zID \<and> tag_Name t = zone))"

lemma match_hosts_eq: "match_hosts zID zone ats u = {h \<in> u. \<not> host_tagged zID zone ats h}"
  by (induction ats arbitrary: u) (auto simp: host_tagged_def match_tags_eq)

definition ranges_ok :: "tag_env \<Rightarrow> bool" where
  "ranges_ok env \<longleftrightarrow> (\<forall>s. finite s \<longrightarrow> distinct (te_range env s) \<and> set (te_range env s) = s)"

text \<open>What the check wants of the groups of a cluster.\<close>

definition groups_fine ::
  "tag_env \<Rightarrow> vcenter \<Rightarrow> failure_domain \<Rightarrow> host_group \<Rightarrow> string \<Rightarrow> cluster_config \<Rightarrow> bool" where
  "groups_fine env vc fd hg zoneID cfg \<longleftrightarrow>
     (let hosts = hosts_of (hg_HostGroup hg) (cc_Group cfg) in
      hosts \<noteq> [] \<and>
      (\<exists>ats. te_AttachedTags env vc hosts = Inr ats \<and>
         (\<forall>h \<in> set hosts. host_tagged zoneID (Zone fd) ats (ref_Value h))) \<and>
      ClusterVmGroup (hg_VMGroup hg) \<in> set (cc_Group cfg) \<and>
      ClusterVmHostRule (hg_VMHostRule hg) \<in> set (cc_Rule cfg))"

lemma hosts_of_present: "hosts_of name gs \<noteq> [] \<Longrightarrow> \<exists>hs. ClusterHostGroup name hs \<in> set gs"
proof (induction gs)
  case (Cons g gs)
  then show ?case by (cases g) (auto simp: hosts_of_def split: if_splits)
qed (simp add: hosts_of_def)

lemma host_errors_Nil:
  assumes "ranges_ok env"
  shows "host_errors env vc fd hg zID hosts = [] \<longleftrightarrow>
     (\<exists>ats. te_AttachedTags env vc hosts = Inr ats \<and> (\<forall>h \<in> set hosts. host_tagged zID (Zone fd) ats (ref_Value h)))"
proof -
  have range: "te_range env {h \<in> ref_Value ` set hosts. \<not> host_tagged zID (Zone fd) ats h} = [] \<longleftrightarrow>
      (\<forall>h \<in> set hosts. host_tagged zID (Zone fd) ats (ref_Value h))" for ats
  proof -
    let ?s = "{h \<in> ref_Value ` set hosts. \<not> host_tagged zID (Zone fd) ats h}"
    have "finite ?s" by simp
    then have "set (te_range env ?s) = ?s" using assms unfolding ranges_ok_def by blast
    then have "te_range env ?s = [] \<longleftrightarrow> ?s = {}" unfolding set_empty [symmetric] by (rule arg_cong)
    then show ?thesis by auto
  qed
  show ?thesis
  proof (cases "te_AttachedTags env vc hosts")
    case (Inr ats)
    then show ?thesis by (simp add: host_errors_def match_hosts_eq Let_def range)
  qed (simp add: host_errors_def Let_def)
qed

lemma group_errors_Nil:
  assumes "ranges_ok env"
  shows "group_errors env vc fd hg zID cfg = [] \<longleftrightarrow> groups_fine env vc fd hg zID cfg"
proof -
  have "group_errors env vc fd hg zID cfg = [] \<longleftrightarrow>
      (\<exists>hs. ClusterHostGroup (hg_HostGroup hg) hs \<in> set (cc_Group cfg)) \<and>
      hosts_of (hg_HostGroup hg) (cc_Group cfg) \<noteq> [] \<and>
      host_errors env vc fd hg zID (hosts_of (hg_HostGroup hg) (cc_Group cfg)) = [] \<and>
      ClusterVmGroup (hg_VMGroup hg) \<in> set (cc_Group cfg) \<and>
      ClusterVmHostRule (hg_VMHostRule hg) \<in> set (cc_Rule cfg)"
    by (simp add: group_errors_def Let_def group_loop_eq rule_loop_eq)
  then show ?thesis
    unfolding host_errors_Nil [OF assms] groups_fine_def Let_def
    using hosts_of_present [of "hg_HostGroup hg" "cc_Group cfg"] by blast
qed

text \<open>What the check wants of a failure domain.\<close>

definition host_groups_fine :: "tag_env \<Rightarrow> check_context \<Rightarrow> failure_domain \<Rightarrow> bool" where
  "host_groups_fine env ctx fd \<longleftrightarrow>
     (\<forall>za. ZoneAffinity fd = Some za \<and> za_Type za = HostGroupFailureDomainZone \<longrightarrow>
        (\<exists>vc regionID zoneID dc ccr cfg hg.
           map_of (VCenters ctx) (Server fd) = Some vc \<and>
           validateTagCategories env vc = Inr (regionID, zoneID) \<and>
           te_Datacenter env vc (Datacenter (Topology fd)) = Inr dc \<and>
           te_Cluster env vc (ComputeCluster (Topology fd)) dc = Inr ccr \<and>
           te_Configuration env vc ccr = Inr cfg \<and>
           za_HostGroup za = Some hg \<and> groups_fine env vc fd hg zoneID cfg))"

lemma host_group_domain_passes:
  assumes "ranges_ok env"
  shows "host_group_domain env ctx fd = Some (Inr []) \<longleftrightarrow> host_groups_fine env ctx fd"
  unfolding host_groups_fine_def host_group_domain_def getClusterComputeResource_def
  by (auto simp: group_errors_Nil [OF assms] split: option.split sum.split)

lemma host_group_loop_passes:
  assumes "ranges_ok env"
  shows "host_group_loop env ctx fds errs = Some None \<longleftrightarrow>
     errs = [] \<and> (\<forall>fd \<in> set fds. host_groups_fine env ctx fd)"
proof (induction fds arbitrary: errs)
  case (Cons fd fds)
  show ?case
    using host_group_domain_passes [OF assms, of ctx fd] Cons.IH
    by (cases "host_group_domain env ctx fd") (auto split: sum.split)
qed auto

lemma CheckHostGroups_passes:
  assumes "ranges_ok env" "spec_VSphere infra = Some spec"
  shows "CheckHostGroups env ctx (Inr infra) = Some None \<longleftrightarrow>
     (\<forall>fd \<in> set (FailureDomains spec). host_groups_fine env ctx fd)"
  using assms(2) by (simp add: CheckHostGroups_def host_group_loop_passes [OF assms(1)])

text \<open>The same with the categories found by their names, which differ.\<close>

definition host_groups_wanted :: "tag_env \<Rightarrow> check_context \<Rightarrow> failure_domain \<Rightarrow> bool" where
  "host_groups_wanted env ctx fd \<longleftrightarrow>
     (\<forall>za. ZoneAffinity fd = Some za \<and> za_Type za = ''HostGroup'' \<longrightarrow>
        (\<exists>vc r z dc cluster cfg hg.
           map_of (VCenters ctx) (Server fd) = Some vc \<and>
           category_of env vc ''openshift-region'' r \<and> category_of env vc ''openshift-zone'' z \<and>
           te_Datacenter env vc (Datacenter (Topology fd)) = Inr dc \<and>
           te_Cluster env vc (ComputeCluster (Topology fd)) dc = Inr cluster \<and>
           te_Configuration env vc cluster = Inr cfg \<and>
           za_HostGroup za = Some hg \<and> groups_fine env vc fd hg z cfg))"

lemma host_groups_fine_wanted:
  assumes "\<forall>vc \<in> snd ` set (VCenters ctx). unique_categories env vc"
  shows "host_groups_fine env ctx fd \<longleftrightarrow> host_groups_wanted env ctx fd"
proof -
  have "validateTagCategories env vc = Inr (r, z) \<longleftrightarrow>
      category_of env vc ''openshift-region'' r \<and> category_of env vc ''openshift-zone'' z"
    if "map_of (VCenters ctx) (Server fd) = Some vc" for vc r z
  proof -
    have "vc \<in> snd ` set (VCenters ctx)" using map_of_SomeD [OF that] by force
    then show ?thesis using assms by (intro validateTagCategories_iff) blast
  qed
  then show ?thesis
    unfolding host_groups_fine_def host_groups_wanted_def HostGroupFailureDomainZone_def by blast
qed

section \<open>Property\<close>

text \<open>
  The host group check passes exactly when, for every failure domain whose zone is a host
  group, the domain's vCenter, tag category, datacenter and cluster are found, the cluster has a
  host group of that name with at least one host, every host of every such group carries a tag of
  the zone category with the domain's zone as its name, and the VM group and the VM host rule
  exist. Other domains are not looked at.
\<close>

theorem host_groups_exact:
  assumes "ranges_ok env" "spec_VSphere infra = Some spec"
  shows "CheckHostGroups env ctx (Inr infra) = Some None \<longleftrightarrow>
     (\<forall>fd \<in> set (FailureDomains spec). host_groups_fine env ctx fd)"
  using assms by (rule CheckHostGroups_passes)

definition host_group_env :: tag_env where
  "host_group_env = tagged_env\<lparr>
     te_Configuration := (\<lambda>_ _. Inr \<lparr>cc_Group = [ClusterHostGroup ''hg'' [\<lparr>ref_Type = ''HostSystem'', ref_Value = ''h1''\<rparr>],
         ClusterVmGroup ''vg''], cc_Rule = [ClusterVmHostRule ''rule'']\<rparr>),
     te_AttachedTags := (\<lambda>_ refs. Inr (map (\<lambda>r. \<lparr>at_Object = r,
         at_Tags = [\<lparr>tag_CategoryID = ''z1'', tag_Name = ''z1''\<rparr>]\<rparr>) refs)),
     te_range := sorted_list_of_set\<rparr>"

lemma host_group_env_ranges: "ranges_ok host_group_env"
  by (simp add: ranges_ok_def host_group_env_def)

definition host_group_spec :: platform_spec where
  "host_group_spec = \<lparr>spec_VCenters = [], FailureDomains = [(sample_domain ''z1'' ''vc1'')
     \<lparr>ZoneAffinity := Some \<lparr>za_Type = ''HostGroup'', za_HostGroup = Some
        \<lparr>hg_VMGroup = ''vg'', hg_HostGroup = ''hg'', hg_VMHostRule = ''rule''\<rparr>\<rparr>\<rparr>]\<rparr>"

theorem host_groups_exact_witness:
  "CheckHostGroups host_group_env sample_ctx
     (Inr (sample_infrastructure\<lparr>spec_VSphere := Some host_group_spec\<rparr>)) = Some None"
proof -
  have "host_groups_fine host_group_env sample_ctx fd" if "fd \<in> set (FailureDomains host_group_spec)" for fd
    using that
    by (simp add: host_group_spec_def host_groups_fine_def sample_ctx_def sample_domain_def
        validateTagCategories_def host_group_env_def tagged_env_def TagCategoryRegion_def
        TagCategoryZone_def groups_fine_def hosts_of_def host_tagged_def)
  then show ?thesis
    using host_groups_exact [OF host_group_env_ranges,
        of "sample_infrastructure\<lparr>spec_VSphere := Some host_group_spec\<rparr>" host_group_spec sample_ctx]
    by simp
qed

end
