(* ===== verification/NodePermissions.thy ===== *)
theory NodePermissions
  imports NodeChecks Permissions ZoneTags
begin

text \<open>
  The two node checks of privileges: pkg/check/node_cluster_permissions.go and
  node_resource_pool_permissions.go, with \<^verbatim>\<open>getComputeCluster\<close> and \<^verbatim>\<open>getResourcePool\<close> of
  util.go. Each keeps a map of what it has seen during a round of checks. vCenter's answers are
  the record \<open>node_perm_env\<close>. \<open>None\<close> is a panic: a nil pointer that is followed.

  The map of the cluster check is shared by the calls for all nodes without a lock. The model
  runs the calls one after the other, in any order; a data race is outside of it.
\<close>

section \<open>Data\<close>

record cluster_mo =
  cl_Name :: string
  cl_Ref :: string

record pool_mo =
  pool_Ref :: mo_ref
  pool_Parent :: "mo_ref option"

record node_perm_env =
  np_auth :: auth_manager
  np_HostParent :: "vcenter \<Rightarrow> string \<Rightarrow> go_error + mo_ref option"
  np_ClusterMo :: "vcenter \<Rightarrow> mo_ref \<Rightarrow> go_error + cluster_mo"
  np_ObjectName :: "vcenter \<Rightarrow> string \<Rightarrow> go_error + string"
  np_VmPool :: "vcenter \<Rightarrow> vm \<Rightarrow> go_error + string option"
  np_Pool :: "vcenter \<Rightarrow> string \<Rightarrow> go_error + pool_mo"
  np_InventoryPath :: "vcenter \<Rightarrow> mo_ref \<Rightarrow> go_error + string"

type_synonym clusters_seen = "string \<rightharpoonup> cluster_mo"
type_synonym pools_seen = "string \<rightharpoonup> pool_mo"

section \<open>The cluster check\<close>

definition getComputeCluster ::
  "node_perm_env \<Rightarrow> vcenter \<Rightarrow> string \<Rightarrow> (go_error + cluster_mo) option" where
  "getComputeCluster env vc ref =
     (case np_HostParent env vc ref of
        Inl err \<Rightarrow> Some (Inl (Errorf (''failed to get host system object from managed reference: ''
                     @ error_text err)))
      | Inr None \<Rightarrow> None
      | Inr (Some parent) \<Rightarrow>
        if ref_Type parent = ''ClusterComputeResource'' then
          (case np_ClusterMo env vc parent of
             Inl err \<Rightarrow> Some (Inl (Errorf (''failed to get compute cluster resource object from managed reference: ''
                          @ error_text err)))
           | Inr cluster \<Rightarrow> Some (Inr cluster))
        else Some (Inl (Errorf ''compute cluster resource not associated with managed reference'')))"

definition StartCheck_clusters :: clusters_seen where
  "StartCheck_clusters = Map.empty"

definition checkComputeClusterPrivileges ::
  "node_perm_env \<Rightarrow> vcenter \<Rightarrow> vm \<Rightarrow> bool \<Rightarrow> clusters_seen \<Rightarrow> (go_error option \<times> clusters_seen) option" where
  "checkComputeClusterPrivileges env vCenter v readOnly seen =
     (case vm_Host v of
        None \<Rightarrow> None
      | Some host \<Rightarrow>
        (case getComputeCluster env vCenter host of
           None \<Rightarrow> None
         | Some (Inl err) \<Rightarrow> Some (None, seen)
         | Some (Inr cluster) \<Rightarrow>
           if readOnly then Some (None, seen)
           else if seen (cl_Name cluster) \<noteq> None then Some (None, seen)
           else let seen = seen(cl_Name cluster \<mapsto> cluster) in
             (case comparePrivileges (Username vCenter) (cl_Ref cluster) (np_auth env vCenter)
                     (permissions permissionCluster) of
                Some err \<Rightarrow> Some (Some (Errorf (''missing privileges for compute cluster ''
                              @ cl_Name cluster @ '': '' @ error_text err)), seen)
              | None \<Rightarrow> Some (None, seen))))"

text \<open>A resource pool made for the installation, as opposed to the root pool of a cluster.\<close>

definition custom_pool :: "string \<Rightarrow> bool" where
  "custom_pool rp \<longleftrightarrow> rp \<noteq> [] \<and> \<not> suffix ''/Resources'' rp"

fun custom_pool_loop :: "failure_domain list \<Rightarrow> string \<Rightarrow> string \<Rightarrow> bool" where
  "custom_pool_loop [] region zone = False"
| "custom_pool_loop (fd # fds) region zone =
     (if Region fd = region \<and> Zone fd = zone \<and> custom_pool (ResourcePool (Topology fd)) then True
      else custom_pool_loop fds region zone)"

text \<open>\<^verbatim>\<open>readOnly\<close> of \<^verbatim>\<open>CheckNode\<close>.\<close>

definition cluster_read_only :: "vsphere_config \<Rightarrow> check_context \<Rightarrow> node \<Rightarrow> bool" where
  "cluster_read_only config ctx n =
     (if (case LegacyConfig config of None \<Rightarrow> False
          | Some legacy \<Rightarrow> ws_ResourcePoolPath (Workspace legacy) \<noteq> [])
      then True
      else case PlatformSpec ctx of
        None \<Rightarrow> False
      | Some spec \<Rightarrow>
        (case FailureDomains spec of
           [fd] \<Rightarrow> custom_pool (ResourcePool (Topology fd))
         | fds \<Rightarrow> custom_pool_loop fds (node_region n) (node_zone n)))"

definition CheckComputeClusterPermissions ::
  "node_perm_env \<Rightarrow> check_context \<Rightarrow> node \<Rightarrow> vm \<Rightarrow> clusters_seen
   \<Rightarrow> (go_error option \<times> clusters_seen) option" where
  "CheckComputeClusterPermissions env ctx n v seen =
     (case GetVCenter ctx n of
        Inl err \<Rightarrow> Some (Some (Errorf (''unable to check node '' @ node_Name n @ '': '' @ error_text err)), seen)
      | Inr vCenterInfo \<Rightarrow>
        (case VMConfig ctx of
           None \<Rightarrow> None
         | Some config \<Rightarrow>
           (case checkComputeClusterPrivileges env vCenterInfo v (cluster_read_only config ctx n) seen of
              None \<Rightarrow> None
            | Some (err, seen) \<Rightarrow>
                (let errs = append_error [] err in
                 Some (if 0 < length errs then Some (join errs) else None, seen)))))"

section \<open>The resource pool check\<close>

text \<open>A failed lookup of the owner of a \<^verbatim>\<open>VirtualApp\<close> leaves the pool as it is.\<close>

definition owner_pool :: "node_perm_env \<Rightarrow> vcenter \<Rightarrow> pool_mo \<Rightarrow> pool_mo option" where
  "owner_pool env vc pool =
     (if ref_Type (pool_Ref pool) = ''VirtualApp'' then
        (case pool_Parent pool of
           None \<Rightarrow> None
         | Some parent \<Rightarrow> Some (case np_Pool env vc (ref_Value parent) of Inl _ \<Rightarrow> pool | Inr p \<Rightarrow> p))
      else Some pool)"

definition getResourcePool ::
  "node_perm_env \<Rightarrow> vcenter \<Rightarrow> vm \<Rightarrow> (go_error + (pool_mo \<times> string)) option" where
  "getResourcePool env vc v =
     (case np_VmPool env vc v of
        Inl err \<Rightarrow> Some (Inl (Errorf (''failed to get virtual machine object from managed reference: ''
                     @ error_text err)))
      | Inr None \<Rightarrow> None
      | Inr (Some ref) \<Rightarrow>
        (case np_Pool env vc ref of
           Inl err \<Rightarrow> Some (Inl (Errorf (''failed to get resource pool object from managed reference: ''
                        @ error_text err)))
         | Inr pool \<Rightarrow>
           (case owner_pool env vc pool of
              None \<Rightarrow> None
            | Some pool \<Rightarrow>
              (case np_InventoryPath env vc (pool_Ref pool) of
                 Inl err \<Rightarrow> Some (Inl err)
               | Inr path \<Rightarrow> Some (Inr (pool, path))))))"

definition StartCheck_pools :: pools_seen where
  "StartCheck_pools = Map.empty"

definition checkResourcePoolPrivileges ::
  "node_perm_env \<Rightarrow> vcenter \<Rightarrow> vm \<Rightarrow> pools_seen \<Rightarrow> (go_error option \<times> pools_seen) option" where
  "checkResourcePoolPrivileges env vCenter v seen =
     (case getResourcePool env vCenter v of
        None \<Rightarrow> None
      | Some (Inl err) \<Rightarrow> Some (None, seen)
      | Some (Inr (pool, path)) \<Rightarrow>
        (let seen = seen(path \<mapsto> pool) in
         case comparePrivileges (Username vCenter) (ref_Value (pool_Ref pool)) (np_auth env vCenter)
                (permissions permissionCluster) of
           Some err \<Rightarrow> Some (Some (Errorf (''missing privileges for resource pool '' @ path @ '': ''
                         @ error_text err)), seen)
         | None \<Rightarrow> Some (None, seen)))"

definition CheckResourcePoolPermissions ::
  "node_perm_env \<Rightarrow> check_context \<Rightarrow> node \<Rightarrow> vm \<Rightarrow> pools_seen \<Rightarrow> (go_error option \<times> pools_seen) option" where
  "CheckResourcePoolPermissions env ctx n v seen =
     (case GetVCenter ctx n of
        Inl err \<Rightarrow> Some (Some (Errorf (''unable to check node '' @ node_Name n @ '': '' @ error_text err)), seen)
      | Inr vCenter \<Rightarrow>
        (case vm_ResourcePool v of
           None \<Rightarrow> Some (None, seen)
         | Some rp \<Rightarrow>
           (case np_ObjectName env vCenter rp of
              Inl err \<Rightarrow> Some (Some err, seen)
            | Inr rpName \<Rightarrow>
              if suffix ''Resources'' rpName then Some (None, seen)
              else (case checkResourcePoolPrivileges env vCenter v seen of
                      None \<Rightarrow> None
                    | Some (err, seen) \<Rightarrow>
                        (let errs = append_error [] err in
                         Some (if 0 < length errs then Some (join errs) else None, seen))))))"

section \<open>A round of calls\<close>

fun cluster_calls ::
  "node_perm_env \<Rightarrow> check_context \<Rightarrow> (node \<times> vm) list \<Rightarrow> clusters_seen
   \<Rightarrow> (go_error option list \<times> clusters_seen) option" where
  "cluster_calls env ctx [] seen = Some ([], seen)"
| "cluster_calls env ctx ((n, v) # calls) seen =
     (case CheckComputeClusterPermissions env ctx n v seen of
        None \<Rightarrow> None
      | Some (err, seen) \<Rightarrow>
        (case cluster_calls env ctx calls seen of
           None \<Rightarrow> None
         | Some (errs, seen) \<Rightarrow> Some (err # errs, seen)))"

text \<open>
  A node runs in a resource pool made for the installation: the legacy configuration names a pool,
  or the failure domain of the node does, one that is not the root pool of a cluster. A single
  failure domain is that of every node.
\<close>

definition in_custom_pool :: "vsphere_config \<Rightarrow> check_context \<Rightarrow> node \<Rightarrow> bool" where
  "in_custom_pool config ctx n \<longleftrightarrow>
     (\<exists>legacy. LegacyConfig config = Some legacy \<and> ws_ResourcePoolPath (Workspace legacy) \<noteq> []) \<or>
     (\<exists>spec fd. PlatformSpec ctx = Some spec \<and> fd \<in> set (FailureDomains spec) \<and>
        (FailureDomains spec = [fd] \<or> Region fd = node_region n \<and> Zone fd = node_zone n) \<and>
        ResourcePool (Topology fd) \<noteq> [] \<and> (\<forall>p. ResourcePool (Topology fd) \<noteq> p @ ''/Resources''))"

text \<open>
  The cluster by whose privileges a node is to be judged, and its vCenter: the parent of the host of
  its VM, unless the node runs in a pool of its own.
\<close>

definition judged :: "node_perm_env \<Rightarrow> check_context \<Rightarrow> node \<times> vm \<Rightarrow> (vcenter \<times> cluster_mo) option" where
  "judged env ctx call =
     (case (GetVCenter ctx (fst call), VMConfig ctx, vm_Host (snd call)) of
        (Inr vc, Some config, Some host) \<Rightarrow>
          if in_custom_pool config ctx (fst call) then None
          else (case np_HostParent env vc host of
                  Inr (Some parent) \<Rightarrow>
                    if ref_Type parent = ''ClusterComputeResource''
                    then (case np_ClusterMo env vc parent of Inr cl \<Rightarrow> Some (vc, cl) | Inl _ \<Rightarrow> None)
                    else None
                | _ \<Rightarrow> None)
      | _ \<Rightarrow> None)"

lemma custom_pool_loop_iff:
  "custom_pool_loop fds region zone \<longleftrightarrow>
     (\<exists>fd \<in> set fds. Region fd = region \<and> Zone fd = zone \<and> custom_pool (ResourcePool (Topology fd)))"
  by (induction fds) auto

lemma cluster_read_only_iff: "cluster_read_only config ctx n \<longleftrightarrow> in_custom_pool config ctx n"
proof -
  have custom: "custom_pool rp \<longleftrightarrow> rp \<noteq> [] \<and> (\<forall>p. rp \<noteq> p @ ''/Resources'')" for rp
    by (simp add: custom_pool_def suffix_def)
  show ?thesis
  proof (cases "PlatformSpec ctx")
    case None
    then show ?thesis by (simp add: cluster_read_only_def in_custom_pool_def split: option.split)
  next
    case (Some spec)
    have "(case FailureDomains spec of [fd] \<Rightarrow> custom_pool (ResourcePool (Topology fd))
         | fds \<Rightarrow> custom_pool_loop fds (node_region n) (node_zone n)) \<longleftrightarrow>
        (\<exists>fd. fd \<in> set (FailureDomains spec) \<and>
           (FailureDomains spec = [fd] \<or> Region fd = node_region n \<and> Zone fd = node_zone n) \<and>
           custom_pool (ResourcePool (Topology fd)))"
    proof (cases "\<exists>fd. FailureDomains spec = [fd]")
      case True
      then show ?thesis by auto
    next
      case False
      then have "(case FailureDomains spec of [fd] \<Rightarrow> custom_pool (ResourcePool (Topology fd))
          | fds \<Rightarrow> custom_pool_loop fds (node_region n) (node_zone n))
          = custom_pool_loop (FailureDomains spec) (node_region n) (node_zone n)"
        by (auto split: list.split)
      then show ?thesis using False by (auto simp: custom_pool_loop_iff)
    qed
    then show ?thesis
      unfolding cluster_read_only_def in_custom_pool_def custom Some by (auto split: option.split)
  qed
qed

lemma judged_eq:
  "judged env ctx call =
     (case (GetVCenter ctx (fst call), VMConfig ctx, vm_Host (snd call)) of
        (Inr vc, Some config, Some host) \<Rightarrow>
          if cluster_read_only config ctx (fst call) then None
          else (case getComputeCluster env vc host of Some (Inr cl) \<Rightarrow> Some (vc, cl) | _ \<Rightarrow> None)
      | _ \<Rightarrow> None)"
  unfolding cluster_read_only_iff
  by (simp add: judged_def getComputeCluster_def split: sum.split option.split)

definition resolved :: "check_context \<Rightarrow> node \<times> vm \<Rightarrow> bool" where
  "resolved ctx call \<longleftrightarrow> (\<exists>vc. GetVCenter ctx (fst call) = Inr vc)"

definition cluster_allowed :: "node_perm_env \<Rightarrow> vcenter \<times> cluster_mo \<Rightarrow> bool" where
  "cluster_allowed env target \<longleftrightarrow> may (np_auth env) (fst target) permissionCluster (cl_Ref (snd target))"

lemma unresolved_call:
  assumes "CheckComputeClusterPermissions env ctx n v seen = Some (err, seen')" "\<not> resolved ctx (n, v)"
  shows "err \<noteq> None \<and> seen' = seen" "judged env ctx (n, v) = None"
  using assms
  by (cases "GetVCenter ctx n"; auto simp: CheckComputeClusterPermissions_def resolved_def judged_eq)+

lemma append_error_join:
  "(if 0 < length (append_error [] err) then Some (join (append_error [] err)) else None) = None \<longleftrightarrow> err = None"
  by (auto simp: append_error_def split: option.splits)

lemma cluster_privileges_call:
  assumes "checkComputeClusterPrivileges env vc v ro seen = Some (err, seen')" "vm_Host v = Some host"
    and "getComputeCluster env vc host = Some (Inr cl)" "\<not> ro"
  shows "if seen (cl_Name cl) \<noteq> None then err = None \<and> seen' = seen
         else (err = None \<longleftrightarrow> cluster_allowed env (vc, cl)) \<and> seen' = seen(cl_Name cl \<mapsto> cl)"
  using assms
  by (cases "comparePrivileges (Username vc) (cl_Ref cl) (np_auth env vc) (permissions permissionCluster)")
    (auto simp: checkComputeClusterPrivileges_def cluster_allowed_def Let_def
      comparePrivileges_may [symmetric] simp del: permissions.simps split: if_splits)

lemma resolved_call:
  assumes "CheckComputeClusterPermissions env ctx n v seen = Some (err, seen')" "resolved ctx (n, v)"
  shows "case judged env ctx (n, v) of
     None \<Rightarrow> err = None \<and> seen' = seen
   | Some target \<Rightarrow>
       if seen (cl_Name (snd target)) \<noteq> None then err = None \<and> seen' = seen
       else (err = None \<longleftrightarrow> cluster_allowed env target) \<and>
            seen' = seen(cl_Name (snd target) \<mapsto> snd target)"
proof -
  obtain vc where vc: "GetVCenter ctx n = Inr vc" using assms(2) by (auto simp: resolved_def)
  obtain config e where config: "VMConfig ctx = Some config"
    and call: "checkComputeClusterPrivileges env vc v (cluster_read_only config ctx n) seen = Some (e, seen')"
    and err: "err = None \<longleftrightarrow> e = None"
    using assms(1) append_error_join
    by (auto simp: CheckComputeClusterPermissions_def vc Let_def split: option.splits)
  obtain host where host: "vm_Host v = Some host"
    using call by (auto simp: checkComputeClusterPrivileges_def split: option.splits)
  show ?thesis
  proof (cases "\<exists>cl. getComputeCluster env vc host = Some (Inr cl) \<and> \<not> cluster_read_only config ctx n")
    case True
    then obtain cl where cl: "getComputeCluster env vc host = Some (Inr cl)" "\<not> cluster_read_only config ctx n"
      by blast
    have "judged env ctx (n, v) = Some (vc, cl)" using vc config host cl by (simp add: judged_eq)
    then show ?thesis using cluster_privileges_call [OF call host cl] err by simp
  next
    case False
    then have "judged env ctx (n, v) = None"
      using vc config host by (auto simp: judged_eq split: option.splits sum.splits)
    moreover have "e = None \<and> seen' = seen"
      using call host False
      by (auto simp: checkComputeClusterPrivileges_def split: option.splits sum.splits if_splits)
    ultimately show ?thesis using err by simp
  qed
qed

text \<open>Among these calls, the name of a cluster says which cluster of which vCenter it is.\<close>

definition names_identify :: "node_perm_env \<Rightarrow> check_context \<Rightarrow> (node \<times> vm) list \<Rightarrow> bool" where
  "names_identify env ctx calls \<longleftrightarrow>
     (\<forall>a \<in> set calls. \<forall>b \<in> set calls. \<forall>s t. judged env ctx a = Some s \<and> judged env ctx b = Some t \<and>
        cl_Name (snd s) = cl_Name (snd t) \<longrightarrow> s = t)"

lemma names_identifyD:
  "names_identify env ctx calls \<Longrightarrow> a \<in> set calls \<Longrightarrow> b \<in> set calls \<Longrightarrow> judged env ctx a = Some s \<Longrightarrow>
   judged env ctx b = Some t \<Longrightarrow> cl_Name (snd s) = cl_Name (snd t) \<Longrightarrow> s = t"
  unfolding names_identify_def by blast

lemma names_identify_mono:
  "names_identify env ctx calls \<Longrightarrow> set calls' \<subseteq> set calls \<Longrightarrow> names_identify env ctx calls'"
  unfolding names_identify_def by (meson subsetD)

lemma cluster_calls_ConsE:
  assumes "cluster_calls env ctx ((n, v) # calls) seen = Some (errs, seen')"
  obtains err seen1 errs1 where "CheckComputeClusterPermissions env ctx n v seen = Some (err, seen1)"
    "cluster_calls env ctx calls seen1 = Some (errs1, seen')" "errs = err # errs1"
proof (cases "CheckComputeClusterPermissions env ctx n v seen")
  case (Some r)
  with assms that show thesis
    by (cases r; cases "cluster_calls env ctx calls (snd r)") auto
qed (use assms in simp)

text \<open>Marking a cluster that the account may use changes nothing for the later calls.\<close>

lemma seen_extended:
  assumes "\<And>c u. c \<in> set calls \<Longrightarrow> judged env ctx c = Some u \<Longrightarrow> cl_Name (snd u) = cl_Name (snd t) \<Longrightarrow> u = t"
    and "cluster_allowed env t"
  shows "(\<forall>c \<in> set calls. resolved ctx c \<and> (\<forall>u. judged env ctx c = Some u \<and>
      (seen(cl_Name (snd t) \<mapsto> snd t)) (cl_Name (snd u)) = None \<longrightarrow> cluster_allowed env u)) \<longleftrightarrow>
    (\<forall>c \<in> set calls. resolved ctx c \<and>
      (\<forall>u. judged env ctx c = Some u \<and> seen (cl_Name (snd u)) = None \<longrightarrow> cluster_allowed env u))"
proof -
  have "((seen(cl_Name (snd t) \<mapsto> snd t)) (cl_Name (snd u)) = None \<longrightarrow> cluster_allowed env u) \<longleftrightarrow>
      (seen (cl_Name (snd u)) = None \<longrightarrow> cluster_allowed env u)"
    if "c \<in> set calls" "judged env ctx c = Some u" for c u
  proof (cases "cl_Name (snd u) = cl_Name (snd t)")
    case True
    then show ?thesis using assms(1) [OF that] assms(2) by simp
  qed simp
  then show ?thesis by blast
qed

lemma cluster_calls_exact:
  assumes "cluster_calls env ctx calls seen = Some (errs, seen')" "names_identify env ctx calls"
  shows "(\<forall>e \<in> set errs. e = None) \<longleftrightarrow>
    (\<forall>call \<in> set calls. resolved ctx call \<and>
       (\<forall>t. judged env ctx call = Some t \<and> seen (cl_Name (snd t)) = None \<longrightarrow> cluster_allowed env t))"
  using assms
proof (induction calls arbitrary: seen errs)
  case (Cons call calls)
  obtain n v where nv: "call = (n, v)" by (cases call)
  from Cons.prems(1) obtain err seen1 errs1
    where first: "CheckComputeClusterPermissions env ctx n v seen = Some (err, seen1)"
      and rest: "cluster_calls env ctx calls seen1 = Some (errs1, seen')" and errs: "errs = err # errs1"
    unfolding nv by (rule cluster_calls_ConsE)
  have names: "names_identify env ctx calls" by (rule names_identify_mono [OF Cons.prems(2)]) auto
  note IH = Cons.IH [OF rest names]
  show ?case
  proof (cases "resolved ctx (n, v)")
    case False
    then show ?thesis using unresolved_call [OF first] errs nv by auto
  next
    case True
    note R = resolved_call [OF first True]
    show ?thesis
    proof (cases "judged env ctx (n, v)")
      case None
      then show ?thesis using R IH True errs nv by simp
    next
      case (Some t)
      show ?thesis
      proof (cases "seen (cl_Name (snd t)) = None")
        case False
        then have s: "err = None" "seen1 = seen" using R Some by simp_all
        show ?thesis using IH True errs nv Some s False by (simp del: split_paired_All not_None_eq)
      next
        case new: True
        then have s: "err = None \<longleftrightarrow> cluster_allowed env t" "seen1 = seen(cl_Name (snd t) \<mapsto> snd t)"
          using R Some by simp_all
        have same: "u = t" if "c \<in> set calls" "judged env ctx c = Some u" "cl_Name (snd u) = cl_Name (snd t)" for c u
          using names_identifyD [OF Cons.prems(2), of c "(n, v)" u t] that Some by (simp add: nv)
        have "(\<forall>e \<in> set errs. e = None) \<longleftrightarrow> cluster_allowed env t \<and> (\<forall>c \<in> set calls. resolved ctx c \<and>
            (\<forall>u. judged env ctx c = Some u \<and> seen (cl_Name (snd u)) = None \<longrightarrow> cluster_allowed env u))"
        proof (cases "cluster_allowed env t")
          case True
          show ?thesis using seen_extended [OF same True] True IH unfolding s(2) errs by (simp add: s(1) del: split_paired_All)
        qed (simp add: errs s(1))
        then show ?thesis using True Some new by (simp add: nv del: split_paired_All)
      qed
    qed
  qed
qed simp

section \<open>Properties\<close>

text \<open>
  C35: Where the name of a compute cluster identifies it, skipping the clusters that were seen
  before loses nothing: over a round of calls in any order, no call reports an error exactly when
  every node has a vCenter and the account holds every cluster privilege on every cluster a node
  was to be judged by. Nodes with a custom resource pool, and clusters that cannot be read, are
  not judged.
\<close>

theorem cluster_permissions_exact:
  assumes "cluster_calls env ctx calls StartCheck_clusters = Some (errs, seen)"
    and "names_identify env ctx calls"
  shows "(\<forall>e \<in> set errs. e = None) \<longleftrightarrow>
    (\<forall>call \<in> set calls. resolved ctx call \<and>
       (\<forall>t. judged env ctx call = Some t \<longrightarrow> cluster_allowed env t))"
  using cluster_calls_exact [OF assms] by (simp add: StartCheck_clusters_def)

text \<open>
  C36: The map of the cluster check is keyed by the bare name of the cluster. Once a cluster of some
  name was looked at, a node whose cluster has the same name in another datacenter or vCenter
  passes the check whatever the account may do there.
\<close>

theorem same_name_cluster_unchecked:
  assumes "seen (cl_Name (snd t)) \<noteq> None" "resolved ctx (n, v)" "judged env ctx (n, v) = Some t"
  shows "CheckComputeClusterPermissions env ctx n v seen = Some (None, seen)"
proof -
  obtain vc cl where t: "t = (vc, cl)" by (cases t)
  obtain config host where c: "GetVCenter ctx n = Inr vc" "VMConfig ctx = Some config" "vm_Host v = Some host"
      "\<not> cluster_read_only config ctx n" "getComputeCluster env vc host = Some (Inr cl)"
    using assms(3) by (auto simp: judged_eq t split: sum.splits option.splits if_splits)
  have "checkComputeClusterPrivileges env vc v (cluster_read_only config ctx n) seen = Some (None, seen)"
    using c assms(1) by (simp add: checkComputeClusterPrivileges_def t del: not_None_eq)
  then show ?thesis using c by (simp add: CheckComputeClusterPermissions_def append_error_def)
qed

text \<open>
  The pool in charge of a VM: the one it is in, or, when that is a \<^verbatim>\<open>VirtualApp\<close>, the pool that
  owns the \<^verbatim>\<open>VirtualApp\<close>, if it can be read. It has an inventory path.
\<close>

definition pool_in_charge :: "node_perm_env \<Rightarrow> vcenter \<Rightarrow> vm \<Rightarrow> pool_mo \<Rightarrow> bool" where
  "pool_in_charge env vc v pool \<longleftrightarrow>
     (\<exists>ref own path. np_VmPool env vc v = Inr (Some ref) \<and> np_Pool env vc ref = Inr own \<and>
        (ref_Type (pool_Ref own) \<noteq> ''VirtualApp'' \<longrightarrow> pool = own) \<and>
        (ref_Type (pool_Ref own) = ''VirtualApp'' \<longrightarrow>
           (\<exists>parent. pool_Parent own = Some parent \<and>
              (np_Pool env vc (ref_Value parent) = Inr pool \<or>
               (\<exists>err. np_Pool env vc (ref_Value parent) = Inl err) \<and> pool = own))) \<and>
        np_InventoryPath env vc (pool_Ref pool) = Inr path)"

lemma getResourcePool_iff:
  "(\<exists>path. getResourcePool env vc v = Some (Inr (pool, path))) \<longleftrightarrow> pool_in_charge env vc v pool"
  by (auto simp: getResourcePool_def owner_pool_def pool_in_charge_def split: sum.splits option.splits if_splits)

text \<open>What the resource pool check wants of a node.\<close>

definition pool_permitted :: "node_perm_env \<Rightarrow> vcenter \<Rightarrow> vm \<Rightarrow> bool" where
  "pool_permitted env vc v \<longleftrightarrow>
     (\<forall>rp. vm_ResourcePool v = Some rp \<longrightarrow>
        (\<exists>name. np_ObjectName env vc rp = Inr name \<and>
           (\<not> suffix ''Resources'' name \<longrightarrow>
              (\<forall>pool. pool_in_charge env vc v pool \<longrightarrow>
                 may (np_auth env) vc permissionCluster (ref_Value (pool_Ref pool))))))"

lemma pool_privileges_call:
  assumes "checkResourcePoolPrivileges env vc v seen = Some (err, seen')"
  shows "err = None \<longleftrightarrow> (\<forall>pool. pool_in_charge env vc v pool \<longrightarrow>
     may (np_auth env) vc permissionCluster (ref_Value (pool_Ref pool)))"
  unfolding getResourcePool_iff [symmetric]
  using assms
  by (auto simp: checkResourcePoolPrivileges_def comparePrivileges_may [symmetric] Let_def
      simp del: permissions.simps split: option.splits sum.splits)

text \<open>
  C37: The resource pool check of a node passes exactly when the node has a vCenter and its VM is in
  no pool, in the root pool of its cluster, in a pool that cannot be read, or the account holds every
  cluster privilege on the pool in charge of it: its own pool, or the owner of the
  \<^verbatim>\<open>VirtualApp\<close> it belongs to. What other nodes were checked before does not matter.
\<close>

theorem resource_pool_exact:
  assumes "CheckResourcePoolPermissions env ctx n v seen = Some (err, seen')"
  shows "err = None \<longleftrightarrow> (\<exists>vc. GetVCenter ctx n = Inr vc \<and> pool_permitted env vc v)"
proof (cases "GetVCenter ctx n")
  case (Inl e)
  then show ?thesis using assms by (auto simp: CheckResourcePoolPermissions_def)
next
  case (Inr vc)
  show ?thesis
  proof (cases "\<exists>rp name. vm_ResourcePool v = Some rp \<and> np_ObjectName env vc rp = Inr name \<and>
      \<not> suffix ''Resources'' name")
    case False
    then show ?thesis using assms Inr
      by (auto simp: CheckResourcePoolPermissions_def pool_permitted_def split: option.splits sum.splits if_splits)
  next
    case True
    then obtain rp name where rp: "vm_ResourcePool v = Some rp" "np_ObjectName env vc rp = Inr name"
      "\<not> suffix ''Resources'' name" by blast
    obtain e where call: "checkResourcePoolPrivileges env vc v seen = Some (e, seen')" and err: "err = None \<longleftrightarrow> e = None"
      using assms append_error_join
      by (auto simp: CheckResourcePoolPermissions_def Inr rp Let_def split: option.splits)
    show ?thesis
      unfolding err pool_privileges_call [OF call] using Inr rp by (simp add: pool_permitted_def)
  qed
qed

text \<open>Two vCenters with a cluster of the same name each, the second out of bounds for the account.\<close>

definition twin_env :: node_perm_env where
  "twin_env = \<lparr>np_auth = (\<lambda>vc mo user. Inr (if VCenterName vc = ''vc1'' then [permissions permissionCluster] else [])),
     np_HostParent = (\<lambda>vc host. Inr (Some \<lparr>ref_Type = ''ClusterComputeResource'', ref_Value = ''c''\<rparr>)),
     np_ClusterMo = (\<lambda>vc ref. Inr \<lparr>cl_Name = ''cluster'', cl_Ref = ref_Value ref\<rparr>),
     np_ObjectName = (\<lambda>vc rp. Inr rp), np_VmPool = (\<lambda>vc v. Inr (vm_ResourcePool v)),
     np_Pool = (\<lambda>vc rp. Inr \<lparr>pool_Ref = \<lparr>ref_Type = ''ResourcePool'', ref_Value = rp\<rparr>, pool_Parent = None\<rparr>),
     np_InventoryPath = (\<lambda>vc ref. Inr (''/dc/'' @ ref_Value ref))\<rparr>"

definition hosted_vm :: vm where
  "hosted_vm = \<lparr>vm_Config = Some \<lparr>ExtraConfig = [], DiskUuidEnabled = Some True, Config_Version = ''vmx-15''\<rparr>,
     vm_Host = Some ''h'', vm_ResourcePool = Some ''pool''\<rparr>"

definition twin_ctx :: check_context where
  "twin_ctx = sample_ctx\<lparr>VMConfig := Some \<lparr>VirtualCenter = [], LegacyConfig = None\<rparr>\<rparr>"

definition zone_node :: "string \<Rightarrow> node" where
  "zone_node zone = \<lparr>node_Name = zone,
     Labels = [LabelTopologyRegion \<mapsto> ''r'', LabelTopologyZone \<mapsto> zone], ProviderID = []\<rparr>"

lemma zone_node_labels: "node_region (zone_node z) = ''r''" "z \<noteq> [] \<Longrightarrow> node_zone (zone_node z) = z"
  by (simp_all add: node_region_def node_zone_def label_def zone_node_def LabelTopologyRegion_def
      LabelTopologyZone_def)

lemma twin_vcenter:
  "GetVCenter twin_ctx (zone_node ''z1'') = Inr \<lparr>VCenterName = ''vc1'', Username = ''u''\<rparr>"
  "GetVCenter twin_ctx (zone_node ''z2'') = Inr \<lparr>VCenterName = ''vc2'', Username = ''u''\<rparr>"
  by (simp_all add: GetVCenter_def twin_ctx_def sample_ctx_def sample_spec_def zone_node_labels
      sample_domain_def vcenter_at_def)

lemma twin_judged:
  assumes "GetVCenter twin_ctx n = Inr vc"
  shows "judged twin_env twin_ctx (n, hosted_vm) = Some (vc, \<lparr>cl_Name = ''cluster'', cl_Ref = ''c''\<rparr>)"
  using assms
  by (simp add: judged_eq twin_ctx_def sample_ctx_def sample_spec_def sample_domain_def sample_topology_def
      hosted_vm_def cluster_read_only_def custom_pool_def getComputeCluster_def twin_env_def)

lemma twin_call_returns:
  assumes "VMConfig ctx = Some cfg" "vm_Host v = Some h"
  shows "CheckComputeClusterPermissions twin_env ctx n v seen \<noteq> None"
proof (cases "GetVCenter ctx n")
  case (Inl err)
  then show ?thesis by (simp add: CheckComputeClusterPermissions_def)
next
  case (Inr vc)
  let ?ro = "cluster_read_only cfg ctx n"
  have "checkComputeClusterPrivileges twin_env vc v ?ro seen \<noteq> None"
    using assms(2)
    by (cases "comparePrivileges (Username vc) ''c'' (np_auth twin_env vc) (permissions permissionCluster)";
        simp add: checkComputeClusterPrivileges_def getComputeCluster_def Let_def del: permissions.simps;
        simp add: twin_env_def del: permissions.simps)
  then obtain r where "checkComputeClusterPrivileges twin_env vc v ?ro seen = Some r" by blast
  then show ?thesis using assms(1) Inr by (cases r) (simp add: CheckComputeClusterPermissions_def Let_def)
qed

theorem cluster_permissions_exact_witness:
  "\<exists>e seen. cluster_calls twin_env twin_ctx [(zone_node ''z2'', hosted_vm)] StartCheck_clusters = Some ([Some e], seen)"
proof -
  let ?calls = "[(zone_node ''z2'', hosted_vm)]"
  obtain e seen where run: "cluster_calls twin_env twin_ctx ?calls StartCheck_clusters = Some ([e], seen)"
  proof -
    have "VMConfig twin_ctx = Some \<lparr>VirtualCenter = [], LegacyConfig = None\<rparr>" "vm_Host hosted_vm = Some ''h''"
      by (simp_all add: twin_ctx_def hosted_vm_def)
    from twin_call_returns [OF this, of "zone_node ''z2''" StartCheck_clusters] that show thesis by auto
  qed
  note J = twin_judged [OF twin_vcenter(2)]
  have "\<not> cluster_allowed twin_env (\<lparr>VCenterName = ''vc2'', Username = ''u''\<rparr>, \<lparr>cl_Name = ''cluster'', cl_Ref = ''c''\<rparr>)"
    by (simp add: cluster_allowed_def may_def twin_env_def held_def)
  moreover have "names_identify twin_env twin_ctx ?calls"
    by (simp add: names_identify_def J)
  ultimately have "e \<noteq> None"
    using cluster_permissions_exact [OF run] J by simp
  then show ?thesis using run by blast
qed

theorem same_name_cluster_unchecked_witness:
  "CheckComputeClusterPermissions twin_env twin_ctx (zone_node ''z2'') hosted_vm
     [''cluster'' \<mapsto> \<lparr>cl_Name = ''cluster'', cl_Ref = ''c''\<rparr>]
   = Some (None, [''cluster'' \<mapsto> \<lparr>cl_Name = ''cluster'', cl_Ref = ''c''\<rparr>])"
  by (rule same_name_cluster_unchecked [OF _ _ twin_judged [OF twin_vcenter(2)]])
    (simp_all add: resolved_def twin_vcenter)

text \<open>The VM is in a \<^verbatim>\<open>VirtualApp\<close>; the account holds the privileges on the object \<open>h\<close> only.\<close>

definition app_env :: "string \<Rightarrow> node_perm_env" where
  "app_env h = twin_env\<lparr>np_auth := (\<lambda>vc mo user. Inr (if mo = h then [permissions permissionCluster] else [])),
     np_Pool := (\<lambda>vc rp. Inr (if rp = ''pool''
        then \<lparr>pool_Ref = \<lparr>ref_Type = ''VirtualApp'', ref_Value = ''pool''\<rparr>,
              pool_Parent = Some \<lparr>ref_Type = ''ResourcePool'', ref_Value = ''owner''\<rparr>\<rparr>
        else \<lparr>pool_Ref = \<lparr>ref_Type = ''ResourcePool'', ref_Value = rp\<rparr>, pool_Parent = None\<rparr>))\<rparr>"

lemma app_pool:
  "pool_in_charge (app_env h) vc hosted_vm pool \<longleftrightarrow>
     pool = \<lparr>pool_Ref = \<lparr>ref_Type = ''ResourcePool'', ref_Value = ''owner''\<rparr>, pool_Parent = None\<rparr>"
  by (auto simp: pool_in_charge_def app_env_def twin_env_def hosted_vm_def)

lemma app_call_returns:
  "\<exists>err seen'. CheckResourcePoolPermissions (app_env h) twin_ctx (zone_node ''z2'') hosted_vm seen = Some (err, seen')"
proof -
  let ?vc = "\<lparr>VCenterName = ''vc2'', Username = ''u''\<rparr>"
  have "getResourcePool (app_env h) ?vc hosted_vm \<noteq> None"
    by (simp add: getResourcePool_def owner_pool_def app_env_def twin_env_def hosted_vm_def)
  then have "checkResourcePoolPrivileges (app_env h) ?vc hosted_vm seen \<noteq> None"
    by (auto simp: checkResourcePoolPrivileges_def Let_def simp del: permissions.simps split: option.splits sum.splits)
  then obtain r where "checkResourcePoolPrivileges (app_env h) ?vc hosted_vm seen = Some r" by blast
  moreover have "vm_ResourcePool hosted_vm = Some ''pool''" "np_ObjectName (app_env h) ?vc ''pool'' = Inr ''pool''"
    by (simp_all add: hosted_vm_def app_env_def twin_env_def)
  ultimately show ?thesis
    by (cases r) (simp add: CheckResourcePoolPermissions_def twin_vcenter(2) Let_def)
qed

theorem resource_pool_exact_witness:
  "(\<exists>seen. CheckResourcePoolPermissions (app_env ''owner'') twin_ctx (zone_node ''z2'') hosted_vm StartCheck_pools
      = Some (None, seen)) \<and>
   (\<exists>e seen. CheckResourcePoolPermissions (app_env ''pool'') twin_ctx (zone_node ''z2'') hosted_vm StartCheck_pools
      = Some (Some e, seen))"
proof
  have vm: "vm_ResourcePool hosted_vm = Some ''pool''" "np_ObjectName (app_env h) vc ''pool'' = Inr ''pool''" for h vc
    by (simp_all add: hosted_vm_def app_env_def twin_env_def)
  have may: "may (np_auth (app_env h)) vc permissionCluster ''owner'' \<longleftrightarrow> h = ''owner''" for h vc
    by (auto simp: may_def app_env_def held_def)
  have permitted: "pool_permitted (app_env h) vc hosted_vm \<longleftrightarrow> h = ''owner''" for h vc
    using may by (simp add: pool_permitted_def vm app_pool suffix_def)
  obtain err seen where call: "CheckResourcePoolPermissions (app_env ''owner'') twin_ctx (zone_node ''z2'') hosted_vm
      StartCheck_pools = Some (err, seen)" using app_call_returns by blast
  show "\<exists>seen. CheckResourcePoolPermissions (app_env ''owner'') twin_ctx (zone_node ''z2'') hosted_vm StartCheck_pools
      = Some (None, seen)"
    using resource_pool_exact [OF call] call permitted twin_vcenter(2) by auto
  obtain err seen where call: "CheckResourcePoolPermissions (app_env ''pool'') twin_ctx (zone_node ''z2'') hosted_vm
      StartCheck_pools = Some (err, seen)" using app_call_returns by blast
  show "\<exists>e seen. CheckResourcePoolPermissions (app_env ''pool'') twin_ctx (zone_node ''z2'') hosted_vm StartCheck_pools
      = Some (Some e, seen)"
    using resource_pool_exact [OF call] call permitted by (cases err) auto
qed

end
