(* ===== verification/DefaultChecks.thy ===== *)
theory DefaultChecks
  imports Checker StorageClasses HostGroups NodePermissions NodePerf ClusterChecks
begin

text \<open>
  The tables of pkg/check/interface.go: \<^verbatim>\<open>DefaultClusterChecks\<close> and \<^verbatim>\<open>DefaultNodeChecks\<close>, the
  checks a round runs. \<open>default_env\<close> gathers what the single checks ask of vCenter and Kubernetes,
  and the state a call finds that other calls of the round have left: the caches, the clusters
  seen before, the answer \<^verbatim>\<open>MarkHostForProcessing\<close> gives to the call for each node, the
  performance counters. \<open>None\<close> is a panic.

  \<open>runs_defaults\<close> says that a round of \<open>Checker\<close> runs these tables and that none of its calls
  panics; what the calls for the nodes find is given for every node, as the order of the round
  makes it, so that every such round has its \<open>default_env\<close>; what a round reports is then stated in terms of the single checks.
\<close>

section \<open>The tables\<close>

text \<open>The orders in which the loops over maps run.\<close>

record finish_orders =
  ord_hw :: "cluster_info \<Rightarrow> string list"
  ord_hosts :: "cluster_info \<Rightarrow> string list"
  ord_versions :: "cluster_info \<Rightarrow> ESXiVersionInfo list"
  ord_cbt :: "cluster_info \<Rightarrow> string list"

record default_env =
  df_infra :: "go_error + infrastructure"
  df_classes :: "go_error + storage_class list"
  df_pvs :: "go_error + persistent_volume list"
  df_task :: task_env
  df_about :: "vcenter \<Rightarrow> about_info"
  df_folder :: folder_env
  df_caches :: caches
  df_ds :: ds_env
  df_order :: "string list"
  df_inventory :: inventory
  df_tag :: tag_env
  df_host :: "vcenter \<Rightarrow> string \<Rightarrow> go_error + (string \<times> string) option"
  df_processed :: "node \<Rightarrow> bool"
  df_perf :: perf_env
  df_counters :: "node \<Rightarrow> perf_map"
  df_node_perm :: node_perm_env
  df_clusters :: "node \<Rightarrow> clusters_seen"
  df_pools :: "node \<Rightarrow> pools_seen"
  df_orders :: finish_orders

definition plain :: "go_error option \<Rightarrow> node_call" where
  "plain err = (err, [])"

text \<open>\<^verbatim>\<open>ctx.PlatformSpec\<close> and \<^verbatim>\<open>ctx.VMConfig\<close> are pointers that the checks follow.\<close>

definition with_spec :: "check_context \<Rightarrow> (platform_spec \<Rightarrow> go_error option) \<Rightarrow> node_call option" where
  "with_spec ctx f = map_option (\<lambda>spec. plain (f spec)) (PlatformSpec ctx)"

definition with_config :: "check_context \<Rightarrow> (vsphere_config \<Rightarrow> go_error option) \<Rightarrow> node_call option" where
  "with_config ctx f = map_option (\<lambda>cfg. plain (f cfg)) (VMConfig ctx)"

definition DefaultClusterChecks :: "default_env \<Rightarrow> check_context \<Rightarrow> (string \<times> node_call option) list" where
  "DefaultClusterChecks d ctx =
     [(''CheckTaskPermissions'', Some (plain (CheckTaskPermissions (df_task d) ctx))),
      (''ClusterInfo'', Some (fst (CollectClusterInfo (df_about d) ctx))),
      (''CheckFolderPermissions'',
         with_spec ctx (\<lambda>spec. fst (CheckFolderPermissions (df_folder d) ctx spec (df_caches d)))),
      (''CheckDefaultDatastore'', with_spec ctx (CheckDefaultDatastore (df_ds d) ctx)),
      (''CheckStorageClasses'',
         (case (VMConfig ctx, PlatformSpec ctx) of
            (Some cfg, Some spec) \<Rightarrow>
              Some (plain (fst (CheckStorageClasses (df_ds d) ctx cfg spec (df_infra d) (df_classes d) (df_order d))))
          | _ \<Rightarrow> None)),
      (''CountVolumeTypes'', Some (plain (fst (CountPVTypes (df_pvs d))))),
      (''CheckAccountPermissions'', with_spec ctx (CheckAccountPermissions (df_inventory d) ctx)),
      (''CheckZoneTags'', map_option plain (CheckZoneTags (df_tag d) ctx (df_infra d))),
      (''CheckHostGroups'', map_option plain (CheckHostGroups (df_tag d) ctx (df_infra d))),
      (''CheckInfraConfig'', with_config ctx (CheckInfraConfig (df_infra d))),
      (''CheckDatacenterConsistency'', with_config ctx (CheckDatacenterConsistency (df_infra d)))]"

definition DefaultNodeChecks ::
  "default_env \<Rightarrow> check_context \<Rightarrow> node \<Rightarrow> vm \<Rightarrow> (string \<times> node_call option) list" where
  "DefaultNodeChecks d ctx n v =
     [(''CheckNodeDiskUUID'', CheckNodeDiskUUID n v),
      (''CheckNodeProviderID'', Some (CheckNodeProviderID n v)),
      (''CollectNodeHWVersion'', CollectNodeHWVersion n v),
      (''CollectNodeESXiVersion'',
         Some (CollectNodeESXiVersion (df_host d) ctx (df_processed d n) n v)),
      (''CheckNodePerf'', Some (plain (fst (CheckNodeDiskPerf (df_perf d) ctx n v (df_counters d n))))),
      (''CheckComputeClusterPermissions'',
         map_option (\<lambda>r. plain (fst r)) (CheckComputeClusterPermissions (df_node_perm d) ctx n v (df_clusters d n))),
      (''CheckResourcePoolPermissions'',
         map_option (\<lambda>r. plain (fst r)) (CheckResourcePoolPermissions (df_node_perm d) ctx n v (df_pools d n))),
      (''CollectNodeCBT'', CollectNodeCBT n v)]"

text \<open>\<^verbatim>\<open>FinishCheck\<close> of the node checks. The five other checks have an empty \<^verbatim>\<open>FinishCheck\<close>.\<close>

definition FinishCheck :: "finish_orders \<Rightarrow> string \<Rightarrow> cluster_info \<Rightarrow> gauge list" where
  "FinishCheck orders name ci =
     (if name = ''CollectNodeHWVersion'' then finish_hw_versions ci (ord_hw orders ci)
      else if name = ''CollectNodeESXiVersion''
      then finish_esxi_versions ci (ord_hosts orders ci) (ord_versions orders ci)
      else if name = ''CollectNodeCBT'' then finish_cbt ci (ord_cbt orders ci)
      else [])"

definition finishNodeChecks :: "finish_orders \<Rightarrow> string list \<Rightarrow> cluster_info \<Rightarrow> gauge list" where
  "finishNodeChecks orders nodeChecks ci = concat (map (\<lambda>check. FinishCheck orders check ci) nodeChecks)"

definition cluster_check_names :: "string list" where
  "cluster_check_names = [''CheckTaskPermissions'', ''ClusterInfo'', ''CheckFolderPermissions'',
     ''CheckDefaultDatastore'', ''CheckStorageClasses'', ''CountVolumeTypes'', ''CheckAccountPermissions'',
     ''CheckZoneTags'', ''CheckHostGroups'', ''CheckInfraConfig'', ''CheckDatacenterConsistency'']"

definition node_check_names :: "string list" where
  "node_check_names = [''CheckNodeDiskUUID'', ''CheckNodeProviderID'', ''CollectNodeHWVersion'',
     ''CollectNodeESXiVersion'', ''CheckNodePerf'', ''CheckComputeClusterPermissions'',
     ''CheckResourcePoolPermissions'', ''CollectNodeCBT'']"

lemma cluster_check_names: "map fst (DefaultClusterChecks d ctx) = cluster_check_names"
  by (simp add: DefaultClusterChecks_def cluster_check_names_def)

lemma node_check_names: "map fst (DefaultNodeChecks d ctx n v) = node_check_names"
  by (simp add: DefaultNodeChecks_def node_check_names_def)

lemma names_distinct: "distinct cluster_check_names" "distinct node_check_names"
  "set cluster_check_names \<inter> set node_check_names = {}"
  by (simp_all add: cluster_check_names_def node_check_names_def)

section \<open>A round that runs them\<close>

definition runs_defaults :: "check_env \<Rightarrow> default_env \<Rightarrow> bool" where
  "runs_defaults env d \<longleftrightarrow>
     mset (chk_clusterChecks env) = mset cluster_check_names \<and> chk_nodeChecks env = node_check_names \<and>
     (\<forall>ctx ci. chk_Finish env ctx ci = finishNodeChecks (df_orders d) (chk_nodeChecks env) ci) \<and>
     (\<forall>ctx name call. round_context env = Some ctx \<and> (name, call) \<in> set (DefaultClusterChecks d ctx) \<longrightarrow>
        call = Some (chk_ClusterCheck env ctx name)) \<and>
     (\<forall>ctx nodes name n v call. round_context env = Some ctx \<and> chk_ListNodes env = Inr nodes \<and> n \<in> set nodes \<and>
        getVM env ctx n = Inr v \<and> (name, call) \<in> set (DefaultNodeChecks d ctx n v) \<longrightarrow>
        call = Some (chk_NodeCheck env ctx name n v))"

lemma default_cluster_passes:
  assumes "runs_defaults env d" "round_context env = Some ctx" "(name, call) \<in> set (DefaultClusterChecks d ctx)"
  shows "cluster_check_passes env ctx name \<longleftrightarrow> map_option fst call = Some None"
    "node_check_passes env ctx nodes name" "name \<in> reported_checks env nodes"
proof -
  have name: "name \<in> set cluster_check_names"
    using assms(3) unfolding cluster_check_names [of d ctx, symmetric] by force
  have "call = Some (chk_ClusterCheck env ctx name)" using assms unfolding runs_defaults_def by blast
  moreover have ran: "name \<in> set (chk_clusterChecks env)"
    using assms(1) name mset_eq_setD by (fastforce simp: runs_defaults_def)
  ultimately show "cluster_check_passes env ctx name \<longleftrightarrow> map_option fst call = Some None"
    by (simp add: cluster_check_passes_def)
  have "name \<notin> set (chk_nodeChecks env)" using assms(1) name names_distinct(3) by (auto simp: runs_defaults_def)
  then show "node_check_passes env ctx nodes name" by (simp add: node_check_passes_def)
  show "name \<in> reported_checks env nodes" using ran by (simp add: reported_checks_def)
qed

text \<open>The context of a round always has a platform specification.\<close>

lemma round_context_spec: "round_context env = Some ctx \<Longrightarrow> \<exists>spec. PlatformSpec ctx = Some spec"
  by (auto simp: round_context_def ConvertToPlatformSpec_def split: sum.splits option.splits prod.splits)

text \<open>Its vCenters are the ones connected, each under its own name.\<close>

lemma user_loop_wf:
  assumes "user_loop env vcs = Some (Inr vcs')" "\<forall>(name, vc) \<in> set vcs. VCenterName vc = name"
  shows "map fst vcs' = map fst vcs \<and> (\<forall>(name, vc) \<in> set vcs'. VCenterName vc = name)"
  using assms
proof (induction vcs arbitrary: vcs')
  case (Cons x vcs)
  obtain name vc where x: "x = (name, vc)" by (cases x)
  obtain user rest where "user_loop env vcs = Some (Inr rest)" "vcs' = (name, vc\<lparr>Username := user\<rparr>) # rest"
    using Cons.prems(1) unfolding x by (auto split: sum.splits option.splits)
  with Cons.IH [of rest] Cons.prems(2) show ?case by (auto simp: x)
qed simp

lemma ConvertToPlatformSpec_VCenters: "VCenters (ConvertToPlatformSpec infra ctx) = VCenters ctx"
  by (simp add: ConvertToPlatformSpec_def Let_def split: option.split)

lemma round_context_wf:
  assumes "round_context env = Some ctx"
  shows "wf_context ctx"
proof -
  obtain ctx0 ops gs vcs infra where c: "connect (chk_connect env) = (Inr ctx0, ops, gs)"
    and u: "user_loop env (VCenters ctx0) = Some (Inr vcs)"
    and ctx: "ctx = ConvertToPlatformSpec infra (ctx0\<lparr>VCenters := vcs\<rparr>)"
    using assms by (auto simp: round_context_def split: sum.splits option.splits prod.splits)
  obtain data cfg cfg' where "connect_loop (chk_connect env) (map snd (VirtualCenter cfg)) cfg []
      = (Inr (cfg', VCenters ctx0), ops, gs)"
    using c by (auto simp: connect_def split: sum.splits prod.splits)
  note L = connect_loop_Inr [OF this]
  then have names: "\<forall>(name, vc) \<in> set (VCenters ctx0). VCenterName vc = name"
    and distinct: "distinct (map fst (VCenters ctx0))" by simp_all
  show ?thesis
    using user_loop_wf [OF u names] distinct
    unfolding wf_context_def ctx ConvertToPlatformSpec_VCenters by simp
qed

lemma with_spec_passes:
  "PlatformSpec ctx = Some spec \<Longrightarrow> map_option fst (with_spec ctx f) = Some None \<longleftrightarrow> f spec = None"
  by (simp add: with_spec_def plain_def)

lemma with_config_passes:
  "VMConfig ctx = Some cfg \<Longrightarrow> map_option fst (with_config ctx f) = Some None \<longleftrightarrow> f cfg = None"
  by (simp add: with_config_def plain_def)

lemma map_plain_passes: "map_option fst (map_option plain r) = Some None \<longleftrightarrow> r = Some None"
  by (cases r) (simp_all add: plain_def)

section \<open>Checks that panic\<close>

text \<open>
  A VM whose configuration vCenter cannot give ends the process: the first node check follows
  the pointer without a test, so the job of the node panics before it has reported anything, and
  so would the checks of the hardware version and of change block tracking.
\<close>

theorem missing_config_panics:
  assumes "vm_Config v = None"
  shows "hd (DefaultNodeChecks d ctx n v) = (''CheckNodeDiskUUID'', None) \<and>
    (''CollectNodeHWVersion'', None) \<in> set (DefaultNodeChecks d ctx n v) \<and>
    (''CollectNodeCBT'', None) \<in> set (DefaultNodeChecks d ctx n v)"
  using assms
  by (simp add: DefaultNodeChecks_def CheckNodeDiskUUID_def CollectNodeHWVersion_def CollectNodeCBT_def)

theorem missing_config_panics_witness:
  "\<forall>d ctx n. hd (DefaultNodeChecks d ctx n (sample_vm\<lparr>vm_Config := None\<rparr>)) = (''CheckNodeDiskUUID'', None)"
  using missing_config_panics [of "sample_vm\<lparr>vm_Config := None\<rparr>"] by simp

section \<open>An environment that runs them\<close>

definition call_of :: "(string \<times> node_call option) list \<Rightarrow> string \<Rightarrow> node_call" where
  "call_of table name = (case map_of table name of Some (Some call) \<Rightarrow> call | _ \<Rightarrow> plain None)"

definition with_defaults :: "default_env \<Rightarrow> check_env \<Rightarrow> check_env" where
  "with_defaults d env = env\<lparr>chk_clusterChecks := cluster_check_names, chk_nodeChecks := node_check_names,
     chk_ClusterCheck := \<lambda>ctx. call_of (DefaultClusterChecks d ctx),
     chk_NodeCheck := \<lambda>ctx name n v. call_of (DefaultNodeChecks d ctx n v) name,
     chk_Finish := \<lambda>ctx. finishNodeChecks (df_orders d) node_check_names\<rparr>"

definition never_panics :: "default_env \<Rightarrow> check_env \<Rightarrow> check_context \<Rightarrow> bool" where
  "never_panics d env ctx \<longleftrightarrow> None \<notin> snd ` set (DefaultClusterChecks d ctx) \<and>
     (\<forall>nodes n v. chk_ListNodes env = Inr nodes \<and> n \<in> set nodes \<and> getVM env ctx n = Inr v \<longrightarrow>
        None \<notin> snd ` set (DefaultNodeChecks d ctx n v))"

lemma call_of_table:
  assumes "distinct (map fst table)" "None \<notin> snd ` set table" "(name, call) \<in> set table"
  shows "call = Some (call_of table name)"
proof -
  have "map_of table name = Some call" using assms(1,3) by simp
  moreover have "call \<noteq> None"
  proof
    assume "call = None"
    then have "None \<in> snd ` set table" using assms(3) by (metis image_eqI snd_conv)
    then show False using assms(2) by contradiction
  qed
  ultimately show ?thesis by (cases call) (simp_all add: call_of_def)
qed

lemma with_defaults_lists:
  "chk_clusterChecks (with_defaults d env) = cluster_check_names"
  "chk_nodeChecks (with_defaults d env) = node_check_names"
  by (simp_all add: with_defaults_def)

lemma with_defaults_fields:
  "chk_connect (with_defaults d env) = chk_connect env"
  "chk_UserSession (with_defaults d env) = chk_UserSession env"
  "chk_GetInfrastructure (with_defaults d env) = chk_GetInfrastructure env"
  "chk_ListNodes (with_defaults d env) = chk_ListNodes env"
  "chk_FindByUuid (with_defaults d env) = chk_FindByUuid env"
  "chk_Properties (with_defaults d env) = chk_Properties env"
  "chk_schedule (with_defaults d env) = chk_schedule env"
  "chk_Wait (with_defaults d env) = chk_Wait env"
  "chk_Logout (with_defaults d env) = chk_Logout env"
  by (simp_all add: with_defaults_def)

lemma with_defaults_round_context: "round_context (with_defaults d env) = round_context env"
  by (rule round_context_cong) (rule with_defaults_fields)+

lemma with_defaults_getVM: "getVM (with_defaults d env) = getVM env"
  by (intro ext) (simp only: getVM_def with_defaults_fields)

lemma with_defaults_runs:
  assumes "round_context env = Some ctx" "never_panics d env ctx"
  shows "runs_defaults (with_defaults d env) d"
proof -
  have lists: "chk_clusterChecks (with_defaults d env) = cluster_check_names"
    "chk_nodeChecks (with_defaults d env) = node_check_names"
    "chk_ClusterCheck (with_defaults d env) c = call_of (DefaultClusterChecks d c)"
    "chk_NodeCheck (with_defaults d env) c name n v = call_of (DefaultNodeChecks d c n v) name"
    "chk_Finish (with_defaults d env) c ci = finishNodeChecks (df_orders d) node_check_names ci" for c name n v ci
    by (simp_all add: with_defaults_def)
  have d: "distinct (map fst (DefaultClusterChecks d c))" "distinct (map fst (DefaultNodeChecks d c n v))" for c n v
    unfolding cluster_check_names node_check_names using names_distinct by simp_all
  have cluster: "call = Some (call_of (DefaultClusterChecks d c) name)"
    if "round_context env = Some c" "(name, call) \<in> set (DefaultClusterChecks d c)" for c name call
    using call_of_table [OF d(1) _ that(2)] assms that(1) by (simp add: never_panics_def)
  have node: "call = Some (call_of (DefaultNodeChecks d c n v) name)"
    if "round_context env = Some c" "chk_ListNodes env = Inr nodes" "n \<in> set nodes" "getVM env c n = Inr v"
      "(name, call) \<in> set (DefaultNodeChecks d c n v)"
    for c nodes name n v call
    using call_of_table [OF d(2) _ that(5)] assms that(1-4) by (simp add: never_panics_def)
  show ?thesis
    unfolding runs_defaults_def lists with_defaults_round_context with_defaults_getVM with_defaults_fields
    using cluster node by blast
qed

text \<open>
  A cluster with two vSphere nodes whose VMs run on one ESXi host, and a node of another platform.
  The call for the first node claims the host, that for the second one finds it claimed.
\<close>

definition second_node :: node where
  "second_node = \<lparr>node_Name = ''n3'', Labels = Map.empty, ProviderID = ''vsphere://DEF''\<rparr>"

definition shared_env :: check_env where
  "shared_env = sample_env\<lparr>chk_ListNodes := Inr [vsphere_node, second_node, metal_node],
     chk_FindByUuid := (\<lambda>_ uuid. Inr (if uuid = ''abc'' \<or> uuid = ''def'' then Some uuid else None))\<rparr>"

lemma shared_fields:
  "chk_ListNodes shared_env = Inr [vsphere_node, second_node, metal_node]"
  "chk_FindByUuid shared_env = (\<lambda>_ uuid. Inr (if uuid = ''abc'' \<or> uuid = ''def'' then Some uuid else None))"
  "chk_Properties shared_env = (\<lambda>_ _. Inr sample_vm)" "chk_schedule shared_env = concat" "chk_Wait shared_env = None"
  by (simp_all add: shared_env_def sample_env_def)

lemma shared_round_context: "round_context shared_env = round_context sample_env"
  by (rule round_context_cong) (simp_all add: shared_env_def)

definition default_sample :: default_env where
  "default_sample = \<lparr>df_infra = Inr sample_infrastructure, df_classes = Inr [], df_pvs = Inr [],
     df_task = \<lparr>ta_CreateTaskView = \<lambda>_. None, ta_Collect = \<lambda>_. Inr []\<rparr>, df_about = about_sample,
     df_folder = folder_sample, df_caches = \<lambda>_. NewCheckCache, df_ds = broken_ds_env, df_order = [],
     df_inventory = \<lparr>inv_auth = \<lambda>_ _ _. Inr [], inv_datacenter = \<lambda>_ dc. Inr dc,
       inv_datastore = \<lambda>_ ds _. Inr ds, inv_folder = \<lambda>_ f. Inr f\<rparr>,
     df_tag = tagged_env, df_host = \<lambda>_ _. Inr (Some (''8.0.2'', ''8.0.2.0'')), 
     df_processed = \<lambda>n. node_Name n \<noteq> ''n1'',
     df_perf = slow_disk_env, df_counters = \<lambda>_. Map.empty, df_node_perm = twin_env,
     df_clusters = \<lambda>n. if node_Name n = ''n1'' then StartCheck_clusters
       else [''cluster'' \<mapsto> \<lparr>cl_Name = ''cluster'', cl_Ref = ''c''\<rparr>], df_pools = \<lambda>_. StartCheck_pools,
     df_orders = \<lparr>ord_hw = \<lambda>_. [''vmx-15''], ord_hosts = \<lambda>_. [], ord_versions = \<lambda>_. [], ord_cbt = \<lambda>_. []\<rparr>\<rparr>"

lemma sample_context_facts:
  assumes "round_context sample_env = Some ctx"
  shows "wf_context ctx" "\<exists>cfg. VMConfig ctx = Some cfg"
    "\<exists>spec. PlatformSpec ctx = Some spec \<and> (\<exists>fd. FailureDomains spec = [fd])"
  using assms sample_connect
  by (auto simp: round_context_def sample_env_def ConvertToPlatformSpec_def wf_context_def
      platform_spec_of_def sample_infrastructure_def empty_spec_def convertIntreeToPlatformSpec_def
      addFailureDomainsToPlatformSpec_def sample_legacy_def)

lemma sample_config_facts:
  assumes "round_context sample_env = Some ctx"
  shows "\<exists>cfg. VMConfig ctx = Some cfg \<and> map fst (VirtualCenter cfg) = [''vc1'']"
    "map fst (VCenters ctx) = [''vc1'']"
  using assms sample_connect sample_round_context
  by (auto simp: round_context_def sample_env_def ConvertToPlatformSpec_def sample_config_def)

lemma sample_vm_found: "getVM shared_env ctx n = Inr v \<Longrightarrow> v = sample_vm"
  by (auto simp: getVM_def shared_fields split: if_splits sum.splits option.splits)

text \<open>The tag checks read the resource and the tags; with other answers nothing else changes.\<close>

lemma sample_never_panics:
  assumes "round_context sample_env = Some ctx"
    and "CheckZoneTags t ctx i \<noteq> None" "CheckHostGroups t ctx i \<noteq> None"
  shows "never_panics (default_sample\<lparr>df_infra := i, df_tag := t\<rparr>) shared_env ctx"
proof -
  let ?d = "default_sample\<lparr>df_infra := i, df_tag := t\<rparr>"
  obtain cfg spec where cfg: "VMConfig ctx = Some cfg" and spec: "PlatformSpec ctx = Some spec"
    using sample_context_facts [OF assms(1)] by blast
  obtain z h where zone: "CheckZoneTags t ctx i = Some z" "CheckHostGroups t ctx i = Some h"
    using assms(2,3) by blast
  have cluster: "None \<notin> snd ` set (DefaultClusterChecks ?d ctx)"
    unfolding DefaultClusterChecks_def by (simp add: cfg spec zone with_spec_def with_config_def)
  have node: "None \<notin> snd ` set (DefaultNodeChecks ?d ctx n sample_vm)" for n
  proof -
    have perm: "CheckComputeClusterPermissions (df_node_perm default_sample) ctx n sample_vm seen \<noteq> None" for seen
      using twin_call_returns [OF cfg, of sample_vm] by (simp add: default_sample_def sample_vm_def)
    have pool: "CheckResourcePoolPermissions (df_node_perm default_sample) ctx n sample_vm seen \<noteq> None" for seen
      by (simp add: CheckResourcePoolPermissions_def sample_vm_def split: sum.split)
    show ?thesis unfolding DefaultNodeChecks_def using perm pool
      by (simp add: CheckNodeDiskUUID_def CollectNodeHWVersion_def CollectNodeCBT_def sample_vm_def)
  qed
  show ?thesis unfolding never_panics_def using cluster node sample_vm_found by blast
qed

lemma default_sample_never_panics:
  assumes "round_context sample_env = Some ctx"
  shows "never_panics default_sample shared_env ctx"
proof -
  have infra: "df_infra default_sample = Inr sample_infrastructure" "spec_VSphere sample_infrastructure = None"
    by (simp_all add: default_sample_def sample_infrastructure_def)
  have same: "default_sample\<lparr>df_infra := df_infra default_sample, df_tag := df_tag default_sample\<rparr> = default_sample"
    by simp
  have "CheckZoneTags (df_tag default_sample) ctx (df_infra default_sample) \<noteq> None"
    "CheckHostGroups (df_tag default_sample) ctx (df_infra default_sample) \<noteq> None"
    unfolding infra(1) by (simp_all add: CheckZoneTags_def CheckHostGroups_def infra(2))
  from sample_never_panics [OF assms this] show ?thesis unfolding same .
qed

text \<open>Rounds of the default checks that complete.\<close>

lemma sample_scheduler_ok: "scheduler_ok (with_defaults d shared_env)"
  by (rule sequential_scheduler) (simp only: with_defaults_fields shared_fields)

lemma sample_defaults_nodes:
  "chk_ListNodes (with_defaults d shared_env) = Inr [vsphere_node, second_node, metal_node]"
  unfolding with_defaults_fields by (rule shared_fields)

lemma sample_defaults_end: "\<exists>rc. end_result (checker_runChecks (with_defaults d shared_env) ci) = Some (Inr rc)"
proof -
  obtain ctx where "round_context sample_env = Some ctx" using sample_round_context by blast
  then have ctx: "round_context (with_defaults d shared_env) = Some ctx"
    unfolding with_defaults_round_context shared_round_context .
  have "chk_Wait (with_defaults d shared_env) = None" unfolding with_defaults_fields by (rule shared_fields)
  from round_ends [OF ctx sample_defaults_nodes this] show ?thesis .
qed

abbreviation default_round_env :: check_env where
  "default_round_env \<equiv> with_defaults default_sample shared_env"

end
