(* ===== verification/RoundMetrics.thy ===== *)
theory RoundMetrics
  imports DefaultChecks
begin

text \<open>
  What a Prometheus scrape shows after a round of the default checks: the calls of
  \<^verbatim>\<open>FinishCheck\<close> by \<^verbatim>\<open>finishNodeChecks\<close> (pkg/operator/vsphere_check.go), which turn what
  the node checks left in \<^verbatim>\<open>ClusterInfo\<close> into metrics, and the way of these metrics through the
  collector of pkg/metrics. This joins four components: the jobs of the pool, \<^verbatim>\<open>ClusterInfo\<close>,
  the node checks and the collector.
\<close>

section \<open>The gauges of finishNodeChecks\<close>

lemma finished_gauges:
  "finishNodeChecks orders node_check_names ci =
     finish_hw_versions ci (ord_hw orders ci) @
     finish_esxi_versions ci (ord_hosts orders ci) (ord_versions orders ci) @ finish_cbt ci (ord_cbt orders ci)"
  by (simp add: finishNodeChecks_def node_check_names_def FinishCheck_def)

lemma hw_gauge_iff:
  assumes "iteration_of (hwVersions ci) (ord_hw orders ci)"
  shows "\<lparr>g_name = ''vsphere_node_hw_version_total'', g_labels = [x], g_value = k\<rparr>
      \<in> set (finishNodeChecks orders node_check_names ci) \<longleftrightarrow> hwVersions ci x = Some k"
proof -
  have "\<lparr>g_name = ''vsphere_node_hw_version_total'', g_labels = [x], g_value = k\<rparr>
      \<notin> set (finish_esxi_versions ci hosts versions) \<union> set (finish_cbt ci order)" for hosts versions order
    by (auto simp: finish_esxi_versions_def finish_cbt_def)
  moreover have "\<lparr>g_name = ''vsphere_node_hw_version_total'', g_labels = [x], g_value = k\<rparr>
      \<in> set (finish_hw_versions ci (ord_hw orders ci)) \<longleftrightarrow> hwVersions ci x = Some k"
    using set_range_map [OF assms] by (force simp: finish_hw_versions_def GetHardwareVersion_def)
  ultimately show ?thesis unfolding finished_gauges by auto
qed

section \<open>The operations of a round on ClusterInfo\<close>

lemma mset_trace_info:
  "mset xs = mset ys \<Longrightarrow> mset (trace_info xs) = mset (trace_info ys)"
proof -
  have "mset (trace_info zs) = (\<Sum>e \<in># mset zs. case e of EvInfo x \<Rightarrow> {#x#} | _ \<Rightarrow> {#})" for zs
    by (induction zs) (auto simp: trace_info_def split: job_event.splits)
  then show "mset xs = mset ys \<Longrightarrow> mset (trace_info xs) = mset (trace_info ys)" by simp
qed

lemma trace_info_simps [simp]:
  "trace_info [] = []"
  "trace_info (xs @ ys) = trace_info xs @ trace_info ys"
  "trace_info (EvResult r # xs) = trace_info xs"
  "trace_info (EvGauge m ls v # xs) = trace_info xs"
  "trace_info (EvInc m ls # xs) = trace_info xs"
  "trace_info (map EvInfo ops) = ops"
  by (simp_all add: trace_info_def comp_def)

lemma trace_info_concat: "trace_info (concat xss) = concat (map trace_info xss)"
  by (induction xss) auto

text \<open>The operations a job makes.\<close>

fun job_info :: "check_env \<Rightarrow> check_context \<Rightarrow> job \<Rightarrow> info_op list" where
  "job_info env ctx (ClusterJob name) = snd (chk_ClusterCheck env ctx name)"
| "job_info env ctx (NodeJob n) =
     (case getVM env ctx n of
        Inl err \<Rightarrow> []
      | Inr v \<Rightarrow> concat (map (\<lambda>name. snd (chk_NodeCheck env ctx name n v)) (chk_nodeChecks env)))"

lemma trace_info_run_job: "trace_info (run_job env ctx j) = job_info env ctx j"
proof (cases j)
  case (ClusterJob name)
  then show ?thesis by (simp add: runSingleClusterCheck_def split: prod.splits)
next
  case (NodeJob n)
  have failed: "trace_info (map (\<lambda>name. EvResult \<lparr>res_Name = name, res_Error = e\<rparr>) names) = []" for names e
    by (induction names) auto
  have "trace_info (runSingleNodeSingleCheck env ctx n v name) = snd (chk_NodeCheck env ctx name n v)" for v name
    by (simp add: runSingleNodeSingleCheck_def split: prod.splits)
  then have "trace_info (concat (map (runSingleNodeSingleCheck env ctx n v) names))
      = concat (map (\<lambda>name. snd (chk_NodeCheck env ctx name n v)) names)" for v names
    by (induction names) simp_all
  with NodeJob failed show ?thesis by (simp split: sum.split)
qed

lemma mset_round_info:
  assumes "tr \<in> interleavings (map (run_job env ctx) jobs)"
  shows "mset (trace_info tr) = mset (concat (map (job_info env ctx) jobs))"
  using mset_trace_info [OF interleavings_mset [OF assms]]
  by (simp add: trace_info_concat comp_def trace_info_run_job)

section \<open>The default checks on ClusterInfo\<close>

lemma CollectClusterInfo_ops:
  "fst (CollectClusterInfo about ctx) = (None, map (\<lambda>vc. OpSetVCenter (VCenterName vc)
     (about_Version (about vc)) (about_ApiVersion (about vc))) (map snd (VCenters ctx)))"
  using vcenter_info_ops [of about "map snd (VCenters ctx)"]
  by (simp add: CollectClusterInfo_def collectVCenterInfo_def case_prod_beta)

lemma default_cluster_info:
  assumes "runs_defaults env d" "round_context env = Some ctx" "name \<in> set (chk_clusterChecks env)"
  shows "\<forall>x \<in> set (snd (chk_ClusterCheck env ctx name)). \<exists>h v a. x = OpSetVCenter h v a"
proof -
  have "name \<in> set cluster_check_names"
    using assms(1,3) mset_eq_setD by (fastforce simp: runs_defaults_def)
  then obtain call where call: "(name, call) \<in> set (DefaultClusterChecks d ctx)"
    unfolding cluster_check_names [of d ctx, symmetric] by force
  then have "call = Some (chk_ClusterCheck env ctx name)" using assms(1,2) unfolding runs_defaults_def by blast
  moreover have "\<forall>(name, call) \<in> set (DefaultClusterChecks d ctx).
      \<forall>c. call = Some c \<longrightarrow> (\<forall>x \<in> set (snd c). \<exists>h v a. x = OpSetVCenter h v a)"
    unfolding DefaultClusterChecks_def CollectClusterInfo_ops
    by (auto simp: plain_def with_spec_def with_config_def split: option.splits)
  ultimately show ?thesis using call by blast
qed

lemma default_node_ops:
  assumes "runs_defaults env d" "round_context env = Some ctx" "getVM env ctx n = Inr v"
    and "chk_ListNodes env = Inr nodes" "n \<in> set nodes"
  shows "\<exists>config. vm_Config v = Some config \<and> job_info env ctx (NodeJob n) = OpSetHW (Config_Version config) #
      snd (CollectNodeESXiVersion (df_host d) ctx (df_processed d n) n v) @ cbt_loop (ExtraConfig config)"
proof -
  have calls: "call = Some (chk_NodeCheck env ctx name n v)"
    if "(name, call) \<in> set (DefaultNodeChecks d ctx n v)" for name call
    using assms that unfolding runs_defaults_def by blast
  have "map (\<lambda>name. snd (chk_NodeCheck env ctx name n v)) node_check_names =
      map (\<lambda>(name, call). snd (the call)) (DefaultNodeChecks d ctx n v)"
    unfolding node_check_names [of d ctx n v, symmetric] list.map_comp
  proof (rule map_cong [OF refl])
    fix entry
    assume entry: "entry \<in> set (DefaultNodeChecks d ctx n v)"
    have "snd entry = Some (chk_NodeCheck env ctx (fst entry) n v)"
      by (rule calls) (simp add: entry)
    then show "((\<lambda>name. snd (chk_NodeCheck env ctx name n v)) \<circ> fst) entry =
        (case entry of (name, call) \<Rightarrow> snd (the call))"
      by (simp add: case_prod_beta)
  qed
  then have info: "job_info env ctx (NodeJob n) =
      concat (map (\<lambda>(name, call). snd (the call)) (DefaultNodeChecks d ctx n v))"
    using assms(1,3) by (simp add: runs_defaults_def)
  have some: "call \<noteq> None" if "(name, call) \<in> set (DefaultNodeChecks d ctx n v)" for name call
    using calls [OF that] by simp
  obtain config where config: "vm_Config v = Some config"
    using some [of "''CollectNodeHWVersion''" "CollectNodeHWVersion n v"]
    by (auto simp: DefaultNodeChecks_def CollectNodeHWVersion_def)
  have plain_call: "snd (the (map_option (\<lambda>r. plain (fst r)) X)) = []"
    if "map_option (\<lambda>r. plain (fst r)) X \<noteq> None" for X :: "(go_error option \<times> 'x) option"
    using that by (cases X) (simp_all add: plain_def)
  have cluster: "snd (the (map_option (\<lambda>r. plain (fst r))
      (CheckComputeClusterPermissions (df_node_perm d) ctx n v (df_clusters d n)))) = []"
    by (rule plain_call, rule some [of "''CheckComputeClusterPermissions''"]) (simp add: DefaultNodeChecks_def)
  have pool: "snd (the (map_option (\<lambda>r. plain (fst r))
      (CheckResourcePoolPermissions (df_node_perm d) ctx n v (df_pools d n)))) = []"
    by (rule plain_call, rule some [of "''CheckResourcePoolPermissions''"]) (simp add: DefaultNodeChecks_def)
  have "job_info env ctx (NodeJob n) = OpSetHW (Config_Version config) #
      snd (CollectNodeESXiVersion (df_host d) ctx (df_processed d n) n v) @ cbt_loop (ExtraConfig config)"
    unfolding info DefaultNodeChecks_def list.map concat.simps prod.case cluster pool
    by (simp add: config CheckNodeDiskUUID_def CheckNodeProviderID_def CollectNodeHWVersion_def
        CollectNodeCBT_def plain_def split: option.split)
  with config show ?thesis by blast
qed

lemma default_node_info:
  assumes "runs_defaults env d" "round_context env = Some ctx" "getVM env ctx n = Inr v"
    and "chk_ListNodes env = Inr nodes" "n \<in> set nodes"
  shows "count_list (job_info env ctx (NodeJob n)) (OpSetHW x) = (if hw_version v = Some x then 1 else 0)"
    "OpReset \<notin> set (job_info env ctx (NodeJob n))"
proof -
  obtain config where config: "vm_Config v = Some config" and ops: "job_info env ctx (NodeJob n) =
      OpSetHW (Config_Version config) # snd (CollectNodeESXiVersion (df_host d) ctx (df_processed d n) n v)
      @ cbt_loop (ExtraConfig config)"
    using default_node_ops [OF assms] by blast
  have other: "OpSetHW y \<notin> set (snd (CollectNodeESXiVersion h ctx b n v))"
    "OpReset \<notin> set (snd (CollectNodeESXiVersion h ctx b n v))" for h b y
    by (auto simp: CollectNodeESXiVersion_def split: option.splits sum.splits)
  show "count_list (job_info env ctx (NodeJob n)) (OpSetHW x) = (if hw_version v = Some x then 1 else 0)"
    unfolding ops using other(1) by (simp add: cbt_loop_single hw_version_def config count_list_append count_list_0_iff)
  show "OpReset \<notin> set (job_info env ctx (NodeJob n))"
    unfolding ops using other(2) by (simp add: cbt_loop_single)
qed

text \<open>The vSphere nodes whose VM was found and has the hardware version \<open>x\<close>.\<close>

definition nodes_of_version :: "check_env \<Rightarrow> check_context \<Rightarrow> node list \<Rightarrow> string \<Rightarrow> node list" where
  "nodes_of_version env ctx nodes x = filter (\<lambda>n. isVSphereNode n \<and>
     (case getVM env ctx n of Inl err \<Rightarrow> False | Inr v \<Rightarrow> hw_version v = Some x)) nodes"

lemma round_info_counts:
  assumes "runs_defaults env d" "round_context env = Some ctx"
    and "tr \<in> interleavings (map (run_job env ctx) (round_jobs env nodes))"
    and listed: "chk_ListNodes env = Inr nodes"
  shows "count_list (trace_info tr) (OpSetHW x) = length (nodes_of_version env ctx nodes x)"
    "OpReset \<notin> set (trace_info tr)"
proof -
  note M = mset_round_info [OF assms(3)]
  have cluster: "count_list (concat (map (job_info env ctx \<circ> ClusterJob) names)) (OpSetHW x) = 0"
    "OpReset \<notin> set (concat (map (job_info env ctx \<circ> ClusterJob) names))"
    if "set names \<subseteq> set (chk_clusterChecks env)" for names
    using that default_cluster_info [OF assms(1,2)]
    by (induction names) (fastforce simp: count_list_append count_list_0_iff)+
  have job: "count_list (job_info env ctx (NodeJob n)) (OpSetHW x) =
      (if \<exists>v. getVM env ctx n = Inr v \<and> hw_version v = Some x then 1 else 0)"
    "OpReset \<notin> set (job_info env ctx (NodeJob n))" if "n \<in> set nodes" for n
    using default_node_info [OF assms(1,2) _ listed that] by (cases "getVM env ctx n"; simp)+
  have node: "count_list (concat (map (job_info env ctx \<circ> NodeJob) (filter isVSphereNode ns))) (OpSetHW x) =
      length (nodes_of_version env ctx ns x)" if "set ns \<subseteq> set nodes" for ns
    using that by (induction ns) (auto simp: nodes_of_version_def count_list_append job(1) simp del: job_info.simps
        split: sum.splits)
  have "count_list (trace_info tr) (OpSetHW x) =
      count_list (concat (map (job_info env ctx) (round_jobs env nodes))) (OpSetHW x)"
    by (simp only: count_list_mset M)
  also have "\<dots> = length (nodes_of_version env ctx nodes x)"
    using cluster(1) [of "chk_clusterChecks env"] node [OF order.refl]
    by (simp add: round_jobs_def count_list_append comp_def)
  finally show "count_list (trace_info tr) (OpSetHW x) = length (nodes_of_version env ctx nodes x)" .
  have "set (trace_info tr) = set (concat (map (job_info env ctx) (round_jobs env nodes)))"
    using M by (rule mset_eq_setD)
  then show "OpReset \<notin> set (trace_info tr)"
    using cluster(2) [of "chk_clusterChecks env"] job(2) by (auto simp: round_jobs_def)
qed

section \<open>The scrape after a round\<close>

lemma published_round:
  "published (rev ([CallStart] @ map CallAdd ms @ [CallFinish]) @ past) = ms"
proof -
  have "round_of (rev (map CallAdd ms) @ CallStart # past) = ms"
    by (induction ms rule: rev_induct) simp_all
  then show ?thesis by simp
qed

lemma scrape_after_round:
  assumes "end_result (checker_runChecks env ci) = Some (Inr rc)" "round_context env = Some ctx"
  shows "CollectWithStability (collector_run (before @ end_collector (checker_runChecks env ci))
      NewMetricsCollector) = chk_Finish env ctx (end_info (checker_runChecks env ci))"
proof -
  obtain ops where run: "checker_runChecks env ci = run_jobs env ctx ci ops"
    using successful_start [OF assms(1)] assms(2) by auto
  obtain tr where "end_info (run_jobs env ctx ci ops) = info_run (trace_info tr) ci"
    "end_collector (run_jobs env ctx ci ops) =
      [CallStart] @ map CallAdd (chk_Finish env ctx (info_run (trace_info tr) ci)) @ [CallFinish]"
    using run_jobs_successful [of env ctx ci ops rc] assms(1) unfolding run by blast
  moreover have "CollectWithStability (collector_run calls NewMetricsCollector) = published (rev calls)"
    for calls :: "gauge collector_call list"
    by (simp add: CollectWithStability_def collector_run_round)
  ultimately show ?thesis unfolding run by (simp only: rev_append [of before] published_round)
qed

text \<open>
  C11: From the VMs to Prometheus. After a completed round of the default checks in which no check
  panics, for every interleaving of its jobs and whatever the collector held before, a scrape shows
  the hardware version metric with the label \<open>x\<close> and the value \<open>k\<close> exactly when \<open>k\<close> is the number
  of vSphere nodes whose VM was found and has that version, and there is such a node.
\<close>

theorem scraped_hw_versions:
  assumes "runs_defaults env d" "scheduler_ok env"
    and "end_result (checker_runChecks env NewClusterInfo) = Some (Inr rc)"
    and "round_context env = Some ctx" "chk_ListNodes env = Inr nodes"
    and "ci = end_info (checker_runChecks env NewClusterInfo)"
    and "iteration_of (hwVersions ci) (ord_hw (df_orders d) ci)"
  shows "\<lparr>g_name = ''vsphere_node_hw_version_total'', g_labels = [x], g_value = k\<rparr>
      \<in> set (CollectWithStability (collector_run
          (before @ end_collector (checker_runChecks env NewClusterInfo)) NewMetricsCollector)) \<longleftrightarrow>
    k = length (nodes_of_version env ctx nodes x) \<and> 0 < k"
proof -
  obtain tr where tr: "tr \<in> interleavings (map (run_job env ctx) (round_jobs env nodes))"
    and ci: "ci = info_run (trace_info tr) NewClusterInfo"
    using successful_round [OF assms(3,2)] assms(4-6) by auto
  note counts = round_info_counts [OF assms(1,4) tr assms(5)]
  note hw = hwVersions_run [OF counts(2), of NewClusterInfo, folded ci]
  have "hwVersions ci x = Some k \<longleftrightarrow> x \<in> dom (hwVersions ci) \<and> k = map_count (hwVersions ci) x"
    by (auto simp: map_count_def)
  also have "\<dots> \<longleftrightarrow> k = length (nodes_of_version env ctx nodes x) \<and> 0 < k"
    using hw(1) [of x] hw(2) counts(1) [of x] count_list_0_iff [of "trace_info tr" "OpSetHW x"] by auto
  finally show ?thesis
    using hw_gauge_iff [OF assms(7), of x k] assms(1)
    unfolding scrape_after_round [OF assms(3,4)] assms(6) [symmetric] by (simp add: runs_defaults_def)
qed

lemma sample_node_vm:
  assumes "round_context sample_env = Some ctx"
  shows "getVM shared_env ctx vsphere_node = Inr sample_vm" "getVM shared_env ctx second_node = Inr sample_vm"
proof -
  have vc: "\<exists>vc. GetVCenter ctx n = Inr vc" if "Labels n = Map.empty" for n
    using assms sample_connect that
    by (auto simp: round_context_def sample_env_def ConvertToPlatformSpec_def GetVCenter_def Let_def
      node_region_def node_zone_def label_def first_domain_def vcenter_at_def
      platform_spec_of_def sample_infrastructure_def empty_spec_def convertIntreeToPlatformSpec_def
      addFailureDomainsToPlatformSpec_def sample_legacy_def)
  have uuid: "vm_uuid vsphere_node = ''abc''" "vm_uuid second_node = ''def''"
    by (simp_all add: vm_uuid_def vsphere_node_def second_node_def trim_prefix_def go_simps to_lower_def
        lower_char_def char_of_def bit_Suc_0_iff)
  have provider: "isVSphereNode vsphere_node" "isVSphereNode second_node"
    by (simp_all add: isVSphereNode_def vsphere_node_def second_node_def)
  have labels: "Labels vsphere_node = Map.empty" "Labels second_node = Map.empty"
    by (simp_all add: vsphere_node_def second_node_def)
  show "getVM shared_env ctx vsphere_node = Inr sample_vm" "getVM shared_env ctx second_node = Inr sample_vm"
    using vc [OF labels(1)] vc [OF labels(2)] by (auto simp: getVM_def shared_fields provider uuid)
qed

lemma sample_versions:
  assumes "round_context sample_env = Some ctx"
  shows "nodes_of_version default_round_env ctx [vsphere_node, second_node, metal_node] x =
    (if x = ''vmx-15'' then [vsphere_node, second_node] else [])"
proof -
  have "hw_version sample_vm = Some ''vmx-15''" by (simp add: hw_version_def sample_vm_def)
  moreover have "isVSphereNode vsphere_node" "isVSphereNode second_node" "\<not> isVSphereNode metal_node"
    by (simp_all add: isVSphereNode_def vsphere_node_def second_node_def metal_node_def)
  ultimately show ?thesis
    unfolding nodes_of_version_def with_defaults_getVM by (simp add: sample_node_vm [OF assms])
qed

theorem scraped_hw_versions_witness:
  "\<lparr>g_name = ''vsphere_node_hw_version_total'', g_labels = [''vmx-15''], g_value = 2\<rparr>
      \<in> set (CollectWithStability (collector_run
          (end_collector (checker_runChecks default_round_env NewClusterInfo)) NewMetricsCollector))"
proof -
  obtain ctx where ctx: "round_context sample_env = Some ctx" using sample_round_context by blast
  then have ctx': "round_context default_round_env = Some ctx"
    by (simp only: with_defaults_round_context shared_round_context)
  note runs = with_defaults_runs [OF ctx [folded shared_round_context] default_sample_never_panics [OF ctx]]
  obtain rc where rc: "end_result (checker_runChecks default_round_env NewClusterInfo) = Some (Inr rc)"
    using sample_defaults_end by blast
  define ci where "ci = end_info (checker_runChecks default_round_env NewClusterInfo)"
  obtain tr where tr: "tr \<in> interleavings (map (run_job default_round_env ctx)
      (round_jobs default_round_env [vsphere_node, second_node, metal_node]))"
    and ci: "ci = info_run (trace_info tr) NewClusterInfo"
    using successful_round [OF rc sample_scheduler_ok] ctx' sample_defaults_nodes by (auto simp: ci_def)
  note counts = round_info_counts [OF runs ctx' tr sample_defaults_nodes]
  have "OpSetHW x \<in> set (trace_info tr) \<longleftrightarrow> x = ''vmx-15''" for x
    using counts(1) [of x] sample_versions [OF ctx, of x] count_list_0_iff [of "trace_info tr" "OpSetHW x"]
    by (cases "x = ''vmx-15''") simp_all
  then have "dom (hwVersions ci) = {''vmx-15''}"
    using hwVersions_run(2) [OF counts(2), of NewClusterInfo] by (simp add: ci)
  then have order: "iteration_of (hwVersions ci) (ord_hw (df_orders default_sample) ci)"
    by (simp add: iteration_of_def default_sample_def)
  show ?thesis
    using scraped_hw_versions [OF runs sample_scheduler_ok rc ctx' sample_defaults_nodes ci_def order,
        of "''vmx-15''" 2 "[]"] sample_versions [OF ctx] by simp
qed

text \<open>
  The answers \<open>df_processed\<close> of that environment are the ones \<^verbatim>\<open>MarkHostForProcessing\<close> gives in
  its round: the call for the first node finds the host \<^verbatim>\<open>h1\<close> new, that for the second does not.
\<close>

lemma mark_answers_append:
  "mark_answers h (xs @ ys) c = mark_answers h xs c @ mark_answers h ys (info_run xs c)"
  by (induction xs arbitrary: c) (auto split: prod.split, (case_tac a; simp))

lemma mark_answers_other: "OpMarkHost h \<notin> set xs \<Longrightarrow> mark_answers h xs c = []"
  by (induction h xs c rule: mark_answers.induct) auto

lemma host_known_run:
  "host_known h c \<Longrightarrow> OpReset \<notin> set xs \<Longrightarrow> host_known h (info_run xs c)"
  by (induction xs arbitrary: c) (auto simp: host_known_step simp del: info_step.simps)

lemma host_known_run_other:
  "\<not> host_known h c \<Longrightarrow> (\<forall>x \<in> set xs. x \<noteq> OpMarkHost h \<and> (\<forall>v a. x \<noteq> OpSetHost h v a)) \<Longrightarrow>
   \<not> host_known h (info_run xs c)"
  by (induction xs arbitrary: c) (auto simp: host_known_step_other simp del: info_step.simps)

lemma host_loaded_ops:
  assumes "vm_Host v = Some h"
  shows "\<exists>xs. snd (CollectNodeESXiVersion host ctx False n v) = OpMarkHost h # xs \<and>
      OpMarkHost h \<notin> set xs \<and> OpReset \<notin> set xs"
    "snd (CollectNodeESXiVersion host ctx True n v) = [OpMarkHost h]"
  using assms by (auto simp: CollectNodeESXiVersion_def split: sum.split option.split)

lemma sample_answers:
  "mark_answers ''h1'' (trace_info (end_trace (checker_runChecks default_round_env NewClusterInfo))) NewClusterInfo
     = map (df_processed default_sample) [vsphere_node, second_node]"
proof -
  let ?env = default_round_env and ?nodes = "[vsphere_node, second_node, metal_node]"
  obtain ctx where ctx: "round_context sample_env = Some ctx" using sample_round_context by blast
  then have ctx': "round_context ?env = Some ctx"
    by (simp only: with_defaults_round_context shared_round_context)
  note runs = with_defaults_runs [OF ctx [folded shared_round_context] default_sample_never_panics [OF ctx]]
  obtain ops where run: "checker_runChecks ?env NewClusterInfo = run_jobs ?env ctx NewClusterInfo ops"
    using round_start [OF ctx'] by blast
  obtain rc where rc: "end_result (run_jobs ?env ctx NewClusterInfo ops) = Some (Inr rc)"
    using sample_defaults_end [of default_sample NewClusterInfo] unfolding run by blast
  have "chk_schedule ?env = concat" by (simp only: with_defaults_fields shared_fields)
  then have trace: "end_trace (checker_runChecks ?env NewClusterInfo) =
      concat (map (run_job ?env ctx) (round_jobs ?env ?nodes))"
    using run_jobs_successful [OF rc] sample_defaults_nodes unfolding run by auto
  define cluster where "cluster = concat (map (job_info ?env ctx \<circ> ClusterJob) (chk_clusterChecks ?env))"
  have vsphere: "filter isVSphereNode ?nodes = [vsphere_node, second_node]"
    by (simp add: isVSphereNode_def) (simp add: vsphere_node_def second_node_def metal_node_def)
  have info: "trace_info (end_trace (checker_runChecks ?env NewClusterInfo)) =
      cluster @ job_info ?env ctx (NodeJob vsphere_node) @ job_info ?env ctx (NodeJob second_node)"
    unfolding trace trace_info_concat list.map_comp comp_def trace_info_run_job round_jobs_def vsphere
    by (simp add: cluster_def comp_def)
  have vm: "getVM ?env ctx vsphere_node = Inr sample_vm" "getVM ?env ctx second_node = Inr sample_vm"
    unfolding with_defaults_getVM by (rule sample_node_vm [OF ctx])+
  have host: "vm_Host sample_vm = Some ''h1''" by (simp add: sample_vm_def)
  have answers: "df_processed default_sample vsphere_node = False" "df_processed default_sample second_node = True"
    by (simp_all add: default_sample_def vsphere_node_def second_node_def)
  have listed: "vsphere_node \<in> set ?nodes" "second_node \<in> set ?nodes" by simp_all
  obtain hw1 xs cfg1 where first: "job_info ?env ctx (NodeJob vsphere_node) =
      OpSetHW hw1 # OpMarkHost ''h1'' # xs @ cbt_loop cfg1" and xs: "OpMarkHost ''h1'' \<notin> set xs" "OpReset \<notin> set xs"
    using default_node_ops [OF runs ctx' vm(1) sample_defaults_nodes listed(1)]
      host_loaded_ops(1) [OF host, of "df_host default_sample" ctx vsphere_node]
    unfolding answers by auto
  obtain hw2 cfg2 where second: "job_info ?env ctx (NodeJob second_node) =
      OpSetHW hw2 # OpMarkHost ''h1'' # cbt_loop cfg2"
    using default_node_ops [OF runs ctx' vm(2) sample_defaults_nodes listed(2)]
      host_loaded_ops(2) [OF host, of "df_host default_sample" ctx second_node]
    unfolding answers by auto
  have "\<forall>x \<in> set cluster. \<exists>h v a. x = OpSetVCenter h v a"
    using default_cluster_info [OF runs ctx'] by (fastforce simp: cluster_def)
  then have quiet: "OpMarkHost ''h1'' \<notin> set cluster" "\<not> host_known ''h1'' (info_run cluster NewClusterInfo)"
    using host_known_run_other [of "''h1''" NewClusterInfo cluster]
    by (fastforce simp: host_known_def NewClusterInfo_def)+
  have cbt: "OpMarkHost h \<notin> set (cbt_loop cfg)" "OpReset \<notin> set (cbt_loop cfg)" for h cfg
    by (simp_all add: cbt_loop_single)
  have step: "host_known h (info_step (OpSetHW hw) c) \<longleftrightarrow> host_known h c" for h hw c
    by (simp add: host_known_def info_ops)
  have "mark_answers ''h1'' (trace_info (end_trace (checker_runChecks ?env NewClusterInfo))) NewClusterInfo
      = [False, True]"
    unfolding info first second
    using quiet xs cbt
    by (simp add: mark_answers_append mark_answers_other mark_answer step host_known_run host_known_mark
        del: info_step.simps)
  then show ?thesis by (simp add: answers)
qed

text \<open>
  The other state its calls find is that of the round too: the call for the first node has marked
  the cluster that the call for the second finds marked. The VMs are in no resource pool and the
  nodes are no control plane nodes, so that the maps of the other two checks stay as they are.
\<close>

lemma sample_seen:
  assumes "round_context sample_env = Some ctx"
  shows "\<exists>err. CheckComputeClusterPermissions (df_node_perm default_sample) ctx vsphere_node sample_vm
      (df_clusters default_sample vsphere_node) = Some (err, df_clusters default_sample second_node)"
    "\<exists>err. CheckResourcePoolPermissions (df_node_perm default_sample) ctx vsphere_node sample_vm
      (df_pools default_sample vsphere_node) = Some (err, df_pools default_sample second_node)"
    "snd (CheckNodeDiskPerf (df_perf default_sample) ctx vsphere_node sample_vm
      (df_counters default_sample vsphere_node)) = df_counters default_sample second_node"
proof -
  obtain vc where vc: "GetVCenter ctx vsphere_node = Inr vc"
    using sample_node_vm(1) [OF assms] by (auto simp: getVM_def split: if_splits sum.splits)
  have d: "df_node_perm default_sample = twin_env" "df_clusters default_sample vsphere_node = Map.empty"
    "df_clusters default_sample second_node = [''cluster'' \<mapsto> \<lparr>cl_Name = ''cluster'', cl_Ref = ''c''\<rparr>]"
    "df_pools default_sample n = Map.empty" "df_counters default_sample n = Map.empty" for n
    by (simp_all add: default_sample_def vsphere_node_def second_node_def StartCheck_clusters_def StartCheck_pools_def)
  have vm: "vm_Host sample_vm = Some ''h1''" "vm_ResourcePool sample_vm = None" by (simp_all add: sample_vm_def)
  obtain config where config1: "VMConfig ctx = Some config" using sample_context_facts(2) [OF assms] by blast
  have "\<not> cluster_read_only config ctx vsphere_node"
    using assms sample_connect config1
    by (auto simp: round_context_def sample_env_def ConvertToPlatformSpec_def cluster_read_only_def custom_pool_def
        platform_spec_of_def sample_infrastructure_def empty_spec_def convertIntreeToPlatformSpec_def
        addFailureDomainsToPlatformSpec_def sample_legacy_def)
  note config = config1 this
  have cluster: "getComputeCluster twin_env vc ''h1'' = Some (Inr \<lparr>cl_Name = ''cluster'', cl_Ref = ''c''\<rparr>)"
    by (simp add: getComputeCluster_def twin_env_def)
  obtain r where call: "CheckComputeClusterPermissions twin_env ctx vsphere_node sample_vm Map.empty = Some r"
    using twin_call_returns [OF config(1) vm(1), of vsphere_node Map.empty] by blast
  obtain err where "r = (err, [''cluster'' \<mapsto> \<lparr>cl_Name = ''cluster'', cl_Ref = ''c''\<rparr>])"
    using call unfolding CheckComputeClusterPermissions_def vc config(1) checkComputeClusterPrivileges_def vm(1) cluster
    by (auto simp: vc config cluster Let_def simp del: permissions.simps split: option.splits)
  with call show "\<exists>err. CheckComputeClusterPermissions (df_node_perm default_sample) ctx vsphere_node sample_vm
      (df_clusters default_sample vsphere_node) = Some (err, df_clusters default_sample second_node)"
    unfolding d by blast
  show "\<exists>err. CheckResourcePoolPermissions (df_node_perm default_sample) ctx vsphere_node sample_vm
      (df_pools default_sample vsphere_node) = Some (err, df_pools default_sample second_node)"
    unfolding d by (simp add: CheckResourcePoolPermissions_def vc vm)
  show "snd (CheckNodeDiskPerf (df_perf default_sample) ctx vsphere_node sample_vm
      (df_counters default_sample vsphere_node)) = df_counters default_sample second_node"
    unfolding d by (simp add: CheckNodeDiskPerf_def metricCheckDefs_def PerformMetricCheck_def vc checkNodePerf_def
        vsphere_node_def Let_def)
qed

end
