(* ===== verification/MetricDecls.thy ===== *)
theory MetricDecls
  imports CheckGauges RoundMetrics
begin

text \<open>
  The metrics the program declares (pkg/operator/metrics.go, pkg/metrics/collector.go and the
  declarations in pkg/check) with the labels they are declared with, and what makes their use safe:
  \<^verbatim>\<open>MustRegister\<close> panics when a name is registered twice, and \<^verbatim>\<open>WithLabelValues\<close> and
  \<^verbatim>\<open>NewLazyConstMetric\<close> when the number of values is not that of the labels. A declaration is its
  kind, name and labels; the help texts are left out.
\<close>

text \<open>
  \<^verbatim>\<open>Desc\<close> is a description of \<^verbatim>\<open>NewDesc\<close>, with which a collector makes the metrics of a scrape.
\<close>

datatype metric_kind = CounterVec | GaugeVec | PlainGauge | Desc

record metric_desc =
  md_kind :: metric_kind
  md_name :: string
  md_labels :: "string list"

section \<open>Package operator\<close>

definition checkNameLabel :: string where "checkNameLabel = ''check''"
definition nodeNameLabel :: string where "nodeNameLabel = ''node''"
definition reasonLabel :: string where "reasonLabel = ''reason''"

definition clusterCheckTotalMetric :: metric_desc where
  "clusterCheckTotalMetric = \<lparr>md_kind = CounterVec, md_name = ''vsphere_cluster_check_total'',
     md_labels = [checkNameLabel]\<rparr>"

definition clusterCheckErrrorMetric :: metric_desc where
  "clusterCheckErrrorMetric = \<lparr>md_kind = GaugeVec, md_name = ''vsphere_cluster_check_errors'',
     md_labels = [checkNameLabel]\<rparr>"

definition nodeCheckTotalMetric :: metric_desc where
  "nodeCheckTotalMetric = \<lparr>md_kind = CounterVec, md_name = ''vsphere_node_check_total'',
     md_labels = [checkNameLabel, nodeNameLabel]\<rparr>"

definition nodeCheckErrrorMetric :: metric_desc where
  "nodeCheckErrrorMetric = \<lparr>md_kind = GaugeVec, md_name = ''vsphere_node_check_errors'',
     md_labels = [checkNameLabel, nodeNameLabel]\<rparr>"

definition syncErrrorMetric :: metric_desc where
  "syncErrrorMetric = \<lparr>md_kind = GaugeVec, md_name = ''vsphere_sync_errors'', md_labels = [reasonLabel]\<rparr>"

definition alertsDisabledMetric :: metric_desc where
  "alertsDisabledMetric = \<lparr>md_kind = PlainGauge, md_name = ''vsphere_problem_detector_disabled_alerts'',
     md_labels = []\<rparr>"

definition operator_metrics :: "metric_desc list" where
  "operator_metrics = [clusterCheckTotalMetric, clusterCheckErrrorMetric, nodeCheckTotalMetric,
     nodeCheckErrrorMetric, syncErrrorMetric, alertsDisabledMetric]"

section \<open>Packages metrics and check\<close>

definition EsxiVersionMetric :: metric_desc where
  "EsxiVersionMetric = \<lparr>md_kind = Desc, md_name = ''vsphere_esxi_version_total'',
     md_labels = [''version'', ''api_version'']\<rparr>"

definition HwVersionMetric :: metric_desc where
  "HwVersionMetric = \<lparr>md_kind = Desc, md_name = ''vsphere_node_hw_version_total'',
     md_labels = [''hw_version'']\<rparr>"

definition CbtMismatchMetric :: metric_desc where
  "CbtMismatchMetric = \<lparr>md_kind = Desc, md_name = ''vsphere_vm_cbt_checks'', md_labels = [''cbt'']\<rparr>"

definition DescribeWithStability :: "metric_desc list" where
  "DescribeWithStability = [EsxiVersionMetric, HwVersionMetric, CbtMismatchMetric]"

definition dataStoreTypesMetric :: metric_desc where
  "dataStoreTypesMetric = \<lparr>md_kind = GaugeVec, md_name = ''vsphere_datastore_total'', md_labels = [''type'']\<rparr>"

definition rwxPVCountMetric :: metric_desc where
  "rwxPVCountMetric = \<lparr>md_kind = GaugeVec, md_name = ''vsphere_rwx_volumes_total'', md_labels = []\<rparr>"

definition zonalPVCountMetric :: metric_desc where
  "zonalPVCountMetric = \<lparr>md_kind = GaugeVec, md_name = ''vsphere_zonal_volumes_total'', md_labels = []\<rparr>"

definition vCenterInfoMetric :: metric_desc where
  "vCenterInfoMetric = \<lparr>md_kind = GaugeVec, md_name = ''vsphere_vcenter_info'',
     md_labels = [''version'', ''api_version'', ''uuid'', ''build'']\<rparr>"

definition declared_metrics :: "metric_desc list" where
  "declared_metrics = operator_metrics @ DescribeWithStability @
     [dataStoreTypesMetric, rwxPVCountMetric, zonalPVCountMetric, vCenterInfoMetric]"

lemmas metric_decls = clusterCheckTotalMetric_def clusterCheckErrrorMetric_def nodeCheckTotalMetric_def
  nodeCheckErrrorMetric_def syncErrrorMetric_def alertsDisabledMetric_def EsxiVersionMetric_def
  HwVersionMetric_def CbtMismatchMetric_def dataStoreTypesMetric_def rwxPVCountMetric_def
  zonalPVCountMetric_def vCenterInfoMetric_def

section \<open>Registration and use\<close>

text \<open>\<^verbatim>\<open>MustRegister\<close>; \<open>None\<close> is its panic.\<close>

fun must_register :: "metric_desc list \<Rightarrow> string set \<Rightarrow> string set option" where
  "must_register [] names = Some names"
| "must_register (d # ds) names =
     (if md_name d \<in> names then None else must_register ds (insert (md_name d) names))"

lemma must_register_eq:
  "must_register ds names \<noteq> None \<longleftrightarrow>
     distinct (map md_name ds) \<and> md_name ` set ds \<inter> names = {}"
  by (induction ds arbitrary: names) auto

definition labelled :: "metric_kind \<Rightarrow> string \<Rightarrow> string list \<Rightarrow> bool" where
  "labelled kind name values \<longleftrightarrow>
     (\<exists>d \<in> set declared_metrics. md_kind d = kind \<and> md_name d = name \<and> length (md_labels d) = length values)"

fun well_labelled :: "job_event \<Rightarrow> bool" where
  "well_labelled (EvGauge g ls v) \<longleftrightarrow> labelled GaugeVec g ls \<and> v \<le> 1"
| "well_labelled (EvInc g ls) \<longleftrightarrow> labelled CounterVec g ls"
| "well_labelled (EvResult r) \<longleftrightarrow> True"
| "well_labelled (EvInfo x) \<longleftrightarrow> True"

lemma labelled_job_metrics:
  "labelled GaugeVec ''vsphere_cluster_check_errors'' [a]" "labelled CounterVec ''vsphere_cluster_check_total'' [a]"
  "labelled GaugeVec ''vsphere_node_check_errors'' [a, b]" "labelled CounterVec ''vsphere_node_check_total'' [a, b]"
  "labelled Desc ''vsphere_node_hw_version_total'' [a]" "labelled Desc ''vsphere_vm_cbt_checks'' [a]"
  "labelled Desc ''vsphere_esxi_version_total'' [a, b]" "labelled GaugeVec ''vsphere_rwx_volumes_total'' []"
  "labelled GaugeVec ''vsphere_zonal_volumes_total'' []" "labelled GaugeVec ''vsphere_vcenter_info'' [a, b, c, e]"
  by (simp_all add: labelled_def declared_metrics_def operator_metrics_def DescribeWithStability_def metric_decls)

lemma job_metrics: "e \<in> set (run_job env ctx j) \<Longrightarrow> well_labelled e"
proof (induction j)
  case (ClusterJob name)
  then show ?case
    unfolding run_job.simps set_cluster_check
    by (elim UnE imageE insertE emptyE; simp add: labelled_job_metrics error_gauge_def)
next
  case (NodeJob n)
  have "well_labelled e" if "e \<in> set (runSingleNodeSingleCheck env ctx n v name)" for v name
    using that unfolding set_node_check
    by (elim UnE imageE insertE emptyE; simp add: labelled_job_metrics error_gauge_def)
  with NodeJob show ?case by (auto split: sum.splits)
qed

lemma finish_metrics:
  "g \<in> set (finishNodeChecks orders names ci) \<Longrightarrow> labelled Desc (g_name g) (g_labels g)"
  by (auto simp: finishNodeChecks_def FinishCheck_def finish_hw_versions_def finish_esxi_versions_def
      finish_cbt_def labelled_job_metrics split: if_splits)

lemma info_metrics:
  "g \<in> set (snd (vcenter_info_loop about vcs)) \<Longrightarrow> labelled GaugeVec (g_name g) (g_labels g)"
  by (induction vcs) (auto simp: Let_def labelled_job_metrics split: prod.splits)

text \<open>
  C39: No use of a metric panics. All declared names are different, so that every
  \<^verbatim>\<open>MustRegister\<close> of the start-up succeeds; and every gauge or counter a job of a round, the end of
  the node checks, the volume check or the information check sets is one of them, of the right
  kind (the metrics of the end of the node checks are made from descriptions) and with as many
  values as it has labels. The error gauges are 0 or 1.
\<close>

theorem metrics_used_as_declared:
  "must_register declared_metrics {} \<noteq> None \<and>
   (\<forall>e \<in> set (run_job env ctx j). well_labelled e) \<and>
   (\<forall>g \<in> set (finishNodeChecks orders names ci). labelled Desc (g_name g) (g_labels g)) \<and>
   (\<forall>g \<in> set (snd (CollectClusterInfo about ctx)) \<union> set (snd (CountPVTypes pvs)). labelled GaugeVec (g_name g) (g_labels g))"
proof (intro conjI ballI)
  show "must_register declared_metrics {} \<noteq> None"
    unfolding must_register_eq
    by (simp add: declared_metrics_def operator_metrics_def DescribeWithStability_def metric_decls)
  show "well_labelled e" if "e \<in> set (run_job env ctx j)" for e using that by (rule job_metrics)
  show "labelled Desc (g_name g) (g_labels g)" if "g \<in> set (finishNodeChecks orders names ci)" for g
    using that by (rule finish_metrics)
  fix g
  assume "g \<in> set (snd (CollectClusterInfo about ctx)) \<union> set (snd (CountPVTypes pvs))"
  then consider "g \<in> set (snd (vcenter_info_loop about (map snd (VCenters ctx))))" | "g \<in> set (snd (CountPVTypes pvs))"
    by (auto simp: CollectClusterInfo_def collectVCenterInfo_def case_prod_beta)
  then show "labelled GaugeVec (g_name g) (g_labels g)"
  proof cases
    case 1
    then show ?thesis by (rule info_metrics)
  next
    case 2
    then show ?thesis by (auto simp: CountPVTypes_def labelled_job_metrics split: sum.splits prod.splits)
  qed
qed

theorem metrics_used_as_declared_witness:
  "\<exists>e. e \<in> set (run_job sample_env sample_ctx (ClusterJob ''CheckTaskPermissions'')) \<and> well_labelled e"
proof -
  obtain e where e: "e \<in> set (run_job sample_env sample_ctx (ClusterJob ''CheckTaskPermissions''))"
    using gauge_in_jobs(1) [of "''CheckTaskPermissions''" sample_env sample_ctx] by auto
  then have "well_labelled e"
    using metrics_used_as_declared [of sample_env sample_ctx "ClusterJob ''CheckTaskPermissions''"
      "df_orders default_sample" "[]" NewClusterInfo about_sample "Inr []"] by blast
  with e show ?thesis by blast
qed

end
