(* ===== verification/CommandLine.thy ===== *)
theory CommandLine
  imports MetricDecls Startup
begin

text \<open>
  The program's commands (cmd/vsphere-problem-detector/main.go) and its version
  (pkg/version/version.go), and which registry each metric is registered with. The variables that
  the linker sets are an argument; the parsing of the arguments is cobra's.
\<close>

section \<open>The version\<close>

record build_vars =
  commitFromGit :: string
  versionFromGit :: string
  majorFromGit :: string
  minorFromGit :: string
  buildDate :: string

record version_info =
  vi_Major :: string
  vi_Minor :: string
  vi_GitCommit :: string
  vi_GitVersion :: string
  vi_BuildDate :: string

definition Get :: "build_vars \<Rightarrow> version_info" where
  "Get b = \<lparr>vi_Major = majorFromGit b, vi_Minor = minorFromGit b, vi_GitCommit = commitFromGit b,
     vi_GitVersion = versionFromGit b, vi_BuildDate = buildDate b\<rparr>"

definition buildInfo :: metric_desc where
  "buildInfo = \<lparr>md_kind = GaugeVec, md_name = ''vsphere_problem_detector'',
     md_labels = [''major'', ''minor'', ''gitCommit'', ''gitVersion'']\<rparr>"

text \<open>What \<^verbatim>\<open>init\<close> of the package sets before it registers the metric.\<close>

definition build_gauge :: "build_vars \<Rightarrow> gauge" where
  "build_gauge b = \<lparr>g_name = md_name buildInfo,
     g_labels = [majorFromGit b, minorFromGit b, commitFromGit b, versionFromGit b], g_value = 1\<rparr>"

section \<open>The commands\<close>

datatype command_action = HelpAndExit nat | StartController version_info | PrintVersion version_info

record command =
  cmd_Use :: string
  cmd_Run :: command_action

definition NewOperatorCommand :: "build_vars \<Rightarrow> command \<times> command list" where
  "NewOperatorCommand b =
     (\<lparr>cmd_Use = ''vsphere-problem-detector'', cmd_Run = HelpAndExit 1\<rparr>,
      [\<lparr>cmd_Use = ''start'', cmd_Run = StartController (Get b)\<rparr>,
       \<lparr>cmd_Use = ''version'', cmd_Run = PrintVersion (Get b)\<rparr>])"

section \<open>The two registries\<close>

text \<open>
  The registry of component-base and the default one of the Prometheus client. A custom collector
  goes to both (\<^verbatim>\<open>CustomMustRegister\<close>); the metrics endpoint serves the first only
  (\<^verbatim>\<open>legacyregistry.Handler\<close>).
\<close>

datatype registry = LegacyRegistry | DefaultRegisterer

definition check_metrics :: "metric_desc list" where
  "check_metrics = [dataStoreTypesMetric, rwxPVCountMetric, zonalPVCountMetric, vCenterInfoMetric]"

definition registrations :: "(registry \<times> metric_desc) list" where
  "registrations =
     map (Pair LegacyRegistry) (operator_metrics @ check_metrics)
     @ map (Pair LegacyRegistry) DescribeWithStability @ map (Pair DefaultRegisterer) DescribeWithStability
     @ [(DefaultRegisterer, buildInfo)]"

definition registered :: "registry \<Rightarrow> metric_desc list" where
  "registered reg = map snd (filter (\<lambda>(r, d). r = reg) registrations)"

definition served :: "metric_desc \<Rightarrow> bool" where
  "served d \<longleftrightarrow> d \<in> set (registered LegacyRegistry)"

lemma registered_eq:
  "registered LegacyRegistry = operator_metrics @ check_metrics @ DescribeWithStability"
  "registered DefaultRegisterer = DescribeWithStability @ [buildInfo]"
  by (simp_all add: registered_def registrations_def filter_map comp_def)

text \<open>
  No registration of the start-up panics, in neither registry, and all metrics of the operator, the
  collector and the checks are served. The one that tells which build is running is not: it is set
  with a value for each of its labels, but registered where the metrics endpoint does not look.
\<close>

theorem build_info_not_served:
  "(\<forall>reg. must_register (registered reg) {} \<noteq> None) \<and>
   (\<forall>d \<in> set declared_metrics. served d) \<and>
   length (g_labels (build_gauge b)) = length (md_labels buildInfo) \<and>
   \<not> served buildInfo"
proof (intro conjI allI ballI)
  show "must_register (registered reg) {} \<noteq> None" for reg
    unfolding must_register_eq
    by (cases reg; simp add: registered_eq operator_metrics_def check_metrics_def DescribeWithStability_def
        metric_decls buildInfo_def)
  show "served d" if "d \<in> set declared_metrics" for d
    using that unfolding served_def registered_eq declared_metrics_def check_metrics_def by auto
  show "length (g_labels (build_gauge b)) = length (md_labels buildInfo)"
    by (simp add: build_gauge_def buildInfo_def)
  have "md_name buildInfo \<notin> md_name ` set (registered LegacyRegistry)"
    by (simp add: registered_eq operator_metrics_def check_metrics_def DescribeWithStability_def
        metric_decls buildInfo_def)
  then show "\<not> served buildInfo" unfolding served_def by blast
qed

theorem build_info_not_served_witness:
  "served clusterCheckErrrorMetric \<and> \<not> served buildInfo"
proof -
  have "clusterCheckErrrorMetric \<in> set declared_metrics"
    by (simp add: declared_metrics_def operator_metrics_def)
  with build_info_not_served show ?thesis by blast
qed

end
