(* ===== verification/Spec2Isabelle.thy ===== *)
theory Spec2Isabelle
  imports Conformance OperatorEffects Sessions LateWork CommandLine
begin

text \<open>
  A model of vsphere-problem-detector, the OpenShift operator that checks a cluster's vSphere
  installation and reports what is wrong with it as events, metrics and a condition.

  \<^bold>\<open>The program.\<close> A controller (pkg/operator/operator.go) is called by a work queue. When it is
  managed, on vSphere and the next check is due, it makes a checker (vsphere_check.go) perform one
  round: connect to every vCenter of the cloud configuration, give the cluster checks and, for each
  vSphere node, the node checks to a pool of goroutines (pool.go), wait for them, and collect one
  result per check. The checks (pkg/check) ask vCenter through a cache (pkg/cache), compare what
  they find with the Infrastructure resource, and leave facts about hosts, VMs and vCenters in
  \<^verbatim>\<open>ClusterInfo\<close> (pkg/util). The controller sends an event per result, sets the metrics, compares
  the versions in \<^verbatim>\<open>ClusterInfo\<close> with the supported ones, and schedules the next round: after a
  growing delay when something failed, after a day when the driver is removed, else after an hour.

  \<^bold>\<open>Theories and sources.\<close>
  \<^item> \<open>Prelude\<close>: Go strings, formatting and maps; \<open>StrConv\<close>: \<^verbatim>\<open>strconv.ParseUint\<close> and \<^verbatim>\<open>ParseInt\<close>.
  \<^item> \<open>GoErrors\<close>: aggregate errors and pkg/check/errors.go.
  \<^item> \<open>Semver\<close>, \<open>Backoff\<close>: the vendored version library and the vendored backoff, as far as the
    controller uses them.
  \<^item> \<open>ClusterInfo\<close>: pkg/util/cluster_info.go; \<open>MetricsCollector\<close>: pkg/metrics/collector.go.
  \<^item> \<open>ResultCollector\<close> and \<open>ThreadPool\<close>: the two halves of pkg/operator/pool.go; \<open>Interleavings\<close>:
    merging of lists of events; \<open>PoolRuns\<close>: the pool with the functions it runs.
  \<^item> \<open>Deprecation\<close>, \<open>Operator\<close>: operator.go; \<open>OperatorDelays\<close>, \<open>OperatorRuns\<close> and
    \<open>OperatorEffects\<close> hold what is proved of it: delays, sequences of calls, effects.
  \<^item> \<open>CheckContext\<close>: interface.go and the choice of vCenters of pkg/check/util.go; \<open>Connect\<close> and
    \<open>Checker\<close>: vsphere_check.go, the connections and the round; \<open>Sessions\<close>: the sessions a round
    leaves at the vCenters; \<open>CheckGauges\<close>: the error gauges after a round; \<open>LateWork\<close>: what a
    round that gave up still does.
  \<^item> \<open>NodeChecks\<close>, \<open>NodePermissions\<close>, \<open>NodePerf\<close>: the node_*.go checks.
  \<^item> \<open>Permissions\<close>, \<open>InfraChecks\<close>, \<open>Datastore\<close>, \<open>StorageClasses\<close>, \<open>ZoneTags\<close>, \<open>HostGroups\<close>,
    \<open>ClusterChecks\<close>: the checks of the cluster; \<open>Cache\<close>: pkg/cache/cache.go.
  \<^item> \<open>DefaultChecks\<close>: the tables of checks of interface.go, which tie the single checks to a round;
    \<open>RoundMetrics\<close>: from the nodes of such a round to the scraped metrics.
  \<^item> \<open>MetricDecls\<close>: pkg/operator/metrics.go and the declarations of the gauges; \<open>Startup\<close>:
    starter.go, the operator client, the listers and the log; \<open>CommandLine\<close>: main.go, version.go
    and the registries of the metrics.
  \<^item> \<open>Fixtures\<close>: the resources, nodes and configurations of pkg/testlib, and the setup of its
    simulator; \<open>Conformance\<close>: the tables of the unit tests.

  \<^bold>\<open>How the code is modelled.\<close> A struct is a record, an \<^verbatim>\<open>error\<close> result a \<open>go_error option\<close>, a
  value with an error a sum whose left side is the error, with the error texts of the code. A Go
  map is a partial function, or an association list where a loop ranges over it, so that what is
  proved holds for every iteration order. A panic is \<open>None\<close> of an outer option. What vCenter, the
  API server, the clock and the random generator answer are arguments: records of functions
  (\<open>check_env\<close>, \<open>connect_env\<close>, \<open>ds_env\<close>, \<open>tag_env\<close> and others) or fields of \<open>sync_input\<close>.
  Concurrency is explicit: a method that holds a lock for its whole body is one step, the thread
  pool is a step relation, and a round performs any interleaving of the traces of its jobs.
  Durations are integers in nanoseconds, the \<^verbatim>\<open>float64\<close> products of the backoff are rationals,
  latencies are 64 bit words. All loops are structural recursions, so no fuel is needed.

  \<^bold>\<open>What is proved.\<close>
  \<^item> End to end (this theory): the events of a round tell exactly the outcome of the checks, and for
    the default checks the warnings about account, folders and datastores are sent exactly when the
    infrastructure is not as they want it.
  \<^item> The controller: an invariant of its timers over all sequences of calls, the delays on every
    path, back-off bounds, distance of rounds, that no wake-up is lost, restart exactly on a flip of
    the driver state, and no effect when the gate is closed.
  \<^item> The pool: bounded parallelism as an invariant, completion of all work, and what \<^verbatim>\<open>Wait\<close>
    returning \<^verbatim>\<open>nil\<close> means. With the functions it runs, the pool performs an interleaving of
    them (the locale \<open>executor\<close>); the rounds are stated over the histories of that pool. The
    collector refines a multiset of errors per check.
  \<^item> The cache: answers as vCenter does (the locale \<open>cached_lookup\<close>, interpreted on every method)
    and calls the finder once for a datacenter that exists, counted in the log of calls the model of
    the cache keeps; the folder check through the cache refines the one without it, and the
    datastore checks are stated over the inventory that the cache loads.
  \<^item> Every check passes exactly when a condition stated without its loops holds. The conditions of
    the zone tags, of the default datastore and of the privileges of nodes do not use the lookups
    of the code either: they say of vCenter's answers which objects count.
  \<^item> The metrics: the scraped number of nodes per hardware version after a round of the default
    checks (several nodes may share a host), the error gauges of clusters and nodes, and that every write fits its
    declaration, and which metrics are served.
  \<^item> Where the code falls short this is proved too: errors that are dropped, panics (a VM without
    configuration among them), REST sessions, SOAP sessions whose logout fails and goroutines that
    leak, error gauges of nodes that stay when the VM is not found, checks of a round that gave up which overwrite the gauges
    of the next, clusters that are skipped, versions that are misread.
  \<^item> The model gives what the unit tests of the program expect of the code, for the tables of those
    tests that need no simulator to answer (\<open>Conformance\<close>): configuration, datacenters, vCenter of a
    node, node checks, deprecation, metrics and the synchronisation of the controller.

  \<^bold>\<open>Bounds.\<close> The backoff is that of the code: 1 minute, factor 2, cap 1 hour, 1 percent of
  jitter, and as many steps as the largest 32 bit integer; the cap ends it after a few. The pool has
  any number of workers and any buffer. The average of a latency series is proved exact for up to
  300 samples, the number asked for, of magnitude up to 2 to the 54.

  \<^bold>\<open>Not modelled.\<close> Help texts; the parsing of INI and YAML, the vSphere client library and the storage
  policy server, which are third-party; the simulator the tests run against, third-party too, and
  the generated mock, so the tests that compare with what the simulator holds are not replayed. Of
  \<open>Startup\<close> the informers and the controller framework are names and orders of calls only.
  Contexts and timeouts appear only where their error is an answer. Data races are
  outside of the model: the unlocked maps of the cluster and resource pool checks are modelled as
  accessed by one call after the other. Strings are bytes, and case folding and white space are
  those of ASCII.
\<close>

section \<open>From the checks to the events\<close>

lemma round_events:
  assumes "performed_check inp c \<noteq> None" "in_ClusterCSIDriver inp \<noteq> Inr Removed"
    and "in_checker inp = (\<lambda>silenced ci. checker_of env ci)" "scheduler_ok env"
    and "end_result (checker_runChecks env NewClusterInfo) = Some (Inr rc)"
    and "round_context env = Some ctx" "chk_ListNodes env = Inr nodes"
    and "iteration_of (results rc) (in_names inp)"
    and "sync inp c = (res, c', effs)"
  shows "length (filter is_event effs) = card (reported_checks env nodes) \<and>
    (\<forall>n \<in> reported_checks env nodes.
       (\<exists>m. WarningEvent (''FailedVSphere'' @ n) m \<in> set effs) =
         (\<not> (cluster_check_passes env ctx n \<and> node_check_passes env ctx nodes n)) \<and>
       (\<exists>m. NormalEvent (''SucceededVSphere'' @ n) m \<in> set effs) =
         (cluster_check_passes env ctx n \<and> node_check_passes env ctx nodes n))"
proof -
  obtain tr where tr: "tr \<in> interleavings (map (run_job env ctx) (round_jobs env nodes))"
    and rc: "rc = add_results (trace_results tr)"
    using successful_round [OF assms(5,4)] assms(6,7) by auto
  have checker: "fst (in_checker inp False NewClusterInfo) = Inr (add_results (trace_results tr))"
    using assms(3,5) rc by (simp add: checker_of_def)
  note E = events_per_check [OF assms(1,2) checker assms(8) [unfolded rc] assms(9),
      unfolded round_results(1) [OF tr]]
  have "(\<exists>m. WarningEvent (''FailedVSphere'' @ n) m \<in> set effs) =
         (\<not> (cluster_check_passes env ctx n \<and> node_check_passes env ctx nodes n)) \<and>
       (\<exists>m. NormalEvent (''SucceededVSphere'' @ n) m \<in> set effs) =
         (cluster_check_passes env ctx n \<and> node_check_passes env ctx nodes n)"
    if n: "n \<in> reported_checks env nodes" for n
  proof -
    have failed: "(\<exists>x \<in> set (trace_results tr). res_Name x = n \<and> res_Error x \<noteq> None) \<longleftrightarrow>
        \<not> (\<forall>x \<in> set (trace_results tr). res_Name x = n \<longrightarrow> res_Error x = None)" by metis
    from bspec [OF conjunct2 [OF E] n] show ?thesis
      unfolding failed round_results(2) [OF tr n] .
  qed
  with E show ?thesis by blast
qed

text \<open>
  C1: End to end. In a round of a managed cluster whose driver is not removed, with the checker of
  \<^verbatim>\<open>newVSphereChecker\<close>, the events the administrator sees are exactly the outcome of the
  checks: one event for each check that ran; a warning when the cluster check failed, or when for
  some vSphere node the VM was not found or the node check failed; a normal event otherwise.
  Nodes of other platforms cause no event.
\<close>

theorem events_tell_the_checks:
  assumes "performed_check inp c \<noteq> None" "in_ClusterCSIDriver inp \<noteq> Inr Removed"
    and "in_checker inp = (\<lambda>silenced ci. checker_of env ci)" "scheduler_ok env"
    and "end_result (checker_runChecks env NewClusterInfo) = Some (Inr rc)"
    and "round_context env = Some ctx" "chk_ListNodes env = Inr nodes"
    and "iteration_of (results rc) (in_names inp)"
    and "sync inp c = (res, c', effs)"
  shows "length (filter is_event effs) = card (reported_checks env nodes) \<and>
    (\<forall>n \<in> reported_checks env nodes.
       (\<exists>m. WarningEvent (''FailedVSphere'' @ n) m \<in> set effs) =
         (\<not> (cluster_check_passes env ctx n \<and> node_check_passes env ctx nodes n)) \<and>
       (\<exists>m. NormalEvent (''SucceededVSphere'' @ n) m \<in> set effs) =
         (cluster_check_passes env ctx n \<and> node_check_passes env ctx nodes n))"
  using assms by (rule round_events)

definition end_to_end_input :: sync_input where
  "end_to_end_input = failing_input 5 ''Managed''
     \<lparr>in_checker := \<lambda>silenced ci. checker_of sample_env ci,
      in_names := [''CheckTaskPermissions'', ''CheckNodeDiskUUID'']\<rparr>"

theorem events_tell_the_checks_witness:
  "\<exists>m. WarningEvent (''FailedVSphere'' @ ''CheckTaskPermissions'') m
     \<in> set (snd (snd (sync end_to_end_input NewVSphereProblemDetectorController)))"
proof -
  let ?inp = end_to_end_input and ?c = NewVSphereProblemDetectorController
  obtain ctx where ctx: "round_context sample_env = Some ctx" using sample_round_context by blast
  obtain rc where rc: "end_result (checker_runChecks sample_env NewClusterInfo) = Some (Inr rc)"
    using sample_round_ends by blast
  have nodes: "chk_ListNodes sample_env = Inr [vsphere_node, metal_node]" by (simp add: sample_env_def)
  obtain tr where tr: "tr \<in> interleavings (map (run_job sample_env ctx) (round_jobs sample_env [vsphere_node, metal_node]))"
    and add: "rc = add_results (trace_results tr)"
    using successful_round [OF rc sample_env_ok] ctx nodes by auto
  have rep: "reported_checks sample_env [vsphere_node, metal_node]
      = {''CheckTaskPermissions'', ''CheckNodeDiskUUID''}"
    by (auto simp: reported_checks_def sample_env_def isVSphereNode_def vsphere_node_def)
  have names: "iteration_of (results rc) (in_names ?inp)"
    using round_results(1) [OF tr] rep
    by (simp add: add iteration_of_def dom_add_results end_to_end_input_def)
  have p: "performed_check ?inp ?c \<noteq> None"
    unfolding performed_check_iff
    by (simp add: sync_admits_def end_to_end_input_def failing_input_def platformSupported_def
        sample_infra_def VSpherePlatformType_def Managed_def Removed_def checkStateChange_def
        NewVSphereProblemDetectorController_def)
  have d: "in_ClusterCSIDriver ?inp \<noteq> Inr Removed" by (simp add: end_to_end_input_def Removed_def)
  have chk: "in_checker ?inp = (\<lambda>silenced ci. checker_of sample_env ci)" by (simp add: end_to_end_input_def)
  obtain res c' effs where s: "sync ?inp ?c = (res, c', effs)" by (cases "sync ?inp ?c") auto
  note E = events_tell_the_checks [OF p d chk sample_env_ok rc ctx nodes names s, unfolded rep]
  have "\<not> cluster_check_passes sample_env ctx ''CheckTaskPermissions''"
    by (simp add: cluster_check_passes_def sample_env_def)
  then show ?thesis using E s by simp
qed

section \<open>The default checks, end to end\<close>

lemma default_check_event:
  assumes "performed_check inp c \<noteq> None" "in_ClusterCSIDriver inp \<noteq> Inr Removed"
    and "in_checker inp = (\<lambda>silenced ci. checker_of env ci)" "scheduler_ok env"
    and "end_result (checker_runChecks env NewClusterInfo) = Some (Inr rc)"
    and "round_context env = Some ctx" "chk_ListNodes env = Inr nodes"
    and "iteration_of (results rc) (in_names inp)"
    and "sync inp c = (res, c', effs)"
    and "runs_defaults env d" "(name, call) \<in> set (DefaultClusterChecks d ctx)"
  shows "(\<exists>m. WarningEvent (''FailedVSphere'' @ name) m \<in> set effs) \<longleftrightarrow> map_option fst call \<noteq> Some None"
proof -
  note D = default_cluster_passes [OF assms(10,6,11)]
  from round_events [OF assms(1-9)] D(3) [of nodes]
  have "(\<exists>m. WarningEvent (''FailedVSphere'' @ name) m \<in> set effs) \<longleftrightarrow>
      \<not> (cluster_check_passes env ctx name \<and> node_check_passes env ctx nodes name)" by blast
  then show ?thesis unfolding D(1) using D(2) by blast
qed

text \<open>
  C2: What the administrator of a cluster is told, in terms of the vSphere infrastructure. In a
  completed round of the default checks on a managed cluster, in which no check panics, the
  warning about the account is sent exactly when some failure domain's vCenter is not connected or
  the account lacks a privilege on one of its objects; the warning about folders exactly when some
  failure domain's datastore cannot be found or browsed, whatever the other checks have put in the
  caches; and the warning about the default datastore exactly when some failure domain's datastore
  cannot be found or used.
\<close>

theorem default_round_warnings:
  assumes "performed_check inp c \<noteq> None" "in_ClusterCSIDriver inp \<noteq> Inr Removed"
    and "in_checker inp = (\<lambda>silenced ci. checker_of env ci)" "scheduler_ok env"
    and "end_result (checker_runChecks env NewClusterInfo) = Some (Inr rc)"
    and "round_context env = Some ctx" "chk_ListNodes env = Inr nodes"
    and "iteration_of (results rc) (in_names inp)"
    and "sync inp c = (res, c', effs)"
    and "runs_defaults env d" "PlatformSpec ctx = Some spec"
    and "caches_good (df_folder d) ctx (df_caches d)"
  shows "((\<exists>m. WarningEvent (''FailedVSphere'' @ ''CheckAccountPermissions'') m \<in> set effs) \<longleftrightarrow>
      \<not> (\<forall>fd \<in> set (FailureDomains spec). \<exists>vc. map_of (VCenters ctx) (Server fd) = Some vc \<and>
           domain_permitted (df_inventory d) vc fd)) \<and>
    ((\<exists>m. WarningEvent (''FailedVSphere'' @ ''CheckFolderPermissions'') m \<in> set effs) \<longleftrightarrow>
      \<not> (\<forall>fd \<in> set (FailureDomains spec). folder_fine (df_folder d) ctx fd)) \<and>
    ((\<exists>m. WarningEvent (''FailedVSphere'' @ ''CheckDefaultDatastore'') m \<in> set effs) \<longleftrightarrow>
      \<not> (\<forall>fd \<in> set (FailureDomains spec). \<exists>vc. map_of (VCenters ctx) (Server fd) = Some vc \<and>
           (\<exists>ds. datastore_found (de_inventory (df_ds d) vc) (Datacenter (Topology fd)) (Datastore (Topology fd)) ds \<and>
              may (de_auth (df_ds d)) vc permissionDatastore (ds_Ref ds))))"
proof -
  note E = default_check_event [OF assms(1-10)]
  have account: "(''CheckAccountPermissions'', with_spec ctx (CheckAccountPermissions (df_inventory d) ctx))
      \<in> set (DefaultClusterChecks d ctx)"
    and folder: "(''CheckFolderPermissions'',
         with_spec ctx (\<lambda>spec. fst (CheckFolderPermissions (df_folder d) ctx spec (df_caches d))))
      \<in> set (DefaultClusterChecks d ctx)"
    and datastore: "(''CheckDefaultDatastore'', with_spec ctx (CheckDefaultDatastore (df_ds d) ctx))
      \<in> set (DefaultClusterChecks d ctx)"
    unfolding DefaultClusterChecks_def by (simp_all only: list.set insert_iff simp_thms)
  have fold: "fst (CheckFolderPermissions (df_folder d) ctx spec (df_caches d)) = None \<longleftrightarrow>
      (\<forall>fd \<in> set (FailureDomains spec). folder_fine (df_folder d) ctx fd)"
    using folder_loop_refines [OF round_context_wf [OF assms(6)] assms(12), of "FailureDomains spec"]
    by (simp add: CheckFolderPermissions_def folder_direct_passes)
  have data: "CheckDefaultDatastore (df_ds d) ctx spec = None \<longleftrightarrow>
      (\<forall>fd \<in> set (FailureDomains spec). \<exists>vc. map_of (VCenters ctx) (Server fd) = Some vc \<and>
         (\<exists>ds. datastore_found (de_inventory (df_ds d) vc) (Datacenter (Topology fd)) (Datastore (Topology fd)) ds \<and>
            may (de_auth (df_ds d)) vc permissionDatastore (ds_Ref ds)))"
    unfolding CheckDefaultDatastore_def checkDefault_None de_DatastoreMo_found datastore_ok_def ..
  show ?thesis
    unfolding E [OF account] E [OF folder] E [OF datastore] with_spec_passes [OF assms(11)]
      CheckAccountPermissions_None fold data by blast
qed

text \<open>A first call of \<^verbatim>\<open>sync\<close> that performs a round of the default checks.\<close>

definition default_round_input :: "default_env \<Rightarrow> sync_input" where
  "default_round_input d = failing_input 5 ''Managed''
     \<lparr>in_checker := \<lambda>silenced ci. checker_of (with_defaults d shared_env) ci,
      in_names := cluster_check_names @ node_check_names\<rparr>"

lemma default_round_performed: "performed_check (default_round_input d) NewVSphereProblemDetectorController \<noteq> None"
  unfolding performed_check_iff
  by (simp add: sync_admits_def default_round_input_def failing_input_def platformSupported_def
      sample_infra_def VSpherePlatformType_def Managed_def Removed_def checkStateChange_def
      NewVSphereProblemDetectorController_def)

lemma default_round_input_fields:
  "in_ClusterCSIDriver (default_round_input d) \<noteq> Inr Removed"
  "in_checker (default_round_input d) = (\<lambda>silenced ci. checker_of (with_defaults d shared_env) ci)"
  "in_names (default_round_input d) = cluster_check_names @ node_check_names"
  by (simp_all add: default_round_input_def Removed_def)

lemma default_round_names:
  assumes "round_context sample_env = Some ctx"
    and "end_result (checker_runChecks (with_defaults d shared_env) NewClusterInfo) = Some (Inr rc)"
  shows "iteration_of (results rc) (in_names (default_round_input d))"
proof -
  let ?env = "with_defaults d shared_env" and ?nodes = "[vsphere_node, second_node, metal_node]"
  have ctx: "round_context ?env = Some ctx"
    using assms(1) by (simp only: with_defaults_round_context shared_round_context)
  obtain tr where tr: "tr \<in> interleavings (map (run_job ?env ctx) (round_jobs ?env ?nodes))"
    and add: "rc = add_results (trace_results tr)"
    using successful_round [OF assms(2) sample_scheduler_ok] ctx sample_defaults_nodes by auto
  have lists: "chk_clusterChecks ?env = cluster_check_names" "chk_nodeChecks ?env = node_check_names"
    by (rule with_defaults_lists)+
  have some: "\<exists>n \<in> set ?nodes. isVSphereNode n" by (simp add: isVSphereNode_def vsphere_node_def)
  have rep: "reported_checks ?env ?nodes = set (cluster_check_names @ node_check_names)"
    unfolding reported_checks_def lists using some by (simp only: if_True set_append)
  have dist: "distinct (cluster_check_names @ node_check_names)"
    using names_distinct by (simp only: distinct_append)
  show ?thesis
    using round_results(1) [OF tr] rep dist
    by (simp only: add iteration_of_def dom_add_results default_round_input_fields)
qed

lemmas default_round_setup =
  default_round_performed default_round_input_fields(1,2) sample_scheduler_ok

theorem default_round_warnings_witness:
  "\<exists>m. WarningEvent (''FailedVSphere'' @ ''CheckAccountPermissions'') m
     \<in> set (snd (snd (sync (default_round_input default_sample) NewVSphereProblemDetectorController)))"
proof -
  let ?inp = "default_round_input default_sample" and ?c = NewVSphereProblemDetectorController
  obtain ctx where ctx: "round_context sample_env = Some ctx" using sample_round_context by blast
  then have ctx': "round_context default_round_env = Some ctx"
    by (simp only: with_defaults_round_context shared_round_context)
  obtain spec fd where spec: "PlatformSpec ctx = Some spec" "FailureDomains spec = [fd]"
    using sample_context_facts(3) [OF ctx] by blast
  obtain rc where rc: "end_result (checker_runChecks default_round_env NewClusterInfo) = Some (Inr rc)"
    using sample_defaults_end by blast
  obtain res c' effs where s: "sync ?inp ?c = (res, c', effs)" by (cases "sync ?inp ?c") auto
  have good: "caches_good (df_folder default_sample) ctx (df_caches default_sample)"
    by (simp add: default_sample_def caches_good_New)
  note runs = with_defaults_runs [OF ctx [folded shared_round_context] default_sample_never_panics [OF ctx]]
  note W = default_round_warnings [OF default_round_setup rc ctx' sample_defaults_nodes
      default_round_names [OF ctx rc] s runs spec(1) good]
  have "\<not> domain_permitted (df_inventory default_sample) vc fd" for vc
    by (simp add: domain_permitted_def default_sample_def may_def held_def Let_def)
  then show ?thesis using conjunct1 [OF W] spec(2) s by simp
qed

text \<open>
  C3: What the administrator is told about the configuration. In a completed round of the default
  checks on a managed cluster with several failure domains (no check panics, the servers of the
  resource and the tag categories of a vCenter have different names), the warnings about the
  infrastructure configuration, the datacenters, the zone tags and the host groups are sent exactly
  when, respectively, the cloud configuration, the Infrastructure resource and the failure domains
  do not name the same vCenters; some failure domain's datacenter is missing from one of the lists;
  some vCenter lacks a tag category or some failure domain's cluster cannot be found or has no tag
  of the region or of the zone category on it, its ancestors or the hosts of its zone; some
  failure domain of host groups lacks its groups, its rule or the tags of its hosts.
\<close>

theorem default_round_configuration_warnings:
  assumes "performed_check inp c \<noteq> None" "in_ClusterCSIDriver inp \<noteq> Inr Removed"
    and "in_checker inp = (\<lambda>silenced ci. checker_of env ci)" "scheduler_ok env"
    and "end_result (checker_runChecks env NewClusterInfo) = Some (Inr rc)"
    and "round_context env = Some ctx" "chk_ListNodes env = Inr nodes"
    and "iteration_of (results rc) (in_names inp)"
    and "sync inp c = (res, c', effs)"
    and "runs_defaults env d" "VMConfig ctx = Some cfg" "distinct (map fst (VirtualCenter cfg))"
    and "df_infra d = Inr infra" "spec_VSphere infra = Some spec" "1 < length (FailureDomains spec)"
    and "distinct (map spec_Server (spec_VCenters spec))" "ranges_ok (df_tag d)"
    and "\<forall>vc \<in> snd ` set (VCenters ctx). unique_categories (df_tag d) vc"
  shows "((\<exists>m. WarningEvent (''FailedVSphere'' @ ''CheckInfraConfig'') m \<in> set effs) \<longleftrightarrow>
      \<not> vcenters_agree cfg spec) \<and>
    ((\<exists>m. WarningEvent (''FailedVSphere'' @ ''CheckDatacenterConsistency'') m \<in> set effs) \<longleftrightarrow>
      \<not> datacenters_listed cfg spec) \<and>
    ((\<exists>m. WarningEvent (''FailedVSphere'' @ ''CheckZoneTags'') m \<in> set effs) \<longleftrightarrow>
      \<not> ((\<forall>vc \<in> snd ` set (VCenters ctx). has_categories (df_tag d) vc) \<and>
           (\<forall>fd \<in> set (FailureDomains spec). domain_tagged (df_tag d) ctx fd))) \<and>
    ((\<exists>m. WarningEvent (''FailedVSphere'' @ ''CheckHostGroups'') m \<in> set effs) \<longleftrightarrow>
      \<not> (\<forall>fd \<in> set (FailureDomains spec). host_groups_wanted (df_tag d) ctx fd))"
proof -
  note E = default_check_event [OF assms(1-10)]
  have config: "(''CheckInfraConfig'', with_config ctx (CheckInfraConfig (df_infra d)))
      \<in> set (DefaultClusterChecks d ctx)"
    and consistency: "(''CheckDatacenterConsistency'', with_config ctx (CheckDatacenterConsistency (df_infra d)))
      \<in> set (DefaultClusterChecks d ctx)"
    and zone: "(''CheckZoneTags'', map_option plain (CheckZoneTags (df_tag d) ctx (df_infra d)))
      \<in> set (DefaultClusterChecks d ctx)"
    and groups: "(''CheckHostGroups'', map_option plain (CheckHostGroups (df_tag d) ctx (df_infra d)))
      \<in> set (DefaultClusterChecks d ctx)"
    unfolding DefaultClusterChecks_def by (simp_all only: list.set insert_iff simp_thms)
  have some: "FailureDomains spec \<noteq> []" using assms(15) by auto
  have tags: "CheckZoneTags (df_tag d) ctx (Inr infra) = Some None \<longleftrightarrow>
      (\<forall>vc \<in> snd ` set (VCenters ctx). has_categories (df_tag d) vc) \<and>
         (\<forall>fd \<in> set (FailureDomains spec). domain_tagged (df_tag d) ctx fd)"
    by (rule CheckZoneTags_exact [OF assms(14,15) round_context_wf [OF assms(6)] assms(18)])
  show ?thesis
    unfolding E [OF config] E [OF consistency] E [OF zone] E [OF groups] with_config_passes [OF assms(11)]
      map_plain_passes assms(13) CheckInfraConfig_None [OF assms(14) some assms(16,12)]
      CheckDatacenterConsistency_None [OF assms(14,16)] tags CheckHostGroups_passes [OF assms(17,14)]
      host_groups_fine_wanted [OF assms(18)]
    by blast
qed

text \<open>A cluster of two vCenters of which the cloud configuration names one, without tag categories.\<close>

definition zonal_sample :: default_env where
  "zonal_sample = default_sample
     \<lparr>df_infra := Inr (sample_infrastructure\<lparr>spec_VSphere := Some sample_spec\<rparr>),
      df_tag := host_group_env\<lparr>te_Categories := \<lambda>_. Inl (Errorf ''no categories'')\<rparr>\<rparr>"

lemma zonal_checks_return:
  assumes "VCenters ctx \<noteq> []" "df_infra zonal_sample = i" "df_tag zonal_sample = t"
  shows "CheckZoneTags t ctx i \<noteq> None" "CheckHostGroups t ctx i \<noteq> None"
proof -
  obtain vc vcs where "map snd (VCenters ctx) = vc # vcs" using assms(1) by (cases "VCenters ctx") auto
  then show "CheckZoneTags t ctx i \<noteq> None" "CheckHostGroups t ctx i \<noteq> None"
    unfolding assms(2,3) [symmetric] zonal_sample_def
    by (simp_all add: CheckZoneTags_def CheckHostGroups_def sample_spec_def validateTagCategories_def
        host_group_domain_def sample_domain_def)
qed

theorem default_round_configuration_warnings_witness:
  "\<exists>m. WarningEvent (''FailedVSphere'' @ ''CheckInfraConfig'') m
     \<in> set (snd (snd (sync (default_round_input zonal_sample) NewVSphereProblemDetectorController)))"
proof -
  let ?inp = "default_round_input zonal_sample" and ?c = NewVSphereProblemDetectorController
  let ?env = "with_defaults zonal_sample shared_env"
  let ?infra = "sample_infrastructure\<lparr>spec_VSphere := Some sample_spec\<rparr>"
  let ?tag = "host_group_env\<lparr>te_Categories := \<lambda>_. Inl (Errorf ''no categories'')\<rparr>"
  obtain ctx where ctx: "round_context sample_env = Some ctx" using sample_round_context by blast
  then have ctx': "round_context ?env = Some ctx"
    by (simp only: with_defaults_round_context shared_round_context)
  obtain cfg where cfg: "VMConfig ctx = Some cfg" "map fst (VirtualCenter cfg) = [''vc1'']"
    using sample_config_facts(1) [OF ctx] by (elim exE conjE)
  obtain rc where rc: "end_result (checker_runChecks ?env NewClusterInfo) = Some (Inr rc)"
    using sample_defaults_end by blast
  obtain res c' effs where s: "sync ?inp ?c = (res, c', effs)" by (cases "sync ?inp ?c") auto
  have ranges: "ranges_ok ?tag" using host_group_env_ranges by (simp add: ranges_ok_def)
  have unique: "\<forall>vc \<in> snd ` set (VCenters ctx). unique_categories ?tag vc" by (simp add: unique_categories_def)
  have spec: "spec_VSphere ?infra = Some sample_spec" "1 < length (FailureDomains sample_spec)"
    "distinct (map spec_Server (spec_VCenters sample_spec))" "spec_VCenters sample_spec = []"
    by (simp_all add: sample_spec_def)
  have infra: "df_infra zonal_sample = Inr ?infra" "df_tag zonal_sample = ?tag"
    by (simp_all add: zonal_sample_def)
  have "VCenters ctx \<noteq> []" using sample_config_facts(2) [OF ctx] by auto
  note return = zonal_checks_return [OF this infra]
  have "never_panics zonal_sample shared_env ctx"
    unfolding zonal_sample_def by (rule sample_never_panics [OF ctx return])
  note runs = with_defaults_runs [OF ctx [folded shared_round_context] this]
  have dist: "distinct (map fst (VirtualCenter cfg))" by (simp add: cfg(2))
  note W = default_round_configuration_warnings [OF default_round_setup rc ctx' sample_defaults_nodes
      default_round_names [OF ctx rc] s runs cfg(1) dist infra(1) spec(1-3), unfolded infra(2), OF ranges unique]
  have "fst ` set (VirtualCenter cfg) = {''vc1''}" using arg_cong [OF cfg(2), of set] by simp
  then have "\<not> vcenters_agree cfg sample_spec" by (simp add: vcenters_agree_def spec(4))
  then show ?thesis using conjunct1 [OF W] s by simp
qed

end
